(* ===== verification/Prelude.thy ===== *)
theory Prelude
  imports
    Main
    "HOL-Library.Word"
    "HOL-Library.Char_ord"
    "HOL-Library.List_Lexorder"
    "HOL-Library.Multiset"
begin

unbundle bit_operations_syntax

text \<open>
  Shared vocabulary of the development: the Go machine integers as words, Go strings as byte
  strings (\<open>string\<close> with the byte-wise lexicographic order of \<open>List_Lexorder\<close>), time and clock
  readings, decimal and hexadecimal printing, big-endian integer layout, and the generic lemmas on
  maps, sums and words that the component theories use.

  \<^item> \<open>int64\<close> is \<open>64 word\<close>: \<open>+\<close> and \<open>-\<close> wrap exactly as in Go, and a Go comparison \<open>a < b\<close> is
    \<open>sint a < sint b\<close>. \<open>uint64\<close>, \<open>uint32\<close>, \<open>uint16\<close> and \<open>byte\<close> are words compared by \<open><\<close>.
  \<^item> \<open>time.Time\<close> is an \<open>int\<close>, the nanoseconds since the Unix epoch.
  \<^item> A \<open>clock\<close> gives the readings of \<open>time.Now()\<close> in one call of an operation: \<open>clk k\<close> is what the
    \<open>k\<close>-th call site in the text of that operation reads. No theorem restricts how they relate
    unless it says so.
\<close>

section \<open>Types\<close>

type_synonym int64 = "64 word"
type_synonym uint64 = "64 word"
type_synonym uint32 = "32 word"
type_synonym uint16 = "16 word"
type_synonym byte = "8 word"
type_synonym time = int
type_synonym clock = "nat \<Rightarrow> time"

section \<open>Time\<close>

definition Second :: int where
  "Second = 1000000000"

text \<open>\<open>t.UnixNano()\<close> and \<open>t.Unix()\<close> as \<open>int64\<close>.\<close>

definition UnixNano :: "time \<Rightarrow> int64" where
  "UnixNano t = word_of_int t"

definition Unix :: "time \<Rightarrow> int64" where
  "Unix t = word_of_int (t div Second)"

section \<open>Printing: the verbs of \<open>fmt.Sprintf\<close> the program uses\<close>

definition digit_char :: "nat \<Rightarrow> char" where
  "digit_char d = char_of (48 + d)"

fun show_nat :: "nat \<Rightarrow> string" where
  "show_nat n = (if n < 10 then [digit_char n] else show_nat (n div 10) @ [digit_char (n mod 10)])"

declare show_nat.simps [simp del]

definition show_int :: "int \<Rightarrow> string" where
  "show_int i = (if i < 0 then ''-'' @ show_nat (nat (- i)) else show_nat (nat i))"

text \<open>\<open>%d\<close> of an \<open>int64\<close> and of a \<open>uint64\<close>.\<close>

definition show_int64 :: "int64 \<Rightarrow> string" where
  "show_int64 x = show_int (sint x)"

definition show_uint64 :: "uint64 \<Rightarrow> string" where
  "show_uint64 x = show_nat (unat x)"

section \<open>Bytes, hexadecimal and big-endian integers\<close>

text \<open>The conversion \<open>[]byte(s)\<close>.\<close>

definition bytes_of :: "string \<Rightarrow> byte list" where
  "bytes_of s = map of_char s"

definition hex_digit :: "nat \<Rightarrow> char" where
  "hex_digit d = (if d < 10 then char_of (48 + d) else char_of (87 + d))"

text \<open>\<open>hex.EncodeToString\<close>: two lower-case digits per byte.\<close>

fun hex_encode :: "byte list \<Rightarrow> string" where
  "hex_encode [] = []"
| "hex_encode (b # bs) =
     hex_digit (unat b div 16) # hex_digit (unat b mod 16) # hex_encode bs"

definition from_hex_char :: "char \<Rightarrow> nat option" where
  "from_hex_char c =
     (let n = of_char c :: nat in
      if 48 \<le> n \<and> n \<le> 57 then Some (n - 48)
      else if 97 \<le> n \<and> n \<le> 102 then Some (n - 87)
      else if 65 \<le> n \<and> n \<le> 70 then Some (n - 55)
      else None)"

text \<open>\<open>hex.DecodeString\<close>: an error (\<open>None\<close>) on an odd length or a character that is no digit.\<close>

fun hex_decode :: "string \<Rightarrow> byte list option" where
  "hex_decode [] = Some []"
| "hex_decode [c] = None"
| "hex_decode (c # d # cs) =
     (case from_hex_char c of None \<Rightarrow> None | Some h \<Rightarrow>
      (case from_hex_char d of None \<Rightarrow> None | Some l \<Rightarrow>
       (case hex_decode cs of None \<Rightarrow> None | Some bs \<Rightarrow> Some (of_nat (16 * h + l) # bs))))"

text \<open>\<open>binary.BigEndian\<close> for the three widths used.\<close>

definition be16 :: "uint16 \<Rightarrow> byte list" where
  "be16 x = [ucast (drop_bit 8 x), ucast x]"

definition be32 :: "uint32 \<Rightarrow> byte list" where
  "be32 x = [ucast (drop_bit 24 x), ucast (drop_bit 16 x), ucast (drop_bit 8 x), ucast x]"

definition be64 :: "uint64 \<Rightarrow> byte list" where
  "be64 x = [ucast (drop_bit 56 x), ucast (drop_bit 48 x), ucast (drop_bit 40 x), ucast (drop_bit 32 x),
             ucast (drop_bit 24 x), ucast (drop_bit 16 x), ucast (drop_bit 8 x), ucast x]"

definition un_be :: "byte list \<Rightarrow> 'a::len word" where
  "un_be bs = foldl (\<lambda>acc b. push_bit 8 acc OR ucast b) 0 bs"

section \<open>Sums over a finite map\<close>

definition map_sum :: "('v \<Rightarrow> 'n::comm_monoid_add) \<Rightarrow> ('k \<rightharpoonup> 'v) \<Rightarrow> 'n" where
  "map_sum f m = (\<Sum>k\<in>dom m. f (the (m k)))"

section \<open>Generic lemmas\<close>

subsection \<open>Maps\<close>

lemma map_sum_empty [simp]: "map_sum f Map.empty = 0"
  by (simp add: map_sum_def)

lemma map_sum_new:
  assumes "finite (dom m)" and "m a = None"
  shows "map_sum f (m(a \<mapsto> v)) = map_sum f m + f v"
proof -
  have "(\<Sum>k\<in>dom m. f (the ((m(a \<mapsto> v)) k))) = (\<Sum>k\<in>dom m. f (the (m k)))"
    using assms(2) by (intro sum.cong) auto
  moreover have "a \<notin> dom m" using assms(2) by auto
  ultimately show ?thesis
    using assms(1) by (simp add: map_sum_def add.commute)
qed

lemma map_sum_remove:
  assumes "finite (dom m)" and "m a = Some v"
  shows "map_sum f m = f v + map_sum f (m(a := None))"
proof -
  have "dom m = insert a (dom m - {a})" using assms(2) by auto
  then have "map_sum f m = (\<Sum>k\<in>insert a (dom m - {a}). f (the (m k)))"
    by (simp add: map_sum_def)
  also have "\<dots> = f v + (\<Sum>k\<in>dom m - {a}. f (the (m k)))"
    using assms by (subst sum.insert) auto
  also have "(\<Sum>k\<in>dom m - {a}. f (the (m k))) = map_sum f (m(a := None))"
    by (auto simp: map_sum_def intro: sum.cong)
  finally show ?thesis .
qed

lemma map_sum_replace:
  fixes f :: "'v \<Rightarrow> 'n::ab_group_add"
  assumes "finite (dom m)" and "m a = Some v"
  shows "map_sum f (m(a \<mapsto> w)) = map_sum f m + (f w - f v)"
proof -
  have "map_sum f (m(a \<mapsto> w)) = f w + map_sum f (m(a := None))"
    using map_sum_remove[of "m(a \<mapsto> w)" a w f] assms(1) by simp
  then show ?thesis using map_sum_remove[OF assms, of f] by (simp add: algebra_simps)
qed

lemma map_sum_list:
  assumes "distinct ks" and "set ks = dom m"
  shows "map_sum f m = (\<Sum>k\<leftarrow>ks. f (the (m k)))"
  using assms by (simp add: map_sum_def sum_list_distinct_conv_sum_set)

lemma map_sum_add: "map_sum (\<lambda>v. f v + g v) m = map_sum f m + map_sum g m"
  by (simp add: map_sum_def sum.distrib)

lemma map_sum_nonneg_member:
  fixes f :: "'v \<Rightarrow> int"
  assumes "finite (dom m)" and "m a = Some v" and "\<And>k w. m k = Some w \<Longrightarrow> 0 \<le> f w"
  shows "f v \<le> map_sum f m"
proof -
  have "0 \<le> map_sum f (m(a := None))"
    unfolding map_sum_def using assms(3) by (intro sum_nonneg) auto
  then show ?thesis using map_sum_remove[OF assms(1,2), of f] by simp
qed

subsection \<open>Signed words\<close>

lemma sint64_bounds: "- (2^63) \<le> sint (x::int64)" "sint (x::int64) < 2^63"
  using sint_ge[of x] sint_lt[of x] by simp_all

lemma sint64_inject: "sint x = sint y \<longleftrightarrow> x = (y :: int64)"
  by (auto intro: signed_word_eqI)

lemma sint_of_int64: "- (2 ^ 63) \<le> a \<Longrightarrow> a < 2 ^ 63 \<Longrightarrow> sint (word_of_int a :: int64) = a"
  by (simp add: sint_sbintrunc' signed_take_bit_int_eq_self)

lemma sint_add_no_overflow:
  fixes x y :: int64
  assumes "- (2^63) \<le> sint x + sint y" and "sint x + sint y < 2^63"
  shows "sint (x + y) = sint x + sint y"
  using assms by (simp add: sint_word_ariths signed_take_bit_int_eq_self)

lemma sint_diff_no_overflow:
  fixes x y :: int64
  assumes "- (2^63) \<le> sint x - sint y" and "sint x - sint y < 2^63"
  shows "sint (x - y) = sint x - sint y"
  using assms by (simp add: sint_word_ariths signed_take_bit_int_eq_self)

text \<open>The subtraction every guarded debit performs: both sides non-negative and \<open>y \<le> x\<close>.\<close>

lemma sint_guarded_debit:
  fixes x y :: int64
  assumes "0 \<le> sint y" and "sint y \<le> sint x"
  shows "sint (x - y) = sint x - sint y"
  using assms sint64_bounds(2)[of x] by (intro sint_diff_no_overflow) auto

lemma sint_nonneg_uint:
  assumes "0 \<le> sint (x :: 'a::len word)"
  shows "sint x = uint x"
proof -
  have "sint x < 2 ^ (LENGTH('a) - 1)" by (rule sint_lt)
  also have "\<dots> \<le> (2 :: int) ^ LENGTH('a)" by (intro power_increasing) auto
  finally have "take_bit LENGTH('a) (sint x) = sint x" using assms by (intro take_bit_int_eq_self) auto
  then show ?thesis by (simp add: uint_sint)
qed

lemma unat_ucast_mod: "unat (ucast (x :: 'a::len word) :: 'b::len word) = unat x mod 2 ^ LENGTH('b)"
  by (simp add: unsigned_ucast_eq take_bit_eq_mod)

lemma unat_pow2:
  assumes "k < LENGTH('a::len)"
  shows "unat (2 ^ k :: 'a word) = 2 ^ k"
proof -
  have "(2::nat) ^ k < 2 ^ LENGTH('a)" using assms by (rule power_strict_increasing) simp
  moreover have "unat (2 ^ k :: 'a word) = unat (of_nat (2 ^ k) :: 'a word)" by simp
  ultimately show ?thesis by (simp only: unat_of_nat mod_less)
qed

subsection \<open>Big-endian round trips\<close>

lemma length_be [simp]: "length (be16 x) = 2" "length (be32 y) = 4" "length (be64 z) = 8"
  by (simp_all add: be16_def be32_def be64_def)

lemma be_step:
  fixes x :: "'a::len word"
  shows "push_bit 8 (drop_bit (k + 8) x) OR ucast (ucast (drop_bit k x) :: byte) = drop_bit k x"
proof (rule bit_word_eqI)
  fix n
  assume "n < LENGTH('a)"
  then show "bit (push_bit 8 (drop_bit (k + 8) x) OR ucast (ucast (drop_bit k x) :: byte)) n
    = bit (drop_bit k x) n"
    by (cases "n < 8") (auto simp: bit_simps)
qed

lemma un_be16 [simp]: "un_be (be16 x) = x"
  using be_step[of 8 x] be_step[of 0 x] by (simp add: be16_def un_be_def)

lemma un_be32 [simp]: "un_be (be32 x) = x"
  using be_step[of 24 x] be_step[of 16 x] be_step[of 8 x] be_step[of 0 x]
  by (simp add: be32_def un_be_def)

lemma un_be64 [simp]: "un_be (be64 x) = x"
  using be_step[of 56 x] be_step[of 48 x] be_step[of 40 x] be_step[of 32 x]
    be_step[of 24 x] be_step[of 16 x] be_step[of 8 x] be_step[of 0 x]
  by (simp add: be64_def un_be_def)

subsection \<open>Hexadecimal round trip\<close>

lemma from_hex_digit: "d < 16 \<Longrightarrow> from_hex_char (hex_digit d) = Some d"
  by (auto simp: from_hex_char_def hex_digit_def Let_def)

lemma unat_byte_less: "unat (b::byte) < 256"
  using unsigned_less[of b, where ?'a = nat] by simp

lemma hex_decode_encode [simp]: "hex_decode (hex_encode bs) = Some bs"
proof (induction bs)
  case Nil
  then show ?case by simp
next
  case (Cons b bs)
  have "unat b div 16 < 16" using unat_byte_less[of b] by auto
  with Cons show ?case by (simp add: from_hex_digit)
qed

lemma length_hex_encode [simp]: "length (hex_encode bs) = 2 * length bs"
  by (induction bs) auto

end
