(* ===== verification/Ledger.thy ===== *)
theory Ledger
  imports Prelude
begin

text \<open>
  Module M2, \<open>internal/ledger/m2_conserving.go\<close>: accounts with an online, an offline and a reserved
  bucket, reservations, and the append-only journal of double entries.

  \<^item> The map \<open>accounts\<close> holds pointers; a mutation through a pointer is \<open>upd_acc\<close> on its key, applied
    in program order, so that the case where source and destination are the same account is the
    aliasing the Go code has.
  \<^item> An operation takes the clock readings it makes and the ledger, and returns its error
    (\<open>None\<close> for \<open>nil\<close>) with the new ledger. Operations that fail after \<open>CreateAccount\<close> return the
    ledger with the account created.
  \<^item> Go mutexes are not re-entrant. Where the code locks two accounts without comparing them, locking
    the same account twice never returns: the result is \<open>None\<close> of an \<open>option\<close>.
\<close>

section \<open>Data\<close>

datatype ledger_error =
    ErrAccountNotFound
  | ErrInsufficientFunds
  | ErrInvalidAmount
  | ErrReservationNotFound
  | ErrHoldMismatch

datatype EntryType = EntryReserve | EntryCommit | EntryRelease | EntryDeficit

record LedgerEntry =
  EntryID :: int64
  le_TxID :: string
  le_Type :: EntryType
  DebitAcc :: string
  CreditAcc :: string
  le_Amount :: int64
  le_Timestamp :: time
  Description :: string

record Account =
  acc_ID :: string
  AvailableBalance :: int64
  OnlineAvailable :: int64
  OfflineAllowance :: int64
  ReservedBalance :: int64
  Version :: int64
  UpdatedAt :: time

record AccountSnapshot =
  snap_ID :: string
  snap_AvailableBalance :: int64
  snap_OnlineAvailable :: int64
  snap_OfflineAllowance :: int64
  snap_ReservedBalance :: int64
  snap_TotalBalance :: int64
  snap_Version :: int64
  snap_UpdatedAt :: time

record Reservation =
  ReservationID :: string
  res_AccountID :: string
  res_Amount :: int64
  res_CreatedAt :: time

record ConservingLedger =
  accounts :: "string \<rightharpoonup> Account"
  reservations :: "string \<rightharpoonup> Reservation"
  entries :: "LedgerEntry list"
  entryCounter :: int64
  EscrowAccountID :: string
  ClearingAccountID :: string
  DeficitReserveAccountID :: string

definition AccountDeficitReserve :: string where
  "AccountDeficitReserve = ''ACC_MERCHANT_DEFICIT_RESERVE''"

section \<open>Operations\<close>

text \<open>Mutation of the account a pointer refers to.\<close>

definition upd_acc :: "string \<Rightarrow> (Account \<Rightarrow> Account) \<Rightarrow> ConservingLedger \<Rightarrow> ConservingLedger" where
  "upd_acc k f l = l\<lparr>accounts := (accounts l)(k := map_option f (accounts l k))\<rparr>"

definition appendEntry :: "LedgerEntry \<Rightarrow> ConservingLedger \<Rightarrow> ConservingLedger" where
  "appendEntry entry l =
     (let n = entryCounter l + 1 in
      l\<lparr>entryCounter := n, entries := entries l @ [entry\<lparr>EntryID := n\<rparr>]\<rparr>)"

definition new_account :: "time \<Rightarrow> string \<Rightarrow> int64 \<Rightarrow> Account" where
  "new_account now k initialBalance =
     \<lparr>acc_ID = k, AvailableBalance = initialBalance, OnlineAvailable = initialBalance,
      OfflineAllowance = 0, ReservedBalance = 0, Version = 1, UpdatedAt = now\<rparr>"

definition CreateAccount :: "time \<Rightarrow> string \<Rightarrow> int64 \<Rightarrow> ConservingLedger \<Rightarrow> ConservingLedger" where
  "CreateAccount now k initialBalance l =
     (case accounts l k of
        Some _ \<Rightarrow> l
      | None \<Rightarrow> l\<lparr>accounts := (accounts l)(k \<mapsto> new_account now k initialBalance)\<rparr>)"

definition NewConservingLedger :: "clock \<Rightarrow> ConservingLedger" where
  "NewConservingLedger clk =
     (let l = \<lparr>accounts = Map.empty, reservations = Map.empty, entries = [], entryCounter = 0,
               EscrowAccountID = ''SYSTEM_ESCROW'', ClearingAccountID = ''SYSTEM_CLEARING'',
               DeficitReserveAccountID = AccountDeficitReserve\<rparr>;
          l1 = CreateAccount (clk 0) (EscrowAccountID l) 0 l;
          l2 = CreateAccount (clk 1) (ClearingAccountID l) 0 l1
      in CreateAccount (clk 2) (DeficitReserveAccountID l) 0 l2)"

definition credit_online :: "time \<Rightarrow> int64 \<Rightarrow> Account \<Rightarrow> Account" where
  "credit_online now amount a =
     a\<lparr>OnlineAvailable := OnlineAvailable a + amount,
       AvailableBalance := OnlineAvailable a + amount,
       Version := Version a + 1, UpdatedAt := now\<rparr>"

definition debit_online :: "time \<Rightarrow> int64 \<Rightarrow> Account \<Rightarrow> Account" where
  "debit_online now amount a =
     a\<lparr>OnlineAvailable := OnlineAvailable a - amount,
       AvailableBalance := OnlineAvailable a - amount,
       Version := Version a + 1, UpdatedAt := now\<rparr>"

definition FundAccount ::
  "clock \<Rightarrow> string \<Rightarrow> int64 \<Rightarrow> ConservingLedger \<Rightarrow> ledger_error option \<times> ConservingLedger" where
  "FundAccount clk k amount l =
     (case accounts l k of
        None \<Rightarrow> (Some ErrAccountNotFound, l)
      | Some _ \<Rightarrow>
          (None,
           appendEntry
             \<lparr>EntryID = 0, le_TxID = ''FUND-'' @ k @ ''-'' @ show_int64 (UnixNano (clk 1)),
              le_Type = EntryCommit, DebitAcc = ''SYSTEM_CAPITAL'', CreditAcc = k,
              le_Amount = amount, le_Timestamp = clk 2,
              Description = ''Funded '' @ show_int64 amount @ '' cents to '' @ k\<rparr>
             (upd_acc k (credit_online (clk 0) amount) l)))"

definition snapshot_of :: "Account \<Rightarrow> AccountSnapshot" where
  "snapshot_of a =
     \<lparr>snap_ID = acc_ID a, snap_AvailableBalance = OnlineAvailable a,
      snap_OnlineAvailable = OnlineAvailable a, snap_OfflineAllowance = OfflineAllowance a,
      snap_ReservedBalance = ReservedBalance a,
      snap_TotalBalance = OnlineAvailable a + OfflineAllowance a + ReservedBalance a,
      snap_Version = Version a, snap_UpdatedAt = UpdatedAt a\<rparr>"

text \<open>The zero value \<open>AccountSnapshot{}\<close>; the zero \<open>time.Time\<close> is 1 January of year 1.\<close>

definition empty_snapshot :: AccountSnapshot where
  "empty_snapshot =
     \<lparr>snap_ID = '''', snap_AvailableBalance = 0, snap_OnlineAvailable = 0, snap_OfflineAllowance = 0,
      snap_ReservedBalance = 0, snap_TotalBalance = 0, snap_Version = 0,
      snap_UpdatedAt = - 62135596800 * Second\<rparr>"

definition GetAccount :: "string \<Rightarrow> ConservingLedger \<Rightarrow> AccountSnapshot \<times> ledger_error option" where
  "GetAccount k l =
     (case accounts l k of
        None \<Rightarrow> (empty_snapshot, Some ErrAccountNotFound)
      | Some a \<Rightarrow> (snapshot_of a, None))"

definition GetAccountSnapshot :: "string \<Rightarrow> ConservingLedger \<Rightarrow> AccountSnapshot" where
  "GetAccountSnapshot k l = fst (GetAccount k l)"

text \<open>The loop over the journal; \<open>Some (d, c)\<close> is the error that reports the two sums.\<close>

definition CheckGlobalInvariant :: "ConservingLedger \<Rightarrow> (int64 \<times> int64) option" where
  "CheckGlobalInvariant l =
     (let (sumDebits, sumCredits) =
        foldl (\<lambda>(d, c) e. (d + le_Amount e, c + le_Amount e)) (0, 0) (entries l)
      in if sumDebits \<noteq> sumCredits then Some (sumDebits, sumCredits) else None)"

definition AllocateOfflineAllowance ::
  "clock \<Rightarrow> string \<Rightarrow> int64 \<Rightarrow> ConservingLedger \<Rightarrow> ledger_error option \<times> ConservingLedger" where
  "AllocateOfflineAllowance clk accountID amount l =
     (if sint amount \<le> 0 then (Some ErrInvalidAmount, l)
      else case accounts l accountID of
        None \<Rightarrow> (Some ErrAccountNotFound, l)
      | Some acc \<Rightarrow>
          if sint (OnlineAvailable acc) < sint amount then (Some ErrInsufficientFunds, l)
          else
            (None,
             appendEntry
               \<lparr>EntryID = 0,
                le_TxID = ''ALLOC-'' @ accountID @ ''-'' @ show_int64 (UnixNano (clk 1)),
                le_Type = EntryReserve, DebitAcc = accountID @ ''_ONLINE'',
                CreditAcc = accountID @ ''_OFFLINE'', le_Amount = amount, le_Timestamp = clk 2,
                Description = ''Pre-reserved '' @ show_int64 amount @ '' cents to OfflineAllowance''\<rparr>
               (upd_acc accountID
                 (\<lambda>a. a\<lparr>OnlineAvailable := OnlineAvailable a - amount,
                        AvailableBalance := OnlineAvailable a - amount,
                        OfflineAllowance := OfflineAllowance a + amount,
                        Version := Version a + 1, UpdatedAt := clk 0\<rparr>) l)))"

definition CommitOfflineAllowance ::
  "clock \<Rightarrow> string \<Rightarrow> string \<Rightarrow> int64 \<Rightarrow> string \<Rightarrow> ConservingLedger
    \<Rightarrow> ledger_error option \<times> ConservingLedger" where
  "CommitOfflineAllowance clk accountID destAccountID amount txID l =
     (if sint amount \<le> 0 then (Some ErrInvalidAmount, l)
      else case accounts l accountID of
        None \<Rightarrow> (Some ErrAccountNotFound, l)
      | Some acc \<Rightarrow>
          let l1 = CreateAccount (clk 0) destAccountID 0 l in
          if sint (OfflineAllowance acc) < sint amount then (Some ErrInsufficientFunds, l1)
          else
            (None,
             appendEntry
               \<lparr>EntryID = 0, le_TxID = txID, le_Type = EntryCommit,
                DebitAcc = accountID @ ''_OFFLINE'', CreditAcc = destAccountID,
                le_Amount = amount, le_Timestamp = clk 3,
                Description = ''Settled '' @ show_int64 amount @ '' cents from OfflineAllowance to ''
                  @ destAccountID\<rparr>
               (upd_acc destAccountID (credit_online (clk 2) amount)
                 (upd_acc accountID
                   (\<lambda>a. a\<lparr>OfflineAllowance := OfflineAllowance a - amount,
                          Version := Version a + 1, UpdatedAt := clk 1\<rparr>) l1))))"

text \<open>
  Locks \<open>reserveAcc\<close> and then \<open>destAcc\<close> without comparing them: \<open>None\<close> when they are the same
  account, whose mutex the goroutine already holds.
\<close>

definition DebitDeficitReserve ::
  "clock \<Rightarrow> string \<Rightarrow> int64 \<Rightarrow> string \<Rightarrow> ConservingLedger
    \<Rightarrow> (ledger_error option \<times> ConservingLedger) option" where
  "DebitDeficitReserve clk merchantID amount txID l =
     (if sint amount \<le> 0 then Some (Some ErrInvalidAmount, l)
      else
        let reserveID = DeficitReserveAccountID l;
            l1 = CreateAccount (clk 0) reserveID 0 l;
            l2 = CreateAccount (clk 1) merchantID 0 l1
        in if reserveID = merchantID then None
           else Some
             (None,
              appendEntry
                \<lparr>EntryID = 0, le_TxID = txID, le_Type = EntryDeficit, DebitAcc = reserveID,
                 CreditAcc = merchantID, le_Amount = amount, le_Timestamp = clk 4,
                 Description = ''Deficit liability of '' @ show_int64 amount
                   @ '' cents charged to reserve for tx '' @ txID\<rparr>
                (upd_acc merchantID (credit_online (clk 3) amount)
                  (upd_acc reserveID (debit_online (clk 2) amount) l2))))"

definition ReserveFunds ::
  "clock \<Rightarrow> string \<Rightarrow> int64 \<Rightarrow> string \<Rightarrow> ConservingLedger
    \<Rightarrow> (ledger_error + string) \<times> ConservingLedger" where
  "ReserveFunds clk accountID amount txID l =
     (if sint amount \<le> 0 then (Inl ErrInvalidAmount, l)
      else case accounts l accountID of
        None \<Rightarrow> (Inl ErrAccountNotFound, l)
      | Some acc \<Rightarrow>
          if sint (OnlineAvailable acc) < sint amount then (Inl ErrInsufficientFunds, l)
          else
            let l1 = upd_acc accountID
                  (\<lambda>a. a\<lparr>OnlineAvailable := OnlineAvailable a - amount,
                         AvailableBalance := OnlineAvailable a - amount,
                         ReservedBalance := ReservedBalance a + amount,
                         Version := Version a + 1, UpdatedAt := clk 0\<rparr>) l;
                resID = ''RES-'' @ txID @ ''-'' @ show_int64 (UnixNano (clk 1));
                l2 = l1\<lparr>reservations := (reservations l1)(resID \<mapsto>
                  \<lparr>ReservationID = resID, res_AccountID = accountID, res_Amount = amount,
                   res_CreatedAt = clk 2\<rparr>)\<rparr>
            in (Inr resID,
                appendEntry
                  \<lparr>EntryID = 0, le_TxID = txID, le_Type = EntryReserve, DebitAcc = accountID,
                   CreditAcc = EscrowAccountID l, le_Amount = amount, le_Timestamp = clk 3,
                   Description = ''Funds reserved under '' @ resID\<rparr> l2))"

definition CommitHold ::
  "clock \<Rightarrow> string \<Rightarrow> string \<Rightarrow> int64 \<Rightarrow> string \<Rightarrow> ConservingLedger
    \<Rightarrow> ledger_error option \<times> ConservingLedger" where
  "CommitHold clk accountID destAccountID amount txID l =
     (if sint amount \<le> 0 then (Some ErrInvalidAmount, l)
      else case accounts l accountID of
        None \<Rightarrow> (Some ErrAccountNotFound, l)
      | Some acc \<Rightarrow>
          let l1 = CreateAccount (clk 0) destAccountID 0 l in
          if sint (ReservedBalance acc) < sint amount then (Some ErrHoldMismatch, l1)
          else
            (None,
             appendEntry
               \<lparr>EntryID = 0, le_TxID = txID, le_Type = EntryCommit, DebitAcc = EscrowAccountID l,
                CreditAcc = destAccountID, le_Amount = amount, le_Timestamp = clk 3,
                Description = ''Settlement committed to '' @ destAccountID\<rparr>
               (upd_acc destAccountID (credit_online (clk 2) amount)
                 (upd_acc accountID
                   (\<lambda>a. a\<lparr>ReservedBalance := ReservedBalance a - amount,
                          Version := Version a + 1, UpdatedAt := clk 1\<rparr>) l1))))"

definition DirectCommit ::
  "clock \<Rightarrow> string \<Rightarrow> string \<Rightarrow> int64 \<Rightarrow> string \<Rightarrow> ConservingLedger
    \<Rightarrow> ledger_error option \<times> ConservingLedger" where
  "DirectCommit clk accountID destAccountID amount txID l =
     (if sint amount \<le> 0 then (Some ErrInvalidAmount, l)
      else case accounts l accountID of
        None \<Rightarrow> (Some ErrAccountNotFound, l)
      | Some acc \<Rightarrow>
          let l1 = CreateAccount (clk 0) destAccountID 0 l in
          if sint (OnlineAvailable acc) < sint amount then (Some ErrInsufficientFunds, l1)
          else
            (None,
             appendEntry
               \<lparr>EntryID = 0, le_TxID = txID, le_Type = EntryCommit, DebitAcc = accountID,
                CreditAcc = destAccountID, le_Amount = amount, le_Timestamp = clk 3,
                Description = ''Direct authorization committed to '' @ destAccountID\<rparr>
               (upd_acc destAccountID (credit_online (clk 2) amount)
                 (upd_acc accountID (debit_online (clk 1) amount) l1))))"

text \<open>No check that \<open>amount\<close> is positive, unlike the operations above.\<close>

definition ReleaseHold ::
  "clock \<Rightarrow> string \<Rightarrow> int64 \<Rightarrow> string \<Rightarrow> ConservingLedger
    \<Rightarrow> ledger_error option \<times> ConservingLedger" where
  "ReleaseHold clk accountID amount txID l =
     (case accounts l accountID of
        None \<Rightarrow> (Some ErrAccountNotFound, l)
      | Some acc \<Rightarrow>
          if sint (ReservedBalance acc) < sint amount then (Some ErrHoldMismatch, l)
          else
            (None,
             appendEntry
               \<lparr>EntryID = 0, le_TxID = txID, le_Type = EntryRelease, DebitAcc = EscrowAccountID l,
                CreditAcc = accountID, le_Amount = amount, le_Timestamp = clk 1,
                Description = ''Hold released for tx '' @ txID\<rparr>
               (upd_acc accountID
                 (\<lambda>a. a\<lparr>ReservedBalance := ReservedBalance a - amount,
                        OnlineAvailable := OnlineAvailable a + amount,
                        AvailableBalance := OnlineAvailable a + amount,
                        Version := Version a + 1, UpdatedAt := clk 0\<rparr>) l)))"

text \<open>Neither a check on \<open>amount\<close> nor a comparison of the two accounts before locking both.\<close>

definition RecordDeficit ::
  "clock \<Rightarrow> string \<Rightarrow> string \<Rightarrow> int64 \<Rightarrow> string \<Rightarrow> ConservingLedger
    \<Rightarrow> (ledger_error option \<times> ConservingLedger) option" where
  "RecordDeficit clk accountID destAccountID amount txID l =
     (let l1 = CreateAccount (clk 0) accountID 0 l;
          l2 = CreateAccount (clk 1) destAccountID 0 l1
      in if accountID = destAccountID then None
         else Some
           (None,
            appendEntry
              \<lparr>EntryID = 0, le_TxID = txID, le_Type = EntryDeficit, DebitAcc = accountID,
               CreditAcc = destAccountID, le_Amount = amount, le_Timestamp = clk 4,
               Description = ''Deficit settlement committed for partition tx '' @ txID\<rparr>
              (upd_acc destAccountID (credit_online (clk 3) amount)
                (upd_acc accountID (debit_online (clk 2) amount) l2))))"

text \<open>
  Go's \<open>range\<close> over a map visits the keys in an unspecified order; \<open>order\<close> is the order of this
  call. The result is \<open>(totalAvailable, totalReserved, totalBalance, entryCount)\<close>.
\<close>

definition AuditConservation ::
  "string list \<Rightarrow> ConservingLedger \<Rightarrow> int64 \<times> int64 \<times> int64 \<times> nat" where
  "AuditConservation order l =
     (let (totalAvailable, totalReserved) =
        foldl (\<lambda>(av, rs) k. case accounts l k of
                 None \<Rightarrow> (av, rs)
               | Some a \<Rightarrow> (av + (OnlineAvailable a + OfflineAllowance a), rs + ReservedBalance a))
          (0, 0) order
      in (totalAvailable, totalReserved, totalAvailable + totalReserved, length (entries l)))"

end
