(* ===== verification/Book.thy ===== *)
theory Book
  imports Prelude
begin

text \<open>
  The abstract contract of a bucketed ledger. A \<open>book\<close> gives the balance of every position (an
  account name and one of its three buckets), zero for an account that does not exist; what a ledger
  operation promises is to move an amount from one position to another, or to leave the book alone.
  The locale \<open>transfer_system\<close> states that contract for any state type and step relation and proves
  its consequences once; the ledger, the reconciler and the gateway are interpreted in it.
\<close>

section \<open>Books and transfers\<close>

datatype bucket = Online | Offline | Reserved

type_synonym position = "string \<times> bucket"
type_synonym book = "position \<Rightarrow> int64"

definition transfer :: "position \<Rightarrow> position \<Rightarrow> int64 \<Rightarrow> book \<Rightarrow> book" where
  "transfer p q x b = (let b1 = b(p := b p - x) in b1(q := b1 q + x))"

text \<open>The positions of a set of account names, and the money they hold.\<close>

definition positions :: "string set \<Rightarrow> position set" where
  "positions K = K \<times> {Online, Offline, Reserved}"

definition book_total :: "string set \<Rightarrow> book \<Rightarrow> int64" where
  "book_total K b = (\<Sum>p\<in>positions K. b p)"

text \<open>The same sum over the mathematical integers, which does not wrap.\<close>

definition money_supply :: "string set \<Rightarrow> book \<Rightarrow> int" where
  "money_supply K b = (\<Sum>p\<in>positions K. sint (b p))"

text \<open>Every balance is non-negative and all the money together fits in an \<open>int64\<close>.\<close>

definition solvent :: "string set \<Rightarrow> book \<Rightarrow> bool" where
  "solvent K b \<longleftrightarrow> (\<forall>p\<in>positions K. 0 \<le> sint (b p)) \<and> money_supply K b < 2^63"

section \<open>Lemmas\<close>

lemma finite_positions [simp]: "finite K \<Longrightarrow> finite (positions K)"
  by (simp add: positions_def)

lemma positions_iff [simp]: "(k, c) \<in> positions K \<longleftrightarrow> k \<in> K"
  by (cases c) (auto simp: positions_def)

lemma positions_mono: "K \<subseteq> L \<Longrightarrow> positions K \<subseteq> positions L"
  by (auto simp: positions_def)

lemma transfer_apply:
  "transfer p q x b r =
     (if p = q then b r else if r = p then b p - x else if r = q then b q + x else b r)"
  by (auto simp: transfer_def Let_def)

lemma transfer_other [simp]: "r \<noteq> p \<Longrightarrow> r \<noteq> q \<Longrightarrow> transfer p q x b r = b r"
  by (simp add: transfer_apply)

lemma transfer_self [simp]: "transfer p p x b = b"
  by (rule ext) (simp add: transfer_apply)

lemma sum_fun_upd:
  fixes f :: "'a \<Rightarrow> 'n::ab_group_add"
  assumes "finite P" and "p \<in> P"
  shows "sum (f(p := v)) P = sum f P + (v - f p)"
proof -
  have "sum (f(p := v)) P = v + sum (f(p := v)) (P - {p})"
    using assms by (simp add: sum.remove)
  moreover have "sum (f(p := v)) (P - {p}) = sum f (P - {p})"
    by (rule sum.cong) auto
  moreover have "sum f P = f p + sum f (P - {p})"
    using assms by (simp add: sum.remove)
  ultimately show ?thesis by simp
qed

lemma sum_transfer:
  assumes "finite P" and "p \<in> P" and "q \<in> P"
  shows "sum (transfer p q x b) P = sum b P"
proof (cases "p = q")
  case False
  then have "transfer p q x b = b(p := b p - x, q := b q + x)"
    by (auto simp: transfer_def Let_def)
  with False assms show ?thesis
    by (simp add: sum_fun_upd fun_upd_other del: fun_upd_apply)
qed simp

lemma book_total_transfer:
  assumes "finite K" and "fst p \<in> K" and "fst q \<in> K"
  shows "book_total K (transfer p q x b) = book_total K b"
  using assms by (cases p; cases q) (simp add: book_total_def sum_transfer)

lemma sint_transfer:
  assumes K: "finite K" "fst p \<in> K" "fst q \<in> K" and "p \<noteq> q"
    and ok: "solvent K b" and x: "0 \<le> sint x" "sint x \<le> sint (b p)"
  shows "sint \<circ> transfer p q x b = (sint \<circ> b)(p := sint (b p) - sint x, q := sint (b q) + sint x)"
proof -
  have pq: "p \<in> positions K" "q \<in> positions K"
    using K by (cases p, simp, cases q, simp)
  have nonneg: "\<And>r. r \<in> positions K \<Longrightarrow> 0 \<le> sint (b r)"
    using ok by (simp add: solvent_def)
  have "(\<Sum>r\<in>{p, q}. sint (b r)) \<le> money_supply K b"
    unfolding money_supply_def using K pq nonneg by (intro sum_mono2) auto
  then have "sint (b q) + sint x < 2^63"
    using x ok \<open>p \<noteq> q\<close> by (simp add: solvent_def)
  then have cre: "sint (b q + x) = sint (b q) + sint x"
    using x nonneg[OF pq(2)] by (intro sint_add_no_overflow) auto
  have deb: "sint (b p - x) = sint (b p) - sint x"
    using x by (rule sint_guarded_debit)
  show ?thesis
    using \<open>p \<noteq> q\<close> deb cre by (auto simp: transfer_apply fun_eq_iff)
qed

lemma solvent_transfer:
  assumes K: "finite K" "fst p \<in> K" "fst q \<in> K"
    and ok: "solvent K b" and x: "0 \<le> sint x" "sint x \<le> sint (b p)"
  shows "solvent K (transfer p q x b) \<and> money_supply K (transfer p q x b) = money_supply K b"
proof (cases "p = q")
  case True
  with ok show ?thesis by simp
next
  case False
  have pq: "p \<in> positions K" "q \<in> positions K"
    using K by (cases p, simp, cases q, simp)
  have fin: "finite (positions K)" using K by simp
  note pt = sint_transfer[OF K False ok x]
  have "money_supply K (transfer p q x b) = sum (sint \<circ> transfer p q x b) (positions K)"
    by (simp add: money_supply_def)
  also have "\<dots> = sum (sint \<circ> b) (positions K)"
    unfolding pt using fin pq False by (simp add: sum_fun_upd fun_upd_other del: fun_upd_apply)
  finally have sup: "money_supply K (transfer p q x b) = money_supply K b"
    by (simp add: money_supply_def)
  moreover have "0 \<le> sint (transfer p q x b r)" if "r \<in> positions K" for r
    using that pq(2) ok x fun_cong[OF pt, of r] by (auto simp: solvent_def)
  ultimately show ?thesis using ok by (simp add: solvent_def)
qed

text \<open>A book that is zero outside \<open>K\<close> has the same total over any larger set.\<close>

lemma zero_outside:
  assumes "\<And>k c. k \<in> L - K \<Longrightarrow> b (k, c) = 0" and "p \<in> positions L - positions K"
  shows "b p = 0"
  using assms by (cases p) auto

lemma book_total_extend:
  assumes "finite L" and "K \<subseteq> L" and "\<And>k c. k \<in> L - K \<Longrightarrow> b (k, c) = 0"
  shows "book_total L b = book_total K b"
  unfolding book_total_def
  by (rule sum.mono_neutral_right)
    (use assms zero_outside[of L K b] positions_mono[of K L] in auto)

lemma money_supply_extend:
  assumes "finite L" and "K \<subseteq> L" and "\<And>k c. k \<in> L - K \<Longrightarrow> b (k, c) = 0"
  shows "money_supply L b = money_supply K b"
  unfolding money_supply_def
  by (rule sum.mono_neutral_right)
    (use assms zero_outside[of L K b] positions_mono[of K L] in auto)

lemma solvent_extend:
  assumes "finite L" and "K \<subseteq> L" and "\<And>k c. k \<in> L - K \<Longrightarrow> b (k, c) = 0"
  shows "solvent L b \<longleftrightarrow> solvent K b"
proof -
  have "0 \<le> sint (b p)" if "\<forall>p\<in>positions K. 0 \<le> sint (b p)" "p \<in> positions L" for p
    using that zero_outside[of L K b p, OF assms(3)] by (cases "p \<in> positions K") auto
  with positions_mono[OF assms(2)]
  have "(\<forall>p\<in>positions L. 0 \<le> sint (b p)) \<longleftrightarrow> (\<forall>p\<in>positions K. 0 \<le> sint (b p))"
    by blast
  with money_supply_extend[of L K b, OF assms] show ?thesis by (simp add: solvent_def)
qed

section \<open>Sequences of moves\<close>

type_synonym move = "position \<times> position \<times> int64"

definition apply_moves :: "move list \<Rightarrow> book \<Rightarrow> book" where
  "apply_moves ms b = fold (\<lambda>(p, q, x). transfer p q x) ms b"

text \<open>Every move takes a non-negative amount that its source position holds at that moment.\<close>

fun guarded_moves :: "move list \<Rightarrow> book \<Rightarrow> bool" where
  "guarded_moves [] b = True"
| "guarded_moves ((p, q, x) # ms) b =
     (0 \<le> sint x \<and> sint x \<le> sint (b p) \<and> guarded_moves ms (transfer p q x b))"

definition moves_within :: "string set \<Rightarrow> move list \<Rightarrow> bool" where
  "moves_within K ms = list_all (\<lambda>(p, q, x). fst p \<in> K \<and> fst q \<in> K) ms"

lemma apply_moves_simps [simp]:
  "apply_moves [] b = b"
  "apply_moves ((p, q, x) # ms) b = apply_moves ms (transfer p q x b)"
  by (simp_all add: apply_moves_def)

lemma apply_moves_append: "apply_moves (ms @ ns) b = apply_moves ns (apply_moves ms b)"
  by (simp add: apply_moves_def)

lemma moves_within_simps [simp]:
  "moves_within K []"
  "moves_within K ((p, q, x) # ms) \<longleftrightarrow> fst p \<in> K \<and> fst q \<in> K \<and> moves_within K ms"
  by (auto simp: moves_within_def)

lemma moves_within_append [simp]:
  "moves_within K (ms @ ns) \<longleftrightarrow> moves_within K ms \<and> moves_within K ns"
  by (auto simp: moves_within_def)

lemma moves_within_mono: "moves_within K ms \<Longrightarrow> K \<subseteq> L \<Longrightarrow> moves_within L ms"
  by (auto simp: moves_within_def elim!: list.pred_mono_strong)

lemma guarded_moves_append:
  "guarded_moves (ms @ ns) b \<longleftrightarrow> guarded_moves ms b \<and> guarded_moves ns (apply_moves ms b)"
  by (induction ms b rule: guarded_moves.induct) auto

lemma book_total_moves:
  "finite K \<Longrightarrow> moves_within K ms \<Longrightarrow> book_total K (apply_moves ms b) = book_total K b"
proof (induction ms arbitrary: b)
  case (Cons m ms)
  obtain p q x where "m = (p, q, x)" by (cases m)
  with Cons show ?case by (simp add: book_total_transfer)
qed simp

lemma solvent_moves:
  "finite K \<Longrightarrow> moves_within K ms \<Longrightarrow> solvent K b \<Longrightarrow> guarded_moves ms b
    \<Longrightarrow> solvent K (apply_moves ms b) \<and> money_supply K (apply_moves ms b) = money_supply K b"
proof (induction ms arbitrary: b)
  case (Cons m ms)
  obtain p q x where "m = (p, q, x)" by (cases m)
  with Cons show ?case using solvent_transfer[of K p q b x] by auto
qed simp

section \<open>The contract of a state that only moves money\<close>

locale transfer_system =
  fixes wf :: "'s \<Rightarrow> bool"
    and names :: "'s \<Rightarrow> string set"
    and bk :: "'s \<Rightarrow> book"
    and step :: "'s \<Rightarrow> 's \<Rightarrow> bool"
  assumes wf_step: "wf s \<Longrightarrow> step s t \<Longrightarrow> wf t"
    and finite_names: "wf s \<Longrightarrow> finite (names s)"
    and bk_outside: "wf s \<Longrightarrow> k \<notin> names s \<Longrightarrow> bk s (k, c) = 0"
    and names_grow: "wf s \<Longrightarrow> step s t \<Longrightarrow> names s \<subseteq> names t"
    and step_moves: "wf s \<Longrightarrow> step s t \<Longrightarrow>
      \<exists>ms. bk t = apply_moves ms (bk s) \<and> moves_within (names t) ms"
begin

definition money :: "'s \<Rightarrow> int64" where
  "money s = book_total (names s) (bk s)"

lemma money_step:
  assumes "wf s" and "step s t"
  shows "money t = money s"
proof -
  obtain ms where ms: "bk t = apply_moves ms (bk s)" "moves_within (names t) ms"
    using step_moves[OF assms] by blast
  have fin: "finite (names t)" using assms wf_step finite_names by blast
  have "money t = book_total (names t) (bk s)"
    unfolding money_def ms(1) by (rule book_total_moves[OF fin ms(2)])
  also have "\<dots> = money s"
    unfolding money_def
    by (rule book_total_extend[OF fin names_grow[OF assms]]) (use assms bk_outside in auto)
  finally show ?thesis .
qed

lemma wf_steps: "step\<^sup>*\<^sup>* s t \<Longrightarrow> wf s \<Longrightarrow> wf t"
  by (induction rule: rtranclp_induct) (auto intro: wf_step)

lemma money_steps:
  assumes "step\<^sup>*\<^sup>* s t" and "wf s"
  shows "money t = money s"
  using assms
proof (induction rule: rtranclp_induct)
  case (step y z)
  then show ?case using money_step[of y z] wf_steps[of s y] by simp
qed simp

lemma steps_names: "step\<^sup>*\<^sup>* s t \<Longrightarrow> wf s \<Longrightarrow> names s \<subseteq> names t"
proof (induction rule: rtranclp_induct)
  case (step y z)
  then show ?case using names_grow[of y z] wf_steps[of s y] by blast
qed simp

lemma steps_moves:
  "step\<^sup>*\<^sup>* s t \<Longrightarrow> wf s \<Longrightarrow> \<exists>ms. bk t = apply_moves ms (bk s) \<and> moves_within (names t) ms"
proof (induction rule: rtranclp_induct)
  case base
  show ?case by (intro exI[of _ "[]"]) simp
next
  case (step y z)
  then obtain ms ns where "bk y = apply_moves ms (bk s)" "moves_within (names y) ms"
    "bk z = apply_moves ns (bk y)" "moves_within (names z) ns"
    using step_moves[of y z] wf_steps[of s y] by blast
  moreover have "names y \<subseteq> names z" using step names_grow[of y z] wf_steps[of s y] by blast
  ultimately show ?case
    by (intro exI[of _ "ms @ ns"]) (auto simp: apply_moves_append dest: moves_within_mono)
qed

end

text \<open>The systems whose every step checks its source position first: they also stay solvent.\<close>

locale guarded_transfer_system = transfer_system +
  assumes step_guarded: "wf s \<Longrightarrow> step s t \<Longrightarrow>
      \<exists>ms. bk t = apply_moves ms (bk s) \<and> moves_within (names t) ms \<and> guarded_moves ms (bk s)"
begin

lemma solvent_step:
  assumes "wf s" and "step s t" and "solvent (names s) (bk s)"
  shows "solvent (names t) (bk t) \<and> money_supply (names t) (bk t) = money_supply (names s) (bk s)"
proof -
  obtain ms where ms: "bk t = apply_moves ms (bk s)" "moves_within (names t) ms"
      "guarded_moves ms (bk s)"
    using step_guarded[OF assms(1,2)] by blast
  have fin: "finite (names t)" using assms wf_step finite_names by blast
  have zero: "\<And>k c. k \<in> names t - names s \<Longrightarrow> bk s (k, c) = 0"
    using assms bk_outside by auto
  have "solvent (names t) (bk s)" "money_supply (names t) (bk s) = money_supply (names s) (bk s)"
    using solvent_extend[of "names t" "names s" "bk s"] zero fin names_grow[OF assms(1,2)]
      money_supply_extend[of "names t" "names s" "bk s"] assms(3) by auto
  then show ?thesis unfolding ms(1) using solvent_moves[OF fin ms(2) _ ms(3)] by simp
qed

lemma solvent_steps:
  assumes "step\<^sup>*\<^sup>* s t" and "wf s" and "solvent (names s) (bk s)"
  shows "solvent (names t) (bk t) \<and> money_supply (names t) (bk t) = money_supply (names s) (bk s)"
  using assms
proof (induction rule: rtranclp_induct)
  case (step y z)
  then show ?case using solvent_step[of y z] wf_steps[of s y] by simp
qed simp

end

end
