(* ===== verification/Ledger_Refine.thy ===== *)
theory Ledger_Refine
  imports Ledger Book
begin

text \<open>
  The ledger refines the book. \<open>book l\<close> reads the balances of a ledger as a book, \<open>ledger_op\<close> lists
  the state-changing calls of the ledger's API, \<open>exec_op\<close> runs one on the model of the Go code, and
  \<open>spec_op\<close> says what it means for the set of account names and the book alone.
  \<open>exec_op_refines\<close> is the refinement; conservation, solvency, isolation of the offline bucket and
  the absence of double spending follow for every interleaving of calls.
\<close>

section \<open>Abstraction\<close>

fun bucket_of :: "bucket \<Rightarrow> Account \<Rightarrow> int64" where
  "bucket_of Online a = OnlineAvailable a"
| "bucket_of Offline a = OfflineAllowance a"
| "bucket_of Reserved a = ReservedBalance a"

definition book :: "ConservingLedger \<Rightarrow> book" where
  "book l = (\<lambda>(k, c). case accounts l k of None \<Rightarrow> 0 | Some a \<Rightarrow> bucket_of c a)"

definition account_names :: "ConservingLedger \<Rightarrow> string set" where
  "account_names l = dom (accounts l)"

section \<open>The calls of the API and their execution\<close>

datatype ledger_op =
    Op_Create time string int64
  | Op_Fund clock string int64
  | Op_Allocate clock string int64
  | Op_CommitOffline clock string string int64 string
  | Op_DebitDeficit clock string int64 string
  | Op_Reserve clock string int64 string
  | Op_CommitHold clock string string int64 string
  | Op_Direct clock string string int64 string
  | Op_Release clock string int64 string
  | Op_RecordDeficit clock string string int64 string

text \<open>\<open>None\<close>: the call never returns.\<close>

fun exec_op :: "ledger_op \<Rightarrow> ConservingLedger \<Rightarrow> ConservingLedger option" where
  "exec_op (Op_Create now k x) l = Some (CreateAccount now k x l)"
| "exec_op (Op_Fund clk k x) l = Some (snd (FundAccount clk k x l))"
| "exec_op (Op_Allocate clk k x) l = Some (snd (AllocateOfflineAllowance clk k x l))"
| "exec_op (Op_CommitOffline clk a d x t) l = Some (snd (CommitOfflineAllowance clk a d x t l))"
| "exec_op (Op_DebitDeficit clk d x t) l = map_option snd (DebitDeficitReserve clk d x t l)"
| "exec_op (Op_Reserve clk a x t) l = Some (snd (ReserveFunds clk a x t l))"
| "exec_op (Op_CommitHold clk a d x t) l = Some (snd (CommitHold clk a d x t l))"
| "exec_op (Op_Direct clk a d x t) l = Some (snd (DirectCommit clk a d x t l))"
| "exec_op (Op_Release clk a x t) l = Some (snd (ReleaseHold clk a x t l))"
| "exec_op (Op_RecordDeficit clk a d x t) l = map_option snd (RecordDeficit clk a d x t l)"

section \<open>The specification\<close>

text \<open>A guarded move: performed when the amount is positive and covered by the source position.\<close>

definition covered :: "int64 \<Rightarrow> position \<Rightarrow> book \<Rightarrow> bool" where
  "covered x p b \<longleftrightarrow> 0 < sint x \<and> sint x \<le> sint (b p)"

definition guarded_transfer :: "position \<Rightarrow> position \<Rightarrow> int64 \<Rightarrow> book \<Rightarrow> book" where
  "guarded_transfer p q x b = (if covered x p b then transfer p q x b else b)"

fun spec_op :: "string \<Rightarrow> ledger_op \<Rightarrow> string set \<times> book \<Rightarrow> (string set \<times> book) option" where
  "spec_op r (Op_Create now k x) (K, b) =
     Some (insert k K, if k \<in> K then b else b((k, Online) := x))"
| "spec_op r (Op_Fund clk k x) (K, b) =
     Some (K, if k \<in> K then b((k, Online) := b (k, Online) + x) else b)"
| "spec_op r (Op_Allocate clk k x) (K, b) =
     Some (K, guarded_transfer (k, Online) (k, Offline) x b)"
| "spec_op r (Op_CommitOffline clk a d x t) (K, b) =
     Some (if 0 < sint x \<and> a \<in> K then insert d K else K,
           guarded_transfer (a, Offline) (d, Online) x b)"
| "spec_op r (Op_DebitDeficit clk d x t) (K, b) =
     (if sint x \<le> 0 then Some (K, b)
      else if d = r then None
      else Some (insert d (insert r K), transfer (r, Online) (d, Online) x b))"
| "spec_op r (Op_Reserve clk a x t) (K, b) =
     Some (K, guarded_transfer (a, Online) (a, Reserved) x b)"
| "spec_op r (Op_CommitHold clk a d x t) (K, b) =
     Some (if 0 < sint x \<and> a \<in> K then insert d K else K,
           guarded_transfer (a, Reserved) (d, Online) x b)"
| "spec_op r (Op_Direct clk a d x t) (K, b) =
     Some (if 0 < sint x \<and> a \<in> K then insert d K else K,
           guarded_transfer (a, Online) (d, Online) x b)"
| "spec_op r (Op_Release clk a x t) (K, b) =
     Some (K, if a \<in> K \<and> sint x \<le> sint (b (a, Reserved))
              then transfer (a, Reserved) (a, Online) x b else b)"
| "spec_op r (Op_RecordDeficit clk a d x t) (K, b) =
     (if a = d then None
      else Some (insert d (insert a K), transfer (a, Online) (d, Online) x b))"

section \<open>Refinement lemmas\<close>

lemma accounts_upd_acc [simp]:
  "accounts (upd_acc k f l) = (accounts l)(k := map_option f (accounts l k))"
  by (simp add: upd_acc_def)

lemma accounts_appendEntry [simp]: "accounts (appendEntry e l) = accounts l"
  by (simp add: appendEntry_def Let_def)

lemma book_appendEntry [simp]: "book (appendEntry e l) = book l"
  by (simp add: book_def)

lemma account_names_appendEntry [simp]: "account_names (appendEntry e l) = account_names l"
  by (simp add: account_names_def)

lemma account_names_upd_acc [simp]: "account_names (upd_acc k f l) = account_names l"
  by (auto simp: account_names_def)

lemma account_names_iff: "k \<in> account_names l \<longleftrightarrow> accounts l k \<noteq> None"
  by (auto simp: account_names_def)

lemma book_outside: "k \<notin> account_names l \<Longrightarrow> book l (k, c) = 0"
  by (auto simp: book_def account_names_def split: option.splits)

lemma book_None [simp]: "accounts l k = None \<Longrightarrow> book l (k, c) = 0"
  by (simp add: book_def)

lemma book_Some: "accounts l k = Some a \<Longrightarrow> book l (k, c) = bucket_of c a"
  by (simp add: book_def)

lemma book_account_simps:
  assumes "accounts l k = Some a"
  shows "OnlineAvailable a = book l (k, Online)" "OfflineAllowance a = book l (k, Offline)"
    "ReservedBalance a = book l (k, Reserved)"
  using assms by (simp_all add: book_Some)

lemma CreateAccount_names [simp]: "account_names (CreateAccount now k x l) = insert k (account_names l)"
  by (auto simp: CreateAccount_def account_names_def split: option.splits)

lemma CreateAccount_book:
  "book (CreateAccount now k x l) = (if k \<in> account_names l then book l else (book l)((k, Online) := x))"
proof (cases "accounts l k")
  case None
  have "book (CreateAccount now k x l) (j, c) = ((book l)((k, Online) := x)) (j, c)" for j c
    using None by (cases c) (auto simp: CreateAccount_def book_def new_account_def)
  with None show ?thesis by (auto simp: account_names_iff fun_eq_iff)
qed (simp add: CreateAccount_def account_names_iff)

lemma CreateAccount_zero_book [simp]: "book (CreateAccount now k 0 l) = book l"
  by (auto simp: CreateAccount_book fun_eq_iff book_outside)

lemma CreateAccount_other [simp]:
  "entries (CreateAccount now k x l) = entries l"
  "DeficitReserveAccountID (CreateAccount now k x l) = DeficitReserveAccountID l"
  "EscrowAccountID (CreateAccount now k x l) = EscrowAccountID l"
  by (simp_all add: CreateAccount_def split: option.splits)

lemma CreateAccount_Some:
  "accounts l k = Some a \<Longrightarrow> accounts (CreateAccount now j x l) k = Some a"
  by (auto simp: CreateAccount_def split: option.splits)

text \<open>Mutating one account changes the book at its three positions only.\<close>

lemma book_upd_acc:
  assumes "k \<in> account_names l" and "\<And>a. accounts l k = Some a \<Longrightarrow> bucket_of c (f a) = v"
    and "\<And>a e. accounts l k = Some a \<Longrightarrow> e \<noteq> c \<Longrightarrow> bucket_of e (f a) = bucket_of e a"
  shows "book (upd_acc k f l) = (book l)((k, c) := v)"
proof -
  obtain a where a: "accounts l k = Some a" using assms(1) by (auto simp: account_names_iff)
  have "book (upd_acc k f l) (j, e) = ((book l)((k, c) := v)) (j, e)" for j e
    using assms(2,3)[OF a] a by (auto simp: book_def)
  then show ?thesis by auto
qed

lemma book_credit_online:
  assumes "k \<in> account_names l"
  shows "book (upd_acc k (credit_online now x) l) = (book l)((k, Online) := book l (k, Online) + x)"
proof (rule book_upd_acc[OF assms])
  show "bucket_of e (credit_online now x a) = bucket_of e a" if "e \<noteq> Online" for e a
    using that by (cases e) (auto simp: credit_online_def)
qed (auto simp: credit_online_def book_Some)

lemma book_debit_online:
  assumes "k \<in> account_names l"
  shows "book (upd_acc k (debit_online now x) l) = (book l)((k, Online) := book l (k, Online) - x)"
proof (rule book_upd_acc[OF assms])
  show "bucket_of e (debit_online now x a) = bucket_of e a" if "e \<noteq> Online" for e a
    using that by (cases e) (auto simp: debit_online_def)
qed (auto simp: debit_online_def book_Some)

text \<open>The other two single-account mutations: a bucket debited, and a move between two buckets.\<close>

lemma book_debit_bucket:
  assumes "k \<in> account_names l"
  shows "book (upd_acc k (\<lambda>a. a\<lparr>OfflineAllowance := OfflineAllowance a - x,
             Version := Version a + 1, UpdatedAt := now\<rparr>) l)
           = (book l)((k, Offline) := book l (k, Offline) - x)" (is ?off)
    and "book (upd_acc k (\<lambda>a. a\<lparr>ReservedBalance := ReservedBalance a - x,
             Version := Version a + 1, UpdatedAt := now\<rparr>) l)
           = (book l)((k, Reserved) := book l (k, Reserved) - x)" (is ?res)
proof -
  show ?off
  proof (rule book_upd_acc[OF assms])
    show "bucket_of e (a\<lparr>OfflineAllowance := OfflineAllowance a - x,
        Version := Version a + 1, UpdatedAt := now\<rparr>) = bucket_of e a" if "e \<noteq> Offline" for e a
      using that by (cases e) auto
  qed (auto simp: book_Some)
  show ?res
  proof (rule book_upd_acc[OF assms])
    show "bucket_of e (a\<lparr>ReservedBalance := ReservedBalance a - x,
        Version := Version a + 1, UpdatedAt := now\<rparr>) = bucket_of e a" if "e \<noteq> Reserved" for e a
      using that by (cases e) auto
  qed (auto simp: book_Some)
qed

lemma book_bucket_move:
  assumes a: "accounts l k = Some a" and "p \<noteq> q"
    and "bucket_of p (f a) = bucket_of p a - x" and "bucket_of q (f a) = bucket_of q a + x"
    and "\<And>e. e \<noteq> p \<Longrightarrow> e \<noteq> q \<Longrightarrow> bucket_of e (f a) = bucket_of e a"
  shows "book (upd_acc k f l) = transfer (k, p) (k, q) x (book l)"
proof -
  have "book (upd_acc k f l) (j, e) = transfer (k, p) (k, q) x (book l) (j, e)" for j e
    using assms by (auto simp: book_def transfer_apply)
  then show ?thesis by auto
qed

lemma coveredD: "covered x (k, c) (book l) \<Longrightarrow> k \<in> account_names l"
  using book_outside[of k l c] by (force simp: covered_def)

lemma not_covered: "k \<notin> account_names l \<Longrightarrow> \<not> covered x (k, c) (book l)"
  using coveredD by blast

lemmas op_defs = FundAccount_def AllocateOfflineAllowance_def CommitOfflineAllowance_def
  DebitDeficitReserve_def ReserveFunds_def CommitHold_def DirectCommit_def ReleaseHold_def
  RecordDeficit_def

subsection \<open>Direct commits and the two-phase commits\<close>

lemma DirectCommit_ok:
  "fst (DirectCommit clk a d x t l) = None \<longleftrightarrow> covered x (a, Online) (book l)"
  by (cases "accounts l a")
    (auto simp: DirectCommit_def Let_def covered_def book_def)

lemma DirectCommit_book:
  "book (snd (DirectCommit clk a d x t l)) = guarded_transfer (a, Online) (d, Online) x (book l)"
  by (cases "accounts l a")
    (auto simp: DirectCommit_def Let_def guarded_transfer_def covered_def book_credit_online
      book_debit_online account_names_iff transfer_def book_account_simps)

lemma DirectCommit_names:
  "account_names (snd (DirectCommit clk a d x t l)) =
     (if 0 < sint x \<and> a \<in> account_names l then insert d (account_names l) else account_names l)"
  by (cases "accounts l a") (auto simp: DirectCommit_def Let_def account_names_iff)

lemmas refine_simps = Let_def guarded_transfer_def covered_def account_names_iff transfer_def
  book_account_simps book_credit_online book_debit_online book_debit_bucket

lemma CommitHold_ok:
  "fst (CommitHold clk a d x t l) = None \<longleftrightarrow> covered x (a, Reserved) (book l)"
  by (cases "accounts l a") (auto simp: CommitHold_def Let_def covered_def book_def)

lemma CommitHold_book:
  "book (snd (CommitHold clk a d x t l)) = guarded_transfer (a, Reserved) (d, Online) x (book l)"
  by (cases "accounts l a") (auto simp: CommitHold_def refine_simps)

lemma CommitHold_names:
  "account_names (snd (CommitHold clk a d x t l)) =
     (if 0 < sint x \<and> a \<in> account_names l then insert d (account_names l) else account_names l)"
  by (cases "accounts l a") (auto simp: CommitHold_def Let_def account_names_iff)

lemma CommitOfflineAllowance_ok:
  "fst (CommitOfflineAllowance clk a d x t l) = None \<longleftrightarrow> covered x (a, Offline) (book l)"
  by (cases "accounts l a") (auto simp: CommitOfflineAllowance_def Let_def covered_def book_def)

lemma CommitOfflineAllowance_book:
  "book (snd (CommitOfflineAllowance clk a d x t l)) =
     guarded_transfer (a, Offline) (d, Online) x (book l)"
  by (cases "accounts l a") (auto simp: CommitOfflineAllowance_def refine_simps)

lemma CommitOfflineAllowance_names:
  "account_names (snd (CommitOfflineAllowance clk a d x t l)) =
     (if 0 < sint x \<and> a \<in> account_names l then insert d (account_names l) else account_names l)"
  by (cases "accounts l a") (auto simp: CommitOfflineAllowance_def Let_def account_names_iff)

subsection \<open>Moves between the buckets of one account\<close>

lemma other_bucket:
  "e \<noteq> Online \<Longrightarrow> e \<noteq> Offline \<Longrightarrow> e = Reserved"
  "e \<noteq> Online \<Longrightarrow> e \<noteq> Reserved \<Longrightarrow> e = Offline"
  "e \<noteq> Reserved \<Longrightarrow> e \<noteq> Online \<Longrightarrow> e = Offline"
  by (cases e; simp)+

lemma AllocateOfflineAllowance_ok:
  "fst (AllocateOfflineAllowance clk a x l) = None \<longleftrightarrow> covered x (a, Online) (book l)"
  by (cases "accounts l a") (auto simp: AllocateOfflineAllowance_def covered_def book_def)

lemma AllocateOfflineAllowance_book:
  "book (snd (AllocateOfflineAllowance clk a x l)) =
     guarded_transfer (a, Online) (a, Offline) x (book l)"
proof (cases "accounts l a")
  case (Some acc)
  then show ?thesis
    by (auto simp: AllocateOfflineAllowance_def guarded_transfer_def covered_def
        book_account_simps[OF Some] intro!: book_bucket_move[OF Some] dest: other_bucket)
qed (auto simp: AllocateOfflineAllowance_def guarded_transfer_def covered_def)

lemma AllocateOfflineAllowance_names:
  "account_names (snd (AllocateOfflineAllowance clk a x l)) = account_names l"
  by (cases "accounts l a") (auto simp: AllocateOfflineAllowance_def)

text \<open>Recording the reservation does not touch the accounts.\<close>

lemma book_reservations [simp]:
  "book (l\<lparr>reservations := r\<rparr>) = book l" "account_names (l\<lparr>reservations := r\<rparr>) = account_names l"
  by (simp_all add: book_def account_names_def)

lemma ReserveFunds_ok:
  "(\<exists>r. fst (ReserveFunds clk a x t l) = Inr r) \<longleftrightarrow> covered x (a, Online) (book l)"
  by (cases "accounts l a") (auto simp: ReserveFunds_def Let_def covered_def book_def)

lemma ReserveFunds_book:
  "book (snd (ReserveFunds clk a x t l)) = guarded_transfer (a, Online) (a, Reserved) x (book l)"
proof (cases "accounts l a")
  case (Some acc)
  then show ?thesis
    by (auto simp: ReserveFunds_def Let_def guarded_transfer_def covered_def
        book_account_simps[OF Some] intro!: book_bucket_move[OF Some] dest: other_bucket)
qed (auto simp: ReserveFunds_def guarded_transfer_def covered_def)

lemma ReserveFunds_names: "account_names (snd (ReserveFunds clk a x t l)) = account_names l"
  by (cases "accounts l a") (auto simp: ReserveFunds_def Let_def)

lemma ReleaseHold_ok:
  "fst (ReleaseHold clk a x t l) = None \<longleftrightarrow>
     a \<in> account_names l \<and> sint x \<le> sint (book l (a, Reserved))"
  by (cases "accounts l a") (auto simp: ReleaseHold_def account_names_iff book_def)

lemma ReleaseHold_book:
  "book (snd (ReleaseHold clk a x t l)) =
     (if a \<in> account_names l \<and> sint x \<le> sint (book l (a, Reserved))
      then transfer (a, Reserved) (a, Online) x (book l) else book l)"
proof (cases "accounts l a")
  case (Some acc)
  then show ?thesis
    by (auto simp: ReleaseHold_def account_names_iff
        book_account_simps[OF Some] intro!: book_bucket_move[OF Some] dest: other_bucket)
qed (auto simp: ReleaseHold_def account_names_iff)

lemma ReleaseHold_names: "account_names (snd (ReleaseHold clk a x t l)) = account_names l"
  by (cases "accounts l a") (auto simp: ReleaseHold_def)

subsection \<open>Funding and the two deficit operations\<close>

lemma FundAccount_ok: "fst (FundAccount clk k x l) = None \<longleftrightarrow> k \<in> account_names l"
  by (cases "accounts l k") (auto simp: FundAccount_def account_names_iff)

lemma FundAccount_book:
  "book (snd (FundAccount clk k x l)) =
     (if k \<in> account_names l then (book l)((k, Online) := book l (k, Online) + x) else book l)"
  by (cases "accounts l k") (auto simp: FundAccount_def refine_simps)

lemma FundAccount_names: "account_names (snd (FundAccount clk k x l)) = account_names l"
  by (cases "accounts l k") (auto simp: FundAccount_def)

lemma DebitDeficitReserve_blocks:
  "DebitDeficitReserve clk d x t l = None \<longleftrightarrow> 0 < sint x \<and> d = DeficitReserveAccountID l"
  by (auto simp: DebitDeficitReserve_def Let_def)

lemma DebitDeficitReserve_book:
  assumes "DebitDeficitReserve clk d x t l = Some (e, l')"
  shows "book l' = (if 0 < sint x then transfer (DeficitReserveAccountID l, Online) (d, Online) x (book l)
                    else book l)"
    and "account_names l' = (if 0 < sint x then {d, DeficitReserveAccountID l} \<union> account_names l
                             else account_names l)"
    and "e = (if 0 < sint x then None else Some ErrInvalidAmount)"
  using assms
  by (auto simp: DebitDeficitReserve_def Let_def transfer_def book_credit_online book_debit_online
      split: if_splits)

lemma RecordDeficit_blocks: "RecordDeficit clk a d x t l = None \<longleftrightarrow> a = d"
  by (auto simp: RecordDeficit_def Let_def)

lemma RecordDeficit_book:
  assumes "RecordDeficit clk a d x t l = Some (e, l')"
  shows "book l' = transfer (a, Online) (d, Online) x (book l)"
    and "account_names l' = {a, d} \<union> account_names l" and "e = None"
  using assms
  by (auto simp: RecordDeficit_def Let_def transfer_def book_credit_online book_debit_online
      split: if_splits)

section \<open>Well-formed ledgers\<close>

text \<open>
  Finitely many accounts, each stored under its own ID with the deprecated \<open>AvailableBalance\<close> in
  step with \<open>OnlineAvailable\<close>, and a journal numbered from one without gaps.
\<close>

definition account_wf :: "string \<Rightarrow> Account \<Rightarrow> bool" where
  "account_wf k a \<longleftrightarrow> acc_ID a = k \<and> AvailableBalance a = OnlineAvailable a"

definition ledger_wf :: "ConservingLedger \<Rightarrow> bool" where
  "ledger_wf l \<longleftrightarrow>
     finite (account_names l) \<and>
     (\<forall>k a. accounts l k = Some a \<longrightarrow> account_wf k a) \<and>
     entryCounter l = of_nat (length (entries l)) \<and>
     map EntryID (entries l) = map of_nat [1..<Suc (length (entries l))]"

lemma ledger_wf_upd_acc:
  assumes "ledger_wf l" and "\<And>a. account_wf k a \<Longrightarrow> account_wf k (f a)"
  shows "ledger_wf (upd_acc k f l)"
proof -
  have "entryCounter (upd_acc k f l) = entryCounter l" "entries (upd_acc k f l) = entries l"
    by (simp_all add: upd_acc_def)
  with assms show ?thesis by (auto simp: ledger_wf_def split: if_splits)
qed

lemma ledger_wf_appendEntry:
  assumes "ledger_wf l"
  shows "ledger_wf (appendEntry e l)"
  using assms by (simp add: ledger_wf_def appendEntry_def Let_def account_names_def add.commute)

lemma ledger_wf_CreateAccount:
  assumes "ledger_wf l"
  shows "ledger_wf (CreateAccount now k x l)"
proof -
  have "account_wf k (new_account now k x)" by (simp add: account_wf_def new_account_def)
  moreover have "entryCounter (CreateAccount now k x l) = entryCounter l"
    by (simp add: CreateAccount_def split: option.splits)
  ultimately show ?thesis
    using assms by (auto simp: ledger_wf_def) (auto simp: CreateAccount_def split: option.splits if_splits)
qed

lemma ledger_wf_reservations: "ledger_wf l \<Longrightarrow> ledger_wf (l\<lparr>reservations := r\<rparr>)"
  by (simp add: ledger_wf_def account_names_def)

lemmas ledger_wf_intros = ledger_wf_appendEntry ledger_wf_upd_acc ledger_wf_CreateAccount
  ledger_wf_reservations

lemma ledger_wf_exec:
  assumes "ledger_wf l" and "exec_op op l = Some l'"
  shows "ledger_wf l'"
  using assms
  by (cases op) (auto simp: op_defs Let_def account_wf_def credit_online_def debit_online_def
      intro!: ledger_wf_intros split: if_splits option.splits)

lemma ledger_wf_new: "ledger_wf (NewConservingLedger clk)"
  unfolding NewConservingLedger_def Let_def
  by (intro ledger_wf_CreateAccount) (simp add: ledger_wf_def account_names_def)

lemma empty_accounts:
  assumes "accounts l = Map.empty"
  shows "account_names l = {}" "book l = (\<lambda>_. 0)"
  using assms by (auto simp: account_names_def book_def)

lemma new_ledger_names:
  "account_names (NewConservingLedger clk) = {AccountDeficitReserve, ''SYSTEM_CLEARING'', ''SYSTEM_ESCROW''}"
  by (simp add: NewConservingLedger_def Let_def empty_accounts)

lemma new_ledger_book: "book (NewConservingLedger clk) = (\<lambda>_. 0)"
  by (simp add: NewConservingLedger_def Let_def empty_accounts)

lemma new_ledger_reserve: "DeficitReserveAccountID (NewConservingLedger clk) = AccountDeficitReserve"
  by (simp add: NewConservingLedger_def Let_def)

section \<open>Step relations\<close>

text \<open>The calls that bring money into the system from outside.\<close>

fun mints :: "ledger_op \<Rightarrow> bool" where
  "mints (Op_Create now k x) = (x \<noteq> 0)"
| "mints (Op_Fund clk k x) = True"
| "mints _ = False"

text \<open>The calls that debit a position only after checking that it covers the amount.\<close>

fun checked :: "ledger_op \<Rightarrow> bool" where
  "checked (Op_Create now k x) = (x = 0)"
| "checked (Op_Fund clk k x) = False"
| "checked (Op_DebitDeficit clk d x t) = False"
| "checked (Op_RecordDeficit clk a d x t) = False"
| "checked (Op_Release clk a x t) = (0 \<le> sint x)"
| "checked _ = True"

inductive ledger_step :: "ConservingLedger \<Rightarrow> ConservingLedger \<Rightarrow> bool" where
  "\<not> mints op \<Longrightarrow> exec_op op l = Some l' \<Longrightarrow> ledger_step l l'"

inductive checked_step :: "ConservingLedger \<Rightarrow> ConservingLedger \<Rightarrow> bool" where
  "checked op \<Longrightarrow> exec_op op l = Some l' \<Longrightarrow> checked_step l l'"

lemma checked_not_mints: "checked op \<Longrightarrow> \<not> mints op"
  by (cases op) auto

lemma spec_op_names:
  "spec_op r op (K, b) = Some (K', b') \<Longrightarrow> K \<subseteq> K'"
  by (cases op) (auto split: if_splits)

text \<open>What one call moves, read off the specification.\<close>

fun op_moves :: "string \<Rightarrow> ledger_op \<Rightarrow> string set \<Rightarrow> book \<Rightarrow> move list" where
  "op_moves r (Op_Allocate clk k x) K b =
     (if covered x (k, Online) b then [((k, Online), (k, Offline), x)] else [])"
| "op_moves r (Op_CommitOffline clk a d x t) K b =
     (if covered x (a, Offline) b then [((a, Offline), (d, Online), x)] else [])"
| "op_moves r (Op_DebitDeficit clk d x t) K b =
     (if 0 < sint x then [((r, Online), (d, Online), x)] else [])"
| "op_moves r (Op_Reserve clk a x t) K b =
     (if covered x (a, Online) b then [((a, Online), (a, Reserved), x)] else [])"
| "op_moves r (Op_CommitHold clk a d x t) K b =
     (if covered x (a, Reserved) b then [((a, Reserved), (d, Online), x)] else [])"
| "op_moves r (Op_Direct clk a d x t) K b =
     (if covered x (a, Online) b then [((a, Online), (d, Online), x)] else [])"
| "op_moves r (Op_Release clk a x t) K b =
     (if a \<in> K \<and> sint x \<le> sint (b (a, Reserved)) then [((a, Reserved), (a, Online), x)] else [])"
| "op_moves r (Op_RecordDeficit clk a d x t) K b = [((a, Online), (d, Online), x)]"
| "op_moves r _ K b = []"

lemma spec_op_moves:
  assumes "spec_op r op (K, b) = Some (K', b')" and "\<not> mints op"
    and "\<And>k c. k \<notin> K \<Longrightarrow> b (k, c) = 0"
  shows "b' = apply_moves (op_moves r op K b) b"
    and "moves_within K' (op_moves r op K b)"
    and "checked op \<Longrightarrow> guarded_moves (op_moves r op K b) b"
proof -
  have in_K: "k \<in> K" if "covered x (k, c) b" for x k c
    using that assms(3)[of k c] by (force simp: covered_def)
  show "b' = apply_moves (op_moves r op K b) b"
    using assms by (cases op) (auto simp: guarded_transfer_def fun_upd_idem split: if_splits)
  show "moves_within K' (op_moves r op K b)"
    using assms in_K by (cases op) (fastforce simp: covered_def split: if_splits)+
  show "checked op \<Longrightarrow> guarded_moves (op_moves r op K b) b"
    by (cases op) (auto simp: covered_def)
qed

lemma exec_op_spec:
  "map_option (\<lambda>l'. (account_names l', book l')) (exec_op op l)
     = spec_op (DeficitReserveAccountID l) op (account_names l, book l)"
proof (cases op)
  case (Op_DebitDeficit clk d x t)
  show ?thesis
  proof (cases "DebitDeficitReserve clk d x t l")
    case None
    with Op_DebitDeficit show ?thesis by (auto simp: DebitDeficitReserve_blocks)
  next
    case (Some r)
    obtain e l' where r: "DebitDeficitReserve clk d x t l = Some (e, l')"
      using Some by (cases r) auto
    then have "\<not> (0 < sint x \<and> d = DeficitReserveAccountID l)"
      using DebitDeficitReserve_blocks[of clk d x t l] by auto
    with Op_DebitDeficit r DebitDeficitReserve_book[OF r] show ?thesis by auto
  qed
next
  case (Op_RecordDeficit clk a d x t)
  show ?thesis
  proof (cases "RecordDeficit clk a d x t l")
    case None
    with Op_RecordDeficit show ?thesis by (auto simp: RecordDeficit_blocks)
  next
    case (Some r)
    obtain e l' where r: "RecordDeficit clk a d x t l = Some (e, l')"
      using Some by (cases r) auto
    then have "a \<noteq> d" using RecordDeficit_blocks[of clk a d x t l] by auto
    with Op_RecordDeficit r RecordDeficit_book[OF r] show ?thesis by auto
  qed
qed (simp_all add: CreateAccount_book FundAccount_book FundAccount_names
    AllocateOfflineAllowance_book AllocateOfflineAllowance_names CommitOfflineAllowance_book
    CommitOfflineAllowance_names ReserveFunds_book ReserveFunds_names CommitHold_book
    CommitHold_names DirectCommit_book DirectCommit_names ReleaseHold_book ReleaseHold_names)

lemma exec_op_SomeD:
  assumes "exec_op op l = Some l'"
  shows "spec_op (DeficitReserveAccountID l) op (account_names l, book l)
      = Some (account_names l', book l')"
  using exec_op_spec[of op l] assms by simp

lemma exec_op_moves:
  assumes "exec_op op l = Some l'" and "\<not> mints op"
  obtains ms where "book l' = apply_moves ms (book l)" "moves_within (account_names l') ms"
    "checked op \<Longrightarrow> guarded_moves ms (book l)"
  using spec_op_moves[OF exec_op_SomeD[OF assms(1)] assms(2) book_outside] by (rule that)

lemma exec_op_names: "exec_op op l = Some l' \<Longrightarrow> account_names l \<subseteq> account_names l'"
  by (rule spec_op_names[OF exec_op_SomeD])

interpretation led: transfer_system ledger_wf account_names book ledger_step
proof
  show "\<exists>ms. book t = apply_moves ms (book s) \<and> moves_within (account_names t) ms"
    if "ledger_step s t" for s t
    using that by (auto elim!: ledger_step.cases elim: exec_op_moves)
qed (auto elim!: ledger_step.cases intro: ledger_wf_exec simp: book_outside
    dest: exec_op_names, simp add: ledger_wf_def)

interpretation cled: guarded_transfer_system ledger_wf account_names book checked_step
proof
  show "\<exists>ms. book t = apply_moves ms (book s) \<and> moves_within (account_names t) ms"
    if "checked_step s t" for s t
    using that by (auto elim!: checked_step.cases dest!: checked_not_mints elim: exec_op_moves)
  show "\<exists>ms. book t = apply_moves ms (book s) \<and> moves_within (account_names t) ms
      \<and> guarded_moves ms (book s)"
    if "checked_step s t" for s t
    using that by (elim checked_step.cases) (metis checked_not_mints exec_op_moves)
qed (auto elim!: checked_step.cases intro: ledger_wf_exec simp: book_outside
    dest: exec_op_names, simp add: ledger_wf_def)

section \<open>A hold and its commit\<close>

lemma hold_covers:
  assumes "covered x (a, Online) (book l)"
    and "0 \<le> sint (book l (a, Reserved))" and "sint (book l (a, Reserved)) + sint x < 2^63"
  shows "book (snd (ReserveFunds clk a x t l)) = transfer (a, Online) (a, Reserved) x (book l)"
    and "covered x (a, Reserved) (transfer (a, Online) (a, Reserved) x (book l))"
proof -
  show "book (snd (ReserveFunds clk a x t l)) = transfer (a, Online) (a, Reserved) x (book l)"
    using assms(1) by (simp add: ReserveFunds_book guarded_transfer_def)
  have "sint (book l (a, Reserved) + x) = sint (book l (a, Reserved)) + sint x"
    using assms by (intro sint_add_no_overflow) (auto simp: covered_def)
  then show "covered x (a, Reserved) (transfer (a, Online) (a, Reserved) x (book l))"
    using assms by (simp add: covered_def transfer_apply)
qed

lemma transfer_through: "transfer q r x (transfer p q x b) = transfer p r x b"
  by (auto simp: transfer_apply fun_eq_iff)

lemma commit_of_hold:
  assumes "covered x (a, Online) (book l)"
    and "0 \<le> sint (book l (a, Reserved))" and "sint (book l (a, Reserved)) + sint x < 2^63"
  shows "fst (CommitHold clk' a d x t (snd (ReserveFunds clk a x t l))) = None
    \<and> book (snd (CommitHold clk' a d x t (snd (ReserveFunds clk a x t l)))) = transfer (a, Online) (d, Online) x (book l)"
  using hold_covers(1)[OF assms, where clk = clk and t = t] hold_covers(2)[OF assms]
  by (simp add: CommitHold_ok CommitHold_book guarded_transfer_def transfer_through)

text \<open>In a solvent ledger the reserved bucket has room for what the online bucket holds.\<close>

lemma solvent_reserve:
  assumes "ledger_wf l" and "solvent (account_names l) (book l)" and "covered x (a, Online) (book l)"
  shows "0 \<le> sint (book l (a, Reserved))" and "sint (book l (a, Reserved)) + sint x < 2^63"
proof -
  let ?P = "positions (account_names l)"
  have a: "(a, Online) \<in> ?P" "(a, Reserved) \<in> ?P" using coveredD[OF assms(3)] by simp_all
  have fin: "finite ?P" using assms(1) by (simp add: ledger_wf_def)
  have nn: "\<And>p. p \<in> ?P \<Longrightarrow> 0 \<le> sint (book l p)" using assms(2) by (simp add: solvent_def)
  have "(\<Sum>p\<in>{(a, Online), (a, Reserved)}. sint (book l p)) \<le> money_supply (account_names l) (book l)"
    unfolding money_supply_def using fin a nn by (intro sum_mono2) auto
  moreover have "money_supply (account_names l) (book l) < 2^63" using assms(2) by (simp add: solvent_def)
  ultimately show "sint (book l (a, Reserved)) + sint x < 2^63" using assms(3) by (simp add: covered_def)
  show "0 \<le> sint (book l (a, Reserved))" using nn a by blast
qed

end
