(* ===== verification/Ledger_Props.thy ===== *)
theory Ledger_Props
  imports Ledger_Refine
begin

text \<open>
  The properties of the ledger: refinement of the book, conservation over every interleaving of API
  calls as \<open>AuditConservation\<close> reports it, solvency, no double spending, the two-phase commit against
  the direct one, isolation of the offline bucket, failed calls, and the calls that never return.
\<close>

section \<open>Runs of API calls\<close>

text \<open>Whether a call returned without an error.\<close>

fun op_success :: "ledger_op \<Rightarrow> ConservingLedger \<Rightarrow> bool" where
  "op_success (Op_Create now k x) l = True"
| "op_success (Op_Fund clk k x) l = (fst (FundAccount clk k x l) = None)"
| "op_success (Op_Allocate clk k x) l = (fst (AllocateOfflineAllowance clk k x l) = None)"
| "op_success (Op_CommitOffline clk a d x t) l = (fst (CommitOfflineAllowance clk a d x t l) = None)"
| "op_success (Op_DebitDeficit clk d x t) l =
     (case DebitDeficitReserve clk d x t l of None \<Rightarrow> False | Some r \<Rightarrow> fst r = None)"
| "op_success (Op_Reserve clk a x t) l = (\<not> isl (fst (ReserveFunds clk a x t l)))"
| "op_success (Op_CommitHold clk a d x t) l = (fst (CommitHold clk a d x t l) = None)"
| "op_success (Op_Direct clk a d x t) l = (fst (DirectCommit clk a d x t l) = None)"
| "op_success (Op_Release clk a x t) l = (fst (ReleaseHold clk a x t l) = None)"
| "op_success (Op_RecordDeficit clk a d x t) l =
     (case RecordDeficit clk a d x t l of None \<Rightarrow> False | Some r \<Rightarrow> fst r = None)"

fun run_ops :: "ledger_op list \<Rightarrow> ConservingLedger \<Rightarrow> ConservingLedger option" where
  "run_ops [] l = Some l"
| "run_ops (op # ops) l = (case exec_op op l of None \<Rightarrow> None | Some l' \<Rightarrow> run_ops ops l')"

text \<open>A spend of account \<open>u\<close>: an online debit in favour of another account or of a hold.\<close>

fun spends :: "string \<Rightarrow> ledger_op \<Rightarrow> bool" where
  "spends u (Op_Direct clk a d x t) = (a = u \<and> d \<noteq> u)"
| "spends u (Op_Reserve clk a x t) = (a = u)"
| "spends u _ = False"

fun spend_amount :: "ledger_op \<Rightarrow> int" where
  "spend_amount (Op_Direct clk a d x t) = sint x"
| "spend_amount (Op_Reserve clk a x t) = sint x"
| "spend_amount _ = 0"

text \<open>The sum of the amounts of the calls that succeeded.\<close>

fun accepted :: "ledger_op list \<Rightarrow> ConservingLedger \<Rightarrow> int" where
  "accepted [] l = 0"
| "accepted (op # ops) l =
     (if op_success op l then spend_amount op else 0) +
     (case exec_op op l of None \<Rightarrow> 0 | Some l' \<Rightarrow> accepted ops l')"

text \<open>The calls that serve the online side: all but the two that touch the offline bucket.\<close>

fun online_op :: "ledger_op \<Rightarrow> bool" where
  "online_op (Op_Allocate clk k x) = False"
| "online_op (Op_CommitOffline clk a d x t) = False"
| "online_op _ = True"

text \<open>A ledger for the witnesses: one funded account and one merchant.\<close>

definition demo_ledger :: ConservingLedger where
  "demo_ledger = CreateAccount 0 ''SHOP'' 0 (CreateAccount 0 ''ACC'' 1000 (NewConservingLedger (\<lambda>_. 0)))"

section \<open>Supporting lemmas\<close>

lemma foldl_audit:
  assumes "set ks \<subseteq> account_names l"
  shows "foldl (\<lambda>(av, rs) k. case accounts l k of None \<Rightarrow> (av, rs)
           | Some a \<Rightarrow> (av + (OnlineAvailable a + OfflineAllowance a), rs + ReservedBalance a)) (av, rs) ks
         = (av + (\<Sum>k\<leftarrow>ks. book l (k, Online) + book l (k, Offline)), rs + (\<Sum>k\<leftarrow>ks. book l (k, Reserved)))"
  using assms
proof (induction ks arbitrary: av rs)
  case (Cons k ks)
  then obtain a where "accounts l k = Some a" by (auto simp: account_names_iff)
  with Cons show ?case by (simp add: book_account_simps add.assoc)
qed simp

lemma book_total_sum:
  "book_total K b = (\<Sum>k\<in>K. b (k, Online) + b (k, Offline) + b (k, Reserved))"
  using sum.cartesian_product[of "\<lambda>k c. b (k, c)" "{Online, Offline, Reserved}" K]
  by (simp add: book_total_def positions_def add.assoc)

lemma AuditConservation_total:
  assumes "distinct ks" and "set ks = account_names l"
  shows "fst (snd (snd (AuditConservation ks l))) = book_total (account_names l) (book l)"
proof -
  have "fst (snd (snd (AuditConservation ks l))) =
      (\<Sum>k\<leftarrow>ks. book l (k, Online) + book l (k, Offline)) + (\<Sum>k\<leftarrow>ks. book l (k, Reserved))"
    using foldl_audit[of ks l 0 0] assms(2) by (simp add: AuditConservation_def Let_def)
  also have "\<dots> = (\<Sum>k\<leftarrow>ks. book l (k, Online) + book l (k, Offline) + book l (k, Reserved))"
    by (simp add: sum_list_addf)
  also have "\<dots> = (\<Sum>k\<in>set ks. book l (k, Online) + book l (k, Offline) + book l (k, Reserved))"
    using assms(1) by (rule sum_list_distinct_conv_sum_set)
  also have "\<dots> = book_total (account_names l) (book l)"
    unfolding assms(2)[symmetric] by (simp add: book_total_sum)
  finally show ?thesis .
qed

lemma spend_step:
  assumes "spends u op" and "exec_op op l = Some l'"
  shows "(if op_success op l then spend_amount op else 0) + sint (book l' (u, Online))
      = sint (book l (u, Online))"
proof -
  have debit: "sint x + sint (guarded_transfer (u, Online) q x (book l) (u, Online))
      = sint (book l (u, Online))" if "covered x (u, Online) (book l)" "q \<noteq> (u, Online)" for x q
    using that by (auto simp: guarded_transfer_def covered_def transfer_apply sint_guarded_debit)
  show ?thesis
  proof (cases op)
    case (Op_Reserve clk a x t)
    with assms have "a = u" "l' = snd (ReserveFunds clk u x t l)" by auto
    moreover have "op_success op l \<longleftrightarrow> covered x (u, Online) (book l)"
      using Op_Reserve \<open>a = u\<close> ReserveFunds_ok[of clk u x t l]
      by (cases "fst (ReserveFunds clk u x t l)") auto
    ultimately show ?thesis
      using Op_Reserve debit[of x "(u, Reserved)"] by (auto simp: ReserveFunds_book guarded_transfer_def)
  next
    case (Op_Direct clk a d x t)
    with assms show ?thesis
      using debit[of x "(d, Online)"]
      by (auto simp: DirectCommit_book DirectCommit_ok guarded_transfer_def)
  qed (use assms in auto)
qed

lemma run_ops_ConsE:
  assumes "run_ops (op # ops) l = Some l'"
  obtains l1 where "exec_op op l = Some l1" "run_ops ops l1 = Some l'"
  using assms by (auto split: option.splits)

lemma spec_op_offline:
  "online_op op \<Longrightarrow> spec_op r op (K, b) = Some (K', b') \<Longrightarrow> b' (k, Offline) = b (k, Offline)"
  by (cases op) (auto simp: guarded_transfer_def transfer_apply split: if_splits)

lemma online_op_offline:
  "online_op op \<Longrightarrow> exec_op op l = Some l' \<Longrightarrow> book l' (k, Offline) = book l (k, Offline)"
  by (rule spec_op_offline[OF _ exec_op_SomeD])

lemma run_ops_steps:
  "list_all checked ops \<Longrightarrow> run_ops ops l = Some l' \<Longrightarrow> checked_step\<^sup>*\<^sup>* l l'"
proof (induction ops arbitrary: l)
  case (Cons op ops)
  obtain l1 where "exec_op op l = Some l1" "run_ops ops l1 = Some l'"
    using Cons.prems(2) by (rule run_ops_ConsE)
  with Cons show ?case
    by (auto intro: converse_rtranclp_into_rtranclp checked_step.intros)
qed simp

subsection \<open>The demonstration ledger\<close>

lemma demo_wf: "ledger_wf demo_ledger"
  by (simp add: demo_ledger_def ledger_wf_CreateAccount ledger_wf_new)

lemma demo_names:
  "account_names demo_ledger =
     {''SHOP'', ''ACC'', AccountDeficitReserve, ''SYSTEM_CLEARING'', ''SYSTEM_ESCROW''}"
  by (simp add: demo_ledger_def new_ledger_names)

lemma demo_book: "book demo_ledger = (\<lambda>_. 0)((''ACC'', Online) := 1000)"
  by (simp add: demo_ledger_def CreateAccount_book new_ledger_book new_ledger_names
      AccountDeficitReserve_def fun_upd_idem)

lemma demo_solvent: "solvent (account_names demo_ledger) (book demo_ledger)"
proof -
  have "0 \<le> sint (book demo_ledger p)" for p by (simp add: demo_book)
  moreover have "(\<Sum>p\<in>positions (account_names demo_ledger). sint (book demo_ledger p))
      = (\<Sum>p\<in>positions (account_names demo_ledger). if p = (''ACC'', Online) then 1000 else 0)"
    by (rule sum.cong) (auto simp: demo_book)
  moreover have "finite (positions (account_names demo_ledger))" by (simp add: demo_names)
  ultimately show ?thesis by (simp add: solvent_def money_supply_def demo_names)
qed

section \<open>Properties\<close>

text \<open>
  C1. Refinement: running any call of the ledger API on the model of the code and then reading off
  the account names and the book gives what the specification computes from the names and the book
  alone; a call never returns exactly when the specification says so.
\<close>

theorem exec_op_refines:
  "map_option (\<lambda>l'. (account_names l', book l')) (exec_op op l)
     = spec_op (DeficitReserveAccountID l) op (account_names l, book l)"
  by (rule exec_op_spec)

text \<open>
  C2. Conservation: over every finite sequence of calls that bring no money in from outside, in any
  interleaving, with amounts of any sign and with wrap-around, the \<open>totalBalance\<close> that
  \<open>AuditConservation\<close> returns is the same before and after, whatever orders the two audits visit
  the map in.
\<close>

theorem audit_conserved:
  assumes "ledger_wf l" and "ledger_step\<^sup>*\<^sup>* l l'"
    and "distinct ks" "set ks = account_names l" and "distinct ks'" "set ks' = account_names l'"
  shows "fst (snd (snd (AuditConservation ks' l'))) = fst (snd (snd (AuditConservation ks l)))"
proof -
  have "book_total (account_names l') (book l') = book_total (account_names l) (book l)"
    using led.money_steps[OF assms(2,1)] by (simp add: led.money_def)
  with assms(3-6) show ?thesis by (simp add: AuditConservation_total)
qed

theorem audit_conserved_witness:
  "fst (snd (snd (AuditConservation [''ACC'', ''SHOP'', ''SYSTEM_ESCROW'', ''SYSTEM_CLEARING'', AccountDeficitReserve]
      (snd (DirectCommit (\<lambda>_. 0) ''ACC'' ''SHOP'' 300 ''T'' demo_ledger)))))
    = fst (snd (snd (AuditConservation [''SHOP'', ''ACC'', AccountDeficitReserve, ''SYSTEM_CLEARING'', ''SYSTEM_ESCROW'']
      demo_ledger)))"
proof (rule audit_conserved[OF demo_wf])
  show "ledger_step\<^sup>*\<^sup>* demo_ledger (snd (DirectCommit (\<lambda>_. 0) ''ACC'' ''SHOP'' 300 ''T'' demo_ledger))"
    by (rule r_into_rtranclp, rule ledger_step.intros[of "Op_Direct (\<lambda>_. 0) ''ACC'' ''SHOP'' 300 ''T''"])
      simp_all
  show "set [''SHOP'', ''ACC'', AccountDeficitReserve, ''SYSTEM_CLEARING'', ''SYSTEM_ESCROW'']
      = account_names demo_ledger"
    by (simp add: demo_names)
  show "set [''ACC'', ''SHOP'', ''SYSTEM_ESCROW'', ''SYSTEM_CLEARING'', AccountDeficitReserve]
      = account_names (snd (DirectCommit (\<lambda>_. 0) ''ACC'' ''SHOP'' 300 ''T'' demo_ledger))"
    by (simp add: demo_names DirectCommit_names insert_commute)
qed (simp_all add: AccountDeficitReserve_def)

text \<open>
  Solvency: if every bucket of every account is non-negative and all the money fits in an
  \<open>int64\<close>, then after any sequence of calls whose debits are checked (allocation, offline and online
  commits, holds and their release of a non-negative amount) every bucket of every account is still
  non-negative, so no addition has overflowed.
\<close>

theorem balances_never_negative:
  assumes "ledger_wf l" and "solvent (account_names l) (book l)" and "checked_step\<^sup>*\<^sup>* l l'"
    and "accounts l' k = Some a"
  shows "0 \<le> sint (OnlineAvailable a) \<and> 0 \<le> sint (OfflineAllowance a) \<and> 0 \<le> sint (ReservedBalance a)"
proof -
  have "solvent (account_names l') (book l')"
    using cled.solvent_steps[OF assms(3,1,2)] by simp
  moreover have "k \<in> account_names l'" using assms(4) by (simp add: account_names_iff)
  ultimately have "0 \<le> sint (book l' (k, c))" for c by (simp add: solvent_def)
  from this[of Online] this[of Offline] this[of Reserved] assms(4) show ?thesis
    by (simp add: book_Some)
qed

theorem balances_never_negative_witness:
  "\<exists>a. accounts (snd (DirectCommit (\<lambda>_. 0) ''ACC'' ''SHOP'' 300 ''T'' demo_ledger)) ''ACC'' = Some a
     \<and> 0 \<le> sint (OnlineAvailable a)"
proof -
  let ?l = "snd (DirectCommit (\<lambda>_. 0) ''ACC'' ''SHOP'' 300 ''T'' demo_ledger)"
  have "checked_step\<^sup>*\<^sup>* demo_ledger ?l"
    by (rule r_into_rtranclp, rule checked_step.intros[of "Op_Direct (\<lambda>_. 0) ''ACC'' ''SHOP'' 300 ''T''"])
      simp_all
  moreover obtain a where "accounts ?l ''ACC'' = Some a"
    using account_names_iff[of "''ACC''" ?l] by (auto simp: DirectCommit_names demo_names)
  ultimately show ?thesis using balances_never_negative[OF demo_wf demo_solvent] by blast
qed

text \<open>
  No double spending: when any number of direct commits and holds race for one account, in any
  order, the amounts of the calls that succeed and what is left online add up exactly to what was
  online at the start.
\<close>

theorem no_double_spend:
  assumes "list_all (spends u) ops" and "run_ops ops l = Some l'"
  shows "accepted ops l + sint (book l' (u, Online)) = sint (book l (u, Online))"
  using assms
proof (induction ops arbitrary: l)
  case (Cons op ops)
  obtain l1 where l1: "exec_op op l = Some l1" "run_ops ops l1 = Some l'"
    using Cons.prems(2) by (rule run_ops_ConsE)
  with Cons.IH[of l1] Cons.prems spend_step[of u op l l1] show ?case by simp
qed simp

theorem no_double_spend_witness:
  "\<exists>l'. run_ops [Op_Direct (\<lambda>_. 0) ''ACC'' ''SHOP'' 700 ''T1'', Op_Reserve (\<lambda>_. 0) ''ACC'' 700 ''T2''] demo_ledger = Some l'
     \<and> accepted [Op_Direct (\<lambda>_. 0) ''ACC'' ''SHOP'' 700 ''T1'', Op_Reserve (\<lambda>_. 0) ''ACC'' 700 ''T2''] demo_ledger
         + sint (book l' (''ACC'', Online)) = 1000"
  using no_double_spend[of "''ACC''"
      "[Op_Direct (\<lambda>_. 0) ''ACC'' ''SHOP'' 700 ''T1'', Op_Reserve (\<lambda>_. 0) ''ACC'' 700 ''T2'']" demo_ledger]
  by (simp add: demo_book)

text \<open>
  The two-phase commit agrees with the direct one: if the hold is granted on an account whose
  reserved bucket is non-negative and does not overflow, the commit of the hold succeeds and leaves
  the balances that \<open>DirectCommit\<close> leaves.
\<close>

theorem reserve_commit_is_direct:
  assumes "covered x (a, Online) (book l)"
    and "0 \<le> sint (book l (a, Reserved))" and "sint (book l (a, Reserved)) + sint x < 2^63"
  shows "fst (CommitHold clk' a d x t (snd (ReserveFunds clk a x t l))) = None
    \<and> book (snd (CommitHold clk' a d x t (snd (ReserveFunds clk a x t l))))
        = book (snd (DirectCommit clk'' a d x t l))"
  using commit_of_hold[OF assms, where clk = clk and clk' = clk' and d = d and t = t] assms(1)
  by (simp add: DirectCommit_book guarded_transfer_def)

theorem reserve_commit_is_direct_witness:
  "book (snd (CommitHold (\<lambda>_. 0) ''ACC'' ''SHOP'' 300 ''T'' (snd (ReserveFunds (\<lambda>_. 0) ''ACC'' 300 ''T'' demo_ledger))))
     = book (snd (DirectCommit (\<lambda>_. 0) ''ACC'' ''SHOP'' 300 ''T'' demo_ledger))"
  using reserve_commit_is_direct[of 300 "''ACC''" demo_ledger "\<lambda>_. 0" "''SHOP''" "''T''" "\<lambda>_. 0" "\<lambda>_. 0"]
  by (simp add: demo_book covered_def)

text \<open>
  A hold that is released leaves every balance as it was: the rollback path of the gateway.
\<close>

theorem reserve_release_roundtrip:
  assumes "covered x (a, Online) (book l)"
    and "0 \<le> sint (book l (a, Reserved))" and "sint (book l (a, Reserved)) + sint x < 2^63"
  shows "fst (ReleaseHold clk' a x t (snd (ReserveFunds clk a x t l))) = None
    \<and> book (snd (ReleaseHold clk' a x t (snd (ReserveFunds clk a x t l)))) = book l"
  using hold_covers(1)[OF assms, where clk = clk and t = t] hold_covers(2)[OF assms] coveredD[OF assms(1)]
  by (auto simp: ReleaseHold_ok ReleaseHold_book ReserveFunds_names transfer_through covered_def)

theorem reserve_release_roundtrip_witness:
  "book (snd (ReleaseHold (\<lambda>_. 0) ''ACC'' 300 ''T'' (snd (ReserveFunds (\<lambda>_. 0) ''ACC'' 300 ''T'' demo_ledger))))
     = book demo_ledger"
  using reserve_release_roundtrip[of 300 "''ACC''" demo_ledger "\<lambda>_. 0" "''T''" "\<lambda>_. 0"]
  by (simp add: demo_book covered_def)

text \<open>
  Partition isolation: no sequence of online calls (holds, commits, releases, direct commits,
  deficits, funding, account creation) changes the offline allowance of any account.
\<close>

theorem online_calls_keep_offline_bucket:
  assumes "list_all online_op ops" and "run_ops ops l = Some l'"
  shows "book l' (k, Offline) = book l (k, Offline)"
  using assms
proof (induction ops arbitrary: l)
  case (Cons op ops)
  obtain l1 where "exec_op op l = Some l1" "run_ops ops l1 = Some l'"
    using Cons.prems(2) by (rule run_ops_ConsE)
  with Cons show ?case by (auto simp: online_op_offline)
qed simp

theorem online_calls_keep_offline_bucket_witness:
  "\<exists>l'. run_ops [Op_Direct (\<lambda>_. 0) ''ACC'' ''SHOP'' 1000 ''T1'', Op_Fund (\<lambda>_. 0) ''ACC'' 5] demo_ledger = Some l'
     \<and> book l' (''ACC'', Offline) = book demo_ledger (''ACC'', Offline)"
  using online_calls_keep_offline_bucket[of
      "[Op_Direct (\<lambda>_. 0) ''ACC'' ''SHOP'' 1000 ''T1'', Op_Fund (\<lambda>_. 0) ''ACC'' 5]" demo_ledger]
  by simp

text \<open>
  A call that returns an error changes no balance and writes nothing to the journal.
\<close>

theorem failed_call_changes_nothing:
  assumes "\<not> op_success op l" and "exec_op op l = Some l'"
  shows "book l' = book l \<and> entries l' = entries l"
  using assms
  by (cases op)
    (auto simp: op_defs Let_def split: if_splits option.splits)

theorem failed_call_changes_nothing_witness:
  "\<not> op_success (Op_Direct (\<lambda>_. 0) ''ACC'' ''SHOP'' 1001 ''T'') demo_ledger
   \<and> book (snd (DirectCommit (\<lambda>_. 0) ''ACC'' ''SHOP'' 1001 ''T'' demo_ledger)) = book demo_ledger"
proof -
  have "\<not> op_success (Op_Direct (\<lambda>_. 0) ''ACC'' ''SHOP'' 1001 ''T'') demo_ledger"
    by (simp add: DirectCommit_ok covered_def demo_book)
  with failed_call_changes_nothing[OF this] show ?thesis by simp
qed

text \<open>
  The calls that never return: the two deficit operations lock the same account's mutex twice
  exactly when payer and payee are one account. Every other call returns.
\<close>

theorem ledger_call_blocks_iff:
  "exec_op op l = None \<longleftrightarrow>
     (\<exists>clk a x t. op = Op_RecordDeficit clk a a x t) \<or>
     (\<exists>clk x t. op = Op_DebitDeficit clk (DeficitReserveAccountID l) x t \<and> 0 < sint x)"
  by (cases op) (auto simp: DebitDeficitReserve_blocks RecordDeficit_blocks)

text \<open>
  \<open>CheckGlobalInvariant\<close> adds every journal amount to both sums, so it accepts every ledger,
  whatever the balances are.
\<close>

theorem CheckGlobalInvariant_accepts_all: "CheckGlobalInvariant l = None"
proof -
  have "foldl (\<lambda>(d, c) e. (d + le_Amount e, c + le_Amount e)) (s, s) es =
      (let n = s + (\<Sum>e\<leftarrow>es. le_Amount e) in (n, n))" for s es
    by (induction es arbitrary: s) (simp_all add: Let_def add.assoc)
  from this[of 0 "entries l"] show ?thesis by (simp add: CheckGlobalInvariant_def Let_def)
qed

end
