(* ===== verification/Ledger_Journal.thy ===== *)
theory Ledger_Journal
  imports Ledger_Props "HOL-Library.Sublist"
begin

text \<open>
  The journal against the balances. Every successful call appends one entry with a debit and a credit
  name; \<open>posting es n\<close> is what the journal \<open>es\<close> has posted to the name \<open>n\<close>. The lemmas here show that
  the journal explains the balances: the online bucket of an account moves with the postings to its
  own name and to its \<open>_ONLINE\<close> name, the offline bucket with the postings to its \<open>_OFFLINE\<close> name,
  and the reserved buckets of all accounts together with the postings to the escrow name.
\<close>

section \<open>Postings\<close>

definition post1 :: "LedgerEntry \<Rightarrow> string \<Rightarrow> int64" where
  "post1 e n = (if CreditAcc e = n then le_Amount e else 0) - (if DebitAcc e = n then le_Amount e else 0)"

definition posting :: "LedgerEntry list \<Rightarrow> string \<Rightarrow> int64" where
  "posting es n = (\<Sum>e\<leftarrow>es. post1 e n)"

text \<open>Names that are not the journal's name of a bucket.\<close>

definition plain :: "string \<Rightarrow> bool" where
  "plain n \<longleftrightarrow> \<not> suffix ''_ONLINE'' n \<and> \<not> suffix ''_OFFLINE'' n"

fun parties :: "string \<Rightarrow> ledger_op \<Rightarrow> string list" where
  "parties r (Op_Create now k x) = [k]"
| "parties r (Op_Fund clk k x) = [k]"
| "parties r (Op_Allocate clk k x) = [k]"
| "parties r (Op_CommitOffline clk a d x t) = [a, d]"
| "parties r (Op_DebitDeficit clk d x t) = [r, d]"
| "parties r (Op_Reserve clk a x t) = [a]"
| "parties r (Op_CommitHold clk a d x t) = [a, d]"
| "parties r (Op_Direct clk a d x t) = [a, d]"
| "parties r (Op_Release clk a x t) = [a]"
| "parties r (Op_RecordDeficit clk a d x t) = [a, d]"

text \<open>What the journal does not explain: it starts as the opening balance and must not move.\<close>

definition online_gap :: "ConservingLedger \<Rightarrow> string \<Rightarrow> int64" where
  "online_gap l a =
     book l (a, Online) - (posting (entries l) a + posting (entries l) (a @ ''_ONLINE''))"

definition offline_gap :: "ConservingLedger \<Rightarrow> string \<Rightarrow> int64" where
  "offline_gap l a = book l (a, Offline) - posting (entries l) (a @ ''_OFFLINE'')"

definition escrow_gap :: "ConservingLedger \<Rightarrow> int64" where
  "escrow_gap l = (\<Sum>k\<in>account_names l. book l (k, Reserved)) - posting (entries l) (EscrowAccountID l)"

text \<open>Debit name, credit name and amount of the entry a successful call writes.\<close>

fun op_entry :: "string \<Rightarrow> string \<Rightarrow> ledger_op \<Rightarrow> (string \<times> string \<times> int64) option" where
  "op_entry esc r (Op_Create now k x) = None"
| "op_entry esc r (Op_Fund clk k x) = Some (''SYSTEM_CAPITAL'', k, x)"
| "op_entry esc r (Op_Allocate clk k x) = Some (k @ ''_ONLINE'', k @ ''_OFFLINE'', x)"
| "op_entry esc r (Op_CommitOffline clk a d x t) = Some (a @ ''_OFFLINE'', d, x)"
| "op_entry esc r (Op_DebitDeficit clk d x t) = Some (r, d, x)"
| "op_entry esc r (Op_Reserve clk a x t) = Some (a, esc, x)"
| "op_entry esc r (Op_CommitHold clk a d x t) = Some (esc, d, x)"
| "op_entry esc r (Op_Direct clk a d x t) = Some (a, d, x)"
| "op_entry esc r (Op_Release clk a x t) = Some (esc, a, x)"
| "op_entry esc r (Op_RecordDeficit clk a d x t) = Some (a, d, x)"

section \<open>Lemmas\<close>

lemma plain_append [simp]:
  "plain n \<Longrightarrow> p @ ''_ONLINE'' \<noteq> n" "plain n \<Longrightarrow> p @ ''_OFFLINE'' \<noteq> n"
  "plain n \<Longrightarrow> n \<noteq> p @ ''_ONLINE''" "plain n \<Longrightarrow> n \<noteq> p @ ''_OFFLINE''"
  by (auto simp: plain_def suffix_def)

lemma bucket_names_differ [simp]:
  "p @ ''_ONLINE'' \<noteq> q @ ''_OFFLINE''" "q @ ''_OFFLINE'' \<noteq> p @ ''_ONLINE''"
proof -
  show "p @ ''_ONLINE'' \<noteq> q @ ''_OFFLINE''"
  proof
    assume "p @ ''_ONLINE'' = q @ ''_OFFLINE''"
    then have "rev (p @ ''_ONLINE'') = rev (q @ ''_OFFLINE'')" by simp
    then show False by simp
  qed
  then show "q @ ''_OFFLINE'' \<noteq> p @ ''_ONLINE''" by metis
qed

lemma entries_upd_acc [simp]: "entries (upd_acc k f l) = entries l"
  "EscrowAccountID (upd_acc k f l) = EscrowAccountID l"
  "DeficitReserveAccountID (upd_acc k f l) = DeficitReserveAccountID l"
  by (simp_all add: upd_acc_def)

lemma appendEntry_other [simp]:
  "EscrowAccountID (appendEntry e l) = EscrowAccountID l"
  "DeficitReserveAccountID (appendEntry e l) = DeficitReserveAccountID l"
  by (simp_all add: appendEntry_def Let_def)

lemma entries_appendEntry: "entries (appendEntry e l) = entries l @ [e\<lparr>EntryID := entryCounter l + 1\<rparr>]"
  by (simp add: appendEntry_def Let_def)

lemma exec_op_ids:
  "exec_op op l = Some l' \<Longrightarrow> EscrowAccountID l' = EscrowAccountID l"
  "exec_op op l = Some l' \<Longrightarrow> DeficitReserveAccountID l' = DeficitReserveAccountID l"
  by (cases op; auto simp: op_defs Let_def split: if_splits option.splits)+

lemma exec_op_entries:
  assumes "exec_op op l = Some l'"
  shows "case op_entry (EscrowAccountID l) (DeficitReserveAccountID l) op of
      Some (d, c, x) \<Rightarrow> if op_success op l
        then \<exists>e. entries l' = entries l @ [e] \<and> DebitAcc e = d \<and> CreditAcc e = c \<and> le_Amount e = x
        else entries l' = entries l
    | None \<Rightarrow> entries l' = entries l"
  using assms
  by (cases op) (auto simp: op_defs Let_def entries_appendEntry split: if_splits option.splits)

lemma exec_op_posting:
  assumes "exec_op op l = Some l'"
  shows "posting (entries l') n = posting (entries l) n +
    (case op_entry (EscrowAccountID l) (DeficitReserveAccountID l) op of
       Some (d, c, x) \<Rightarrow> if op_success op l
         then (if c = n then x else 0) - (if d = n then x else 0) else 0
     | None \<Rightarrow> 0)"
  using exec_op_entries[OF assms]
  by (auto simp: posting_def post1_def split: option.splits if_splits)

text \<open>The positions a successful call debits and credits; funding has no position to debit.\<close>

fun op_ends :: "string \<Rightarrow> ledger_op \<Rightarrow> (position option \<times> position \<times> int64) option" where
  "op_ends r (Op_Create now k x) = None"
| "op_ends r (Op_Fund clk k x) = Some (None, (k, Online), x)"
| "op_ends r (Op_Allocate clk k x) = Some (Some (k, Online), (k, Offline), x)"
| "op_ends r (Op_CommitOffline clk a d x t) = Some (Some (a, Offline), (d, Online), x)"
| "op_ends r (Op_DebitDeficit clk d x t) = Some (Some (r, Online), (d, Online), x)"
| "op_ends r (Op_Reserve clk a x t) = Some (Some (a, Online), (a, Reserved), x)"
| "op_ends r (Op_CommitHold clk a d x t) = Some (Some (a, Reserved), (d, Online), x)"
| "op_ends r (Op_Direct clk a d x t) = Some (Some (a, Online), (d, Online), x)"
| "op_ends r (Op_Release clk a x t) = Some (Some (a, Reserved), (a, Online), x)"
| "op_ends r (Op_RecordDeficit clk a d x t) = Some (Some (a, Online), (d, Online), x)"

definition end_delta :: "position option \<times> position \<times> int64 \<Rightarrow> position \<Rightarrow> int64" where
  "end_delta ends s = (case ends of (p, q, x) \<Rightarrow> (if s = q then x else 0) - (if Some s = p then x else 0))"

lemma transfer_delta: "transfer p q x b s = b s + end_delta (Some p, q, x) s"
  by (auto simp: transfer_apply end_delta_def)

lemma isl_ReserveFunds: "isl (fst (ReserveFunds clk a x t l)) \<longleftrightarrow> \<not> covered x (a, Online) (book l)"
  using ReserveFunds_ok[of clk a x t l] by (cases "fst (ReserveFunds clk a x t l)") auto

lemma exec_op_delta:
  assumes "exec_op op l = Some l'" and "op_ends (DeficitReserveAccountID l) op = Some ends"
  shows "book l' s = book l s + (if op_success op l then end_delta ends s else 0)"
proof (cases op)
  case (Op_DebitDeficit clk d x t)
  with assms obtain e where "DebitDeficitReserve clk d x t l = Some (e, l')" by auto
  from DebitDeficitReserve_book[OF this] this Op_DebitDeficit assms(2) show ?thesis
    by (auto simp: transfer_delta)
next
  case (Op_RecordDeficit clk a d x t)
  with assms obtain e where "RecordDeficit clk a d x t l = Some (e, l')" by auto
  from RecordDeficit_book[OF this] this Op_RecordDeficit assms(2) show ?thesis
    by (auto simp: transfer_delta)
next
  case (Op_Fund clk k x)
  with assms show ?thesis
    by (auto simp: FundAccount_book FundAccount_ok end_delta_def)
qed (use assms in \<open>auto simp: guarded_transfer_def transfer_delta isl_ReserveFunds
      AllocateOfflineAllowance_book AllocateOfflineAllowance_ok CommitOfflineAllowance_book
      CommitOfflineAllowance_ok ReserveFunds_book CommitHold_book CommitHold_ok
      DirectCommit_book DirectCommit_ok ReleaseHold_book ReleaseHold_ok\<close>)

lemma online_gap_step:
  assumes "exec_op op l = Some l'" and ends: "op_ends (DeficitReserveAccountID l) op = Some ends"
    and "list_all plain (parties (DeficitReserveAccountID l) op)"
    and "plain a" "a \<noteq> EscrowAccountID l" "a \<noteq> ''SYSTEM_CAPITAL''" "plain (EscrowAccountID l)"
  shows "online_gap l' a = online_gap l a"
proof -
  have cap: "plain ''SYSTEM_CAPITAL''" by (simp add: plain_def suffix_to_prefix)
  have "book l' (a, Online) = book l (a, Online) + (if op_success op l then end_delta ends (a, Online) else 0)"
    by (rule exec_op_delta[OF assms(1,2)])
  with assms cap show ?thesis
    unfolding online_gap_def exec_op_posting[OF assms(1)]
    by (cases op) (auto simp: end_delta_def)
qed

lemma offline_gap_step:
  assumes "exec_op op l = Some l'" and ends: "op_ends (DeficitReserveAccountID l) op = Some ends"
    and "list_all plain (parties (DeficitReserveAccountID l) op)"
    and "plain a" "plain (EscrowAccountID l)"
  shows "offline_gap l' a = offline_gap l a"
proof -
  have cap: "plain ''SYSTEM_CAPITAL''" by (simp add: plain_def suffix_to_prefix)
  have "book l' (a, Offline) = book l (a, Offline) + (if op_success op l then end_delta ends (a, Offline) else 0)"
    by (rule exec_op_delta[OF assms(1,2)])
  with assms cap show ?thesis
    unfolding offline_gap_def exec_op_posting[OF assms(1)]
    by (cases op) (auto simp: end_delta_def)
qed

lemma reserved_sum_step:
  assumes "exec_op op l = Some l'" and "op_ends (DeficitReserveAccountID l) op = Some ends"
    and "finite (account_names l')"
  shows "(\<Sum>k\<in>account_names l'. book l' (k, Reserved)) =
     (\<Sum>k\<in>account_names l. book l (k, Reserved)) +
     (if op_success op l then (\<Sum>k\<in>account_names l'. end_delta ends (k, Reserved)) else 0)"
proof -
  have "(\<Sum>k\<in>account_names l'. book l (k, Reserved)) = (\<Sum>k\<in>account_names l. book l (k, Reserved))"
    by (rule sum.mono_neutral_right) (use assms exec_op_names book_outside in auto)
  then show ?thesis by (simp add: exec_op_delta[OF assms(1,2)] sum.distrib)
qed

lemma sum_reserved_delta:
  assumes "finite K"
  shows "(\<Sum>k\<in>K. end_delta (p, q, x) (k, Reserved)) =
    (if snd q = Reserved \<and> fst q \<in> K then x else 0) -
    (case p of None \<Rightarrow> 0 | Some r \<Rightarrow> if snd r = Reserved \<and> fst r \<in> K then x else 0)"
proof -
  have one: "(\<Sum>k\<in>K. if (k, Reserved) = r then x else 0) = (if snd r = Reserved \<and> fst r \<in> K then x else 0)"
    for r :: position
    using assms by (cases r; cases "snd r = Reserved") (auto simp: sum.delta intro!: sum.neutral)
  show ?thesis
    using one[of q] one by (cases p) (auto simp: end_delta_def sum_subtractf eq_commute[of _ "the p"])
qed

lemma escrow_gap_step:
  assumes "exec_op op l = Some l'" and ends: "op_ends (DeficitReserveAccountID l) op = Some ends"
    and "ledger_wf l" and "list_all plain (parties (DeficitReserveAccountID l) op)"
    and "EscrowAccountID l \<notin> set (parties (DeficitReserveAccountID l) op)"
    and "plain (EscrowAccountID l)" and "EscrowAccountID l \<noteq> ''SYSTEM_CAPITAL''"
  shows "escrow_gap l' = escrow_gap l"
proof -
  have fin: "finite (account_names l')"
    using ledger_wf_exec[OF assms(3,1)] by (simp add: ledger_wf_def)
  have in_l': "op_success op l \<Longrightarrow> (case op of Op_Reserve clk a x t \<Rightarrow> a \<in> account_names l'
      | Op_CommitHold clk a d x t \<Rightarrow> a \<in> account_names l' | Op_Release clk a x t \<Rightarrow> a \<in> account_names l' | _ \<Rightarrow> True)"
    using exec_op_names[OF assms(1)]
    by (auto simp: isl_ReserveFunds CommitHold_ok ReleaseHold_ok dest!: coveredD split: ledger_op.splits)
  show ?thesis
    unfolding escrow_gap_def reserved_sum_step[OF assms(1) ends fin] exec_op_posting[OF assms(1)]
      exec_op_ids(1)[OF assms(1)]
    using assms in_l' fin by (cases op) (auto simp: sum_reserved_delta)
qed

text \<open>Everything but the creation of an account with a non-zero balance goes through the journal.\<close>

fun journaled :: "ledger_op \<Rightarrow> bool" where
  "journaled (Op_Create now k x) = (x = 0)"
| "journaled _ = True"

text \<open>The calls whose parties are ordinary accounts: no bucket name, not the escrow, not the capital name.\<close>

definition ordinary :: "ConservingLedger \<Rightarrow> string \<Rightarrow> bool" where
  "ordinary l n \<longleftrightarrow> plain n \<and> n \<noteq> EscrowAccountID l \<and> n \<noteq> ''SYSTEM_CAPITAL''"

definition escrow_named_apart :: "ConservingLedger \<Rightarrow> bool" where
  "escrow_named_apart l \<longleftrightarrow> plain (EscrowAccountID l) \<and> EscrowAccountID l \<noteq> ''SYSTEM_CAPITAL''"

lemma gaps_create:
  "online_gap (CreateAccount now k 0 l) a = online_gap l a"
  "offline_gap (CreateAccount now k 0 l) a = offline_gap l a"
  "finite (account_names l) \<Longrightarrow> escrow_gap (CreateAccount now k 0 l) = escrow_gap l"
  by (cases "k \<in> account_names l";
      simp add: online_gap_def offline_gap_def escrow_gap_def book_outside insert_absorb)+

lemma gaps_step:
  assumes "exec_op op l = Some l'" and "ledger_wf l" and "journaled op"
    and "list_all (ordinary l) (parties (DeficitReserveAccountID l) op)"
    and "escrow_named_apart l" and "ordinary l a"
  shows "online_gap l' a = online_gap l a" "offline_gap l' a = offline_gap l a"
    "escrow_gap l' = escrow_gap l"
proof -
  have pl: "list_all plain (parties (DeficitReserveAccountID l) op)"
    "EscrowAccountID l \<notin> set (parties (DeficitReserveAccountID l) op)"
    using assms(4) by (auto simp: ordinary_def list_all_iff)
  have "online_gap l' a = online_gap l a \<and> offline_gap l' a = offline_gap l a
      \<and> escrow_gap l' = escrow_gap l"
  proof (cases "op_ends (DeficitReserveAccountID l) op")
    case None
    then obtain now k where "op = Op_Create now k 0" using assms(3) by (cases op) auto
    with assms(1,2) show ?thesis by (auto simp: gaps_create ledger_wf_def)
  next
    case (Some ends)
    with assms pl show ?thesis
      using online_gap_step[OF assms(1) Some pl(1)] offline_gap_step[OF assms(1) Some pl(1)]
        escrow_gap_step[OF assms(1) Some assms(2) pl]
      by (auto simp: ordinary_def escrow_named_apart_def)
  qed
  then show "online_gap l' a = online_gap l a" "offline_gap l' a = offline_gap l a"
    "escrow_gap l' = escrow_gap l" by auto
qed

text \<open>
  Reserved money is explained in total only, and no better statement holds: the entry of \<open>CommitHold\<close> debits the
  escrow account and does not name the account whose hold it commits. Two holds of one amount, one of them
  committed: the journals are equal whichever it was, the reserved buckets are not.
\<close>

definition two_holds :: "string \<Rightarrow> ledger_op list" where
  "two_holds k = [Op_Direct (\<lambda>_. 0) ''ACC'' ''SHOP'' 300 ''T'', Op_Reserve (\<lambda>_. 0) ''ACC'' 100 ''U'',
     Op_Reserve (\<lambda>_. 0) ''SHOP'' 100 ''V'', Op_CommitHold (\<lambda>_. 0) k ''BANK'' 100 ''W'']"

lemma journal_hides_holder:
  "map_option entries (run_ops (two_holds ''ACC'') demo_ledger) = map_option entries (run_ops (two_holds ''SHOP'') demo_ledger)"
  "map_option (\<lambda>l. book l (''ACC'', Reserved)) (run_ops (two_holds ''ACC'') demo_ledger) = Some 0"
  "map_option (\<lambda>l. book l (''ACC'', Reserved)) (run_ops (two_holds ''SHOP'') demo_ledger) = Some 100"
  by code_simp+

section \<open>Property\<close>

text \<open>
  C16. The journal explains the balances, as far as it records them. Call a name ordinary when it is not the escrow
  account, not \<open>SYSTEM_CAPITAL\<close> and does not end in \<open>_ONLINE\<close> or \<open>_OFFLINE\<close> (the names the journal gives to
  buckets). Over any sequence of ledger calls whose parties are ordinary (accounts are opened with a balance of
  zero, as \<open>CreateAccount\<close> writes no entry), for every single ordinary account the part of its online bucket that
  the postings to its name and to its \<open>_ONLINE\<close> name do not account for stays what it was, and so does the
  part of its offline bucket beyond the postings to its \<open>_OFFLINE\<close> name; the reserved buckets of all accounts
  together, and only together, move with the postings to the escrow account.
\<close>

theorem journal_explains_balances:
  assumes "run_ops ops l = Some l'" and "ledger_wf l" and "list_all journaled ops"
    and "list_all (\<lambda>op. list_all (ordinary l) (parties (DeficitReserveAccountID l) op)) ops"
    and "escrow_named_apart l" and "ordinary l a"
  shows "online_gap l' a = online_gap l a \<and> offline_gap l' a = offline_gap l a
    \<and> escrow_gap l' = escrow_gap l"
  using assms
proof (induction ops arbitrary: l)
  case (Cons op ops)
  obtain l1 where l1: "exec_op op l = Some l1" "run_ops ops l1 = Some l'"
    using Cons.prems(1) by (rule run_ops_ConsE)
  have same: "EscrowAccountID l1 = EscrowAccountID l" "DeficitReserveAccountID l1 = DeficitReserveAccountID l"
    using exec_op_ids[OF l1(1)] by auto
  have "ordinary l1 = ordinary l" by (rule ext) (simp add: ordinary_def same)
  then have "online_gap l' a = online_gap l1 a \<and> offline_gap l' a = offline_gap l1 a
      \<and> escrow_gap l' = escrow_gap l1"
    using Cons.prems ledger_wf_exec[OF Cons.prems(2) l1(1)]
    by (intro Cons.IH[OF l1(2)]) (auto simp: same escrow_named_apart_def)
  with gaps_step[OF l1(1)] Cons.prems show ?case by simp
qed simp

theorem journal_explains_balances_witness:
  "\<exists>l'. run_ops [Op_Allocate (\<lambda>_. 0) ''ACC'' 200, Op_Reserve (\<lambda>_. 0) ''ACC'' 300 ''T''] demo_ledger = Some l'
     \<and> online_gap l' ''ACC'' = online_gap demo_ledger ''ACC'' \<and> escrow_gap l' = escrow_gap demo_ledger"
proof -
  have esc: "EscrowAccountID demo_ledger = ''SYSTEM_ESCROW''"
    by (simp add: demo_ledger_def NewConservingLedger_def Let_def)
  show ?thesis
    using journal_explains_balances[of
        "[Op_Allocate (\<lambda>_. 0) ''ACC'' 200, Op_Reserve (\<lambda>_. 0) ''ACC'' 300 ''T'']" demo_ledger _ "''ACC''"]
    by (simp add: demo_wf ordinary_def escrow_named_apart_def esc plain_def suffix_to_prefix)
qed

end
