(* ===== verification/Ledger_Threads.thy ===== *)
theory Ledger_Threads
  imports Ledger_Refine
begin

text \<open>
  The ledger of \<open>internal/ledger/m2_conserving.go\<close> under concurrent calls, at the granularity of its locks.
  A call is a goroutine. Its first step checks the arguments and looks the accounts up under
  \<open>accountsLock\<close>; what is left of the call is then a list of instructions, each of them atomic in the code
  (the operation of a mutex, the mutation of an account whose mutex is held, the atomic counter, the append
  under \<open>entriesLock\<close>). A scheduler picks the goroutine that moves next.

  \<^item> \<open>acc.ID\<close> is the key of the account, which the invariant \<open>ledger_wf\<close> states for every stored account.
  \<^item> A deferred unlock is a \<open>Release\<close> at the end of the list; an early return inside the critical section
    jumps to the first of them.
  \<^item> \<open>AuditConservation\<close> holds \<open>accountsLock\<close> for reading while it visits the accounts, so no account is
    created meanwhile; it takes the mutex of one account at a time, which is one step.
  \<^item> A writer that waits for a read-write mutex does not hold up later readers here, which allows more
    schedules than the Go runtime. \<open>GetAccount\<close>, \<open>GetAccountSnapshot\<close> and \<open>CheckGlobalInvariant\<close> only read and are not calls of the pool.
\<close>

section \<open>Data\<close>

datatype instr =
    Create time string int64
  | Acquire string
  | Guard bucket string int64 ledger_error
  | Update string "Account \<Rightarrow> Account"
  | Hold string Reservation
  | NextID LedgerEntry
  | Push LedgerEntry
  | Release string

datatype goroutine =
    Call ledger_op
  | Running ledger_op "ledger_error option" "instr list"
  | Returned "ledger_error option"
  | CallAudit
  | Auditing "string list" int64 int64
  | Audited int64 int64 int64 nat

record ledger_system =
  pool :: "goroutine list"
  mutex :: "string \<rightharpoonup> nat"
  shared :: ConservingLedger

section \<open>The code of a call\<close>

definition create_missing :: "time \<Rightarrow> string \<Rightarrow> ConservingLedger \<Rightarrow> instr list" where
  "create_missing now k l = (if accounts l k = None then [Create now k 0] else [])"

definition lock_pair :: "string \<Rightarrow> string \<Rightarrow> instr list" where
  "lock_pair a d =
     (if a < d then [Acquire a, Acquire d] else if a > d then [Acquire d, Acquire a] else [Acquire a])"

definition unlock_pair :: "string \<Rightarrow> string \<Rightarrow> instr list" where
  "unlock_pair a d = Release a # (if a \<noteq> d then [Release d] else [])"

fun begin_call :: "ledger_op \<Rightarrow> ConservingLedger \<Rightarrow> goroutine" where
  "begin_call (Op_Create now k x) l = Running (Op_Create now k x) None [Create now k x]"
| "begin_call (Op_Fund clk k x) l =
     (if accounts l k = None then Returned (Some ErrAccountNotFound)
      else Running (Op_Fund clk k x) None
        [Acquire k, Update k (credit_online (clk 0) x), Release k,
         NextID \<lparr>EntryID = 0, le_TxID = ''FUND-'' @ k @ ''-'' @ show_int64 (UnixNano (clk 1)),
           le_Type = EntryCommit, DebitAcc = ''SYSTEM_CAPITAL'', CreditAcc = k,
           le_Amount = x, le_Timestamp = clk 2,
           Description = ''Funded '' @ show_int64 x @ '' cents to '' @ k\<rparr>])"
| "begin_call (Op_Allocate clk k x) l =
     (if sint x \<le> 0 then Returned (Some ErrInvalidAmount)
      else if accounts l k = None then Returned (Some ErrAccountNotFound)
      else Running (Op_Allocate clk k x) None
        [Acquire k, Guard Online k x ErrInsufficientFunds,
         Update k (\<lambda>a. a\<lparr>OnlineAvailable := OnlineAvailable a - x,
                         AvailableBalance := OnlineAvailable a - x,
                         OfflineAllowance := OfflineAllowance a + x,
                         Version := Version a + 1, UpdatedAt := clk 0\<rparr>),
         NextID \<lparr>EntryID = 0, le_TxID = ''ALLOC-'' @ k @ ''-'' @ show_int64 (UnixNano (clk 1)),
           le_Type = EntryReserve, DebitAcc = k @ ''_ONLINE'', CreditAcc = k @ ''_OFFLINE'',
           le_Amount = x, le_Timestamp = clk 2,
           Description = ''Pre-reserved '' @ show_int64 x @ '' cents to OfflineAllowance''\<rparr>,
         Release k])"
| "begin_call (Op_CommitOffline clk a d x t) l =
     (if sint x \<le> 0 then Returned (Some ErrInvalidAmount)
      else if accounts l a = None then Returned (Some ErrAccountNotFound)
      else Running (Op_CommitOffline clk a d x t) None
        (create_missing (clk 0) d l @ lock_pair a d @
         [Guard Offline a x ErrInsufficientFunds,
          Update a (\<lambda>a. a\<lparr>OfflineAllowance := OfflineAllowance a - x,
                          Version := Version a + 1, UpdatedAt := clk 1\<rparr>),
          Update d (credit_online (clk 2) x),
          NextID \<lparr>EntryID = 0, le_TxID = t, le_Type = EntryCommit, DebitAcc = a @ ''_OFFLINE'',
            CreditAcc = d, le_Amount = x, le_Timestamp = clk 3,
            Description = ''Settled '' @ show_int64 x @ '' cents from OfflineAllowance to '' @ d\<rparr>] @
         unlock_pair a d))"
| "begin_call (Op_DebitDeficit clk d x t) l =
     (let reserveID = DeficitReserveAccountID l in
      if sint x \<le> 0 then Returned (Some ErrInvalidAmount)
      else Running (Op_DebitDeficit clk d x t) None
        (create_missing (clk 0) reserveID l @ create_missing (clk 1) d l @
         [Acquire reserveID, Acquire d,
          Update reserveID (debit_online (clk 2) x), Update d (credit_online (clk 3) x),
          NextID \<lparr>EntryID = 0, le_TxID = t, le_Type = EntryDeficit, DebitAcc = reserveID, CreditAcc = d,
            le_Amount = x, le_Timestamp = clk 4,
            Description = ''Deficit liability of '' @ show_int64 x @ '' cents charged to reserve for tx '' @ t\<rparr>,
          Release d, Release reserveID]))"
| "begin_call (Op_Reserve clk a x t) l =
     (if sint x \<le> 0 then Returned (Some ErrInvalidAmount)
      else if accounts l a = None then Returned (Some ErrAccountNotFound)
      else let resID = ''RES-'' @ t @ ''-'' @ show_int64 (UnixNano (clk 1)) in
        Running (Op_Reserve clk a x t) None
          [Acquire a, Guard Online a x ErrInsufficientFunds,
           Update a (\<lambda>a. a\<lparr>OnlineAvailable := OnlineAvailable a - x,
                           AvailableBalance := OnlineAvailable a - x,
                           ReservedBalance := ReservedBalance a + x,
                           Version := Version a + 1, UpdatedAt := clk 0\<rparr>),
           Hold resID \<lparr>ReservationID = resID, res_AccountID = a, res_Amount = x, res_CreatedAt = clk 2\<rparr>,
           NextID \<lparr>EntryID = 0, le_TxID = t, le_Type = EntryReserve, DebitAcc = a,
             CreditAcc = EscrowAccountID l, le_Amount = x, le_Timestamp = clk 3,
             Description = ''Funds reserved under '' @ resID\<rparr>,
           Release a])"
| "begin_call (Op_CommitHold clk a d x t) l =
     (if sint x \<le> 0 then Returned (Some ErrInvalidAmount)
      else if accounts l a = None then Returned (Some ErrAccountNotFound)
      else Running (Op_CommitHold clk a d x t) None
        (create_missing (clk 0) d l @ lock_pair a d @
         [Guard Reserved a x ErrHoldMismatch,
          Update a (\<lambda>a. a\<lparr>ReservedBalance := ReservedBalance a - x,
                          Version := Version a + 1, UpdatedAt := clk 1\<rparr>),
          Update d (credit_online (clk 2) x),
          NextID \<lparr>EntryID = 0, le_TxID = t, le_Type = EntryCommit, DebitAcc = EscrowAccountID l,
            CreditAcc = d, le_Amount = x, le_Timestamp = clk 3,
            Description = ''Settlement committed to '' @ d\<rparr>] @
         unlock_pair a d))"
| "begin_call (Op_Direct clk a d x t) l =
     (if sint x \<le> 0 then Returned (Some ErrInvalidAmount)
      else if accounts l a = None then Returned (Some ErrAccountNotFound)
      else Running (Op_Direct clk a d x t) None
        (create_missing (clk 0) d l @ lock_pair a d @
         [Guard Online a x ErrInsufficientFunds,
          Update a (debit_online (clk 1) x), Update d (credit_online (clk 2) x),
          NextID \<lparr>EntryID = 0, le_TxID = t, le_Type = EntryCommit, DebitAcc = a,
            CreditAcc = d, le_Amount = x, le_Timestamp = clk 3,
            Description = ''Direct authorization committed to '' @ d\<rparr>] @
         unlock_pair a d))"
| "begin_call (Op_Release clk a x t) l =
     (if accounts l a = None then Returned (Some ErrAccountNotFound)
      else Running (Op_Release clk a x t) None
        [Acquire a, Guard Reserved a x ErrHoldMismatch,
         Update a (\<lambda>a. a\<lparr>ReservedBalance := ReservedBalance a - x,
                         OnlineAvailable := OnlineAvailable a + x,
                         AvailableBalance := OnlineAvailable a + x,
                         Version := Version a + 1, UpdatedAt := clk 0\<rparr>),
         NextID \<lparr>EntryID = 0, le_TxID = t, le_Type = EntryRelease, DebitAcc = EscrowAccountID l,
           CreditAcc = a, le_Amount = x, le_Timestamp = clk 1,
           Description = ''Hold released for tx '' @ t\<rparr>,
         Release a])"
| "begin_call (Op_RecordDeficit clk a d x t) l =
     Running (Op_RecordDeficit clk a d x t) None
       (create_missing (clk 0) a l @ create_missing (clk 1) d l @
        [Acquire a, Acquire d,
         Update a (debit_online (clk 2) x), Update d (credit_online (clk 3) x),
         NextID \<lparr>EntryID = 0, le_TxID = t, le_Type = EntryDeficit, DebitAcc = a, CreditAcc = d,
           le_Amount = x, le_Timestamp = clk 4,
           Description = ''Deficit settlement committed for partition tx '' @ t\<rparr>,
         Release d, Release a])"

section \<open>Steps\<close>

definition goto :: "nat \<Rightarrow> goroutine \<Rightarrow> ledger_system \<Rightarrow> ledger_system" where
  "goto i g s = s\<lparr>pool := (pool s)[i := g]\<rparr>"

fun is_Auditing :: "goroutine \<Rightarrow> bool" where
  "is_Auditing (Auditing ks av rs) = True"
| "is_Auditing _ = False"

text \<open>\<open>FundAccount\<close> takes \<open>accountsLock\<close> for writing where the other calls take it for reading.\<close>

fun write_lookup :: "ledger_op \<Rightarrow> bool" where
  "write_lookup (Op_Fund clk k x) = True"
| "write_lookup _ = False"

fun is_Release :: "instr \<Rightarrow> bool" where
  "is_Release (Release k) = True"
| "is_Release _ = False"

text \<open>\<open>None\<close>: the goroutine waits for a lock.\<close>

fun exec_instr :: "nat \<Rightarrow> ledger_op \<Rightarrow> ledger_error option \<Rightarrow> instr \<Rightarrow> instr list \<Rightarrow> ledger_system \<Rightarrow> ledger_system option" where
  "exec_instr i op r (Create now k x) is s =
     (if list_ex is_Auditing (pool s) then None
      else Some (goto i (Running op r is) (s\<lparr>shared := CreateAccount now k x (shared s)\<rparr>)))"
| "exec_instr i op r (Acquire k) is s =
     (if mutex s k = None then Some (goto i (Running op r is) (s\<lparr>mutex := (mutex s)(k \<mapsto> i)\<rparr>)) else None)"
| "exec_instr i op r (Guard c k x e) is s =
     (case accounts (shared s) k of
        None \<Rightarrow> None
      | Some a \<Rightarrow>
          if sint (bucket_of c a) < sint x
          then Some (goto i (Running op (Some e) (dropWhile (\<lambda>ins. \<not> is_Release ins) is)) s)
          else Some (goto i (Running op r is) s))"
| "exec_instr i op r (Update k f) is s = Some (goto i (Running op r is) (s\<lparr>shared := upd_acc k f (shared s)\<rparr>))"
| "exec_instr i op r (Hold resID res) is s =
     Some (goto i (Running op r is)
       (s\<lparr>shared := (shared s)\<lparr>reservations := (reservations (shared s))(resID \<mapsto> res)\<rparr>\<rparr>))"
| "exec_instr i op r (NextID e) is s =
     (let n = entryCounter (shared s) + 1 in
      Some (goto i (Running op r (Push (e\<lparr>EntryID := n\<rparr>) # is)) (s\<lparr>shared := (shared s)\<lparr>entryCounter := n\<rparr>\<rparr>)))"
| "exec_instr i op r (Push e) is s =
     Some (goto i (Running op r is) (s\<lparr>shared := (shared s)\<lparr>entries := entries (shared s) @ [e]\<rparr>\<rparr>))"
| "exec_instr i op r (Release k) is s = Some (goto i (Running op r is) (s\<lparr>mutex := (mutex s)(k := None)\<rparr>))"

definition goroutine_step :: "nat \<Rightarrow> ledger_system \<Rightarrow> ledger_system option" where
  "goroutine_step i s =
     (if i < length (pool s) then
        (case pool s ! i of
           Call op \<Rightarrow>
             (if write_lookup op \<and> list_ex is_Auditing (pool s) then None
              else Some (goto i (begin_call op (shared s)) s))
         | Running op r [] \<Rightarrow> Some (goto i (Returned r) s)
         | Running op r (ins # is) \<Rightarrow> exec_instr i op r ins is s
         | Auditing [] av rs \<Rightarrow> Some (goto i (Audited av rs (av + rs) (length (entries (shared s)))) s)
         | Auditing (k # ks) av rs \<Rightarrow>
             (if mutex s k = None then
                (case accounts (shared s) k of
                   None \<Rightarrow> Some (goto i (Auditing ks av rs) s)
                 | Some a \<Rightarrow> Some (goto i (Auditing ks (av + (OnlineAvailable a + OfflineAllowance a)) (rs + ReservedBalance a)) s))
              else None)
         | _ \<Rightarrow> None)
      else None)"

text \<open>A step of the system; an audit may visit the accounts in any order.\<close>

inductive sched_step :: "ledger_system \<Rightarrow> ledger_system \<Rightarrow> bool" where
  go: "goroutine_step i s = Some s' \<Longrightarrow> sched_step s s'"
| audit: "i < length (pool s) \<Longrightarrow> pool s ! i = CallAudit \<Longrightarrow> distinct ks \<Longrightarrow> set ks = account_names (shared s)
    \<Longrightarrow> sched_step s (goto i (Auditing ks 0 0) s)"

inductive_cases sched_stepE: "sched_step s s'"

fun finished :: "goroutine \<Rightarrow> bool" where
  "finished (Returned r) = True"
| "finished (Audited av rs tot n) = True"
| "finished _ = False"

text \<open>Goroutines that are about to make their calls on a ledger whose locks are free.\<close>

definition launch :: "goroutine list \<Rightarrow> ConservingLedger \<Rightarrow> ledger_system" where
  "launch gs l = \<lparr>pool = gs, mutex = Map.empty, shared = l\<rparr>"

text \<open>Running a given schedule of goroutines; \<open>None\<close> when one of them cannot move.\<close>

fun run_schedule :: "nat list \<Rightarrow> ledger_system \<Rightarrow> ledger_system option" where
  "run_schedule [] s = Some s"
| "run_schedule (i # is) s = (case goroutine_step i s of None \<Rightarrow> None | Some s' \<Rightarrow> run_schedule is s')"

end
