(* ===== verification/Ledger_Serial.thy ===== *)
theory Ledger_Serial
  imports Ledger_Threads Ledger_Props
begin

text \<open>
  Serializability of concurrent ledger calls. A goroutine that has acquired all its locks is
  \<^emph>\<open>entered\<close>: what it still does depends only on accounts it holds. Its call takes effect, in the serial
  order, at that moment; the serial accounts are the shared ones with the rest of every entered goroutine
  done. Here are the code of a call against the atomic call and what the rest of a call depends on.
\<close>

section \<open>The rest of a call\<close>

fun takes_lock :: "instr \<Rightarrow> bool" where
  "takes_lock (Create now k x) = True"
| "takes_lock (Acquire k) = True"
| "takes_lock _ = False"

definition entered :: "instr list \<Rightarrow> bool" where
  "entered is \<longleftrightarrow> list_all (\<lambda>ins. \<not> takes_lock ins) is"

type_synonym account_map = "string \<rightharpoonup> Account"

text \<open>Whether a guard lets the call go on.\<close>

definition passes :: "bucket \<Rightarrow> string \<Rightarrow> int64 \<Rightarrow> account_map \<Rightarrow> bool" where
  "passes c k x m = (case m k of None \<Rightarrow> False | Some a \<Rightarrow> \<not> sint (bucket_of c a) < sint x)"

definition touch :: "string \<Rightarrow> (Account \<Rightarrow> Account) \<Rightarrow> account_map \<Rightarrow> account_map" where
  "touch k f m = m(k := map_option f (m k))"

lemma touch_apply: "touch k f m j = (if j = k then map_option f (m k) else m j)"
  by (simp add: touch_def)

text \<open>What the rest of a call does to the accounts, returns, and posts.\<close>

fun eff :: "instr list \<Rightarrow> account_map \<Rightarrow> account_map" where
  "eff [] m = m"
| "eff (Update k f # is) m = eff is (touch k f m)"
| "eff (Guard c k x e # is) m = (if passes c k x m then eff is m else m)"
| "eff (_ # is) m = eff is m"

fun outcome :: "ledger_error option \<Rightarrow> instr list \<Rightarrow> account_map \<Rightarrow> ledger_error option" where
  "outcome r [] m = r"
| "outcome r (Update k f # is) m = outcome r is (touch k f m)"
| "outcome r (Guard c k x e # is) m = (if passes c k x m then outcome r is m else Some e)"
| "outcome r (_ # is) m = outcome r is m"

definition unnumbered :: "LedgerEntry \<Rightarrow> LedgerEntry" where
  "unnumbered e = e\<lparr>EntryID := 0\<rparr>"

fun postings :: "instr list \<Rightarrow> account_map \<Rightarrow> LedgerEntry list" where
  "postings [] m = []"
| "postings (Update k f # is) m = postings is (touch k f m)"
| "postings (Guard c k x e # is) m = (if passes c k x m then postings is m else [])"
| "postings (NextID e # is) m = unnumbered e # postings is m"
| "postings (Push e # is) m = unnumbered e # postings is m"
| "postings (_ # is) m = postings is m"

text \<open>
  Well-formed code for a goroutine that holds the mutexes \<open>H\<close>: two-phase, touching only accounts it holds,
  holding none at the end; after a guard that fails only unlocking is left.
\<close>

fun code_wf :: "string set \<Rightarrow> instr list \<Rightarrow> bool" where
  "code_wf H [] = (H = {})"
| "code_wf H (Create now k x # is) = (H = {} \<and> code_wf H is)"
| "code_wf H (Acquire k # is) = (k \<notin> H \<and> code_wf (insert k H) is)"
| "code_wf H (Guard c k x e # is) =
     (k \<in> H \<and> entered is \<and> list_all is_Release (dropWhile (\<lambda>ins. \<not> is_Release ins) is) \<and> code_wf H is)"
| "code_wf H (Update k f # is) = (k \<in> H \<and> entered is \<and> code_wf H is)"
| "code_wf H (Release k # is) = (k \<in> H \<and> entered is \<and> code_wf (H - {k}) is)"
| "code_wf H (_ # is) = (entered is \<and> code_wf H is)"

lemma entered_simps [simp]:
  "entered []" "entered (ins # is) \<longleftrightarrow> \<not> takes_lock ins \<and> entered is" "entered (is @ js) \<longleftrightarrow> entered is \<and> entered js"
  by (simp_all add: entered_def)

lemma unnumbered_simps [simp]: "unnumbered (e\<lparr>EntryID := n\<rparr>) = unnumbered e"
  by (simp add: unnumbered_def)

lemma eff_frame:
  "code_wf H is \<Longrightarrow> entered is \<Longrightarrow> k \<notin> H \<Longrightarrow> eff is m k = m k"
proof (induction "is" arbitrary: H m)
  case (Cons ins "is")
  then show ?case by (cases ins) (auto simp: touch_apply)
qed simp

lemma eff_None [simp]: "eff is m k = None \<longleftrightarrow> m k = None"
proof (induction "is" arbitrary: m)
  case (Cons ins "is")
  then show ?case by (cases ins) (auto simp: touch_apply)
qed simp

text \<open>The rest of a call depends only on the accounts that the goroutine holds.\<close>

lemma passes_cong: "m k = m' k \<Longrightarrow> passes c k x m = passes c k x m'"
  by (simp add: passes_def)

lemma rest_local:
  assumes "code_wf H is" and "entered is" and "\<And>k. k \<in> H \<Longrightarrow> m k = m' k"
  shows "(\<forall>k\<in>H. eff is m k = eff is m' k) \<and> outcome r is m = outcome r is m' \<and> postings is m = postings is m'"
  using assms
proof (induction "is" arbitrary: H m m')
  case (Cons ins "is")
  show ?case
  proof (cases ins)
    case (Guard c k x e)
    then have "passes c k x m = passes c k x m'" using Cons.prems by (intro passes_cong) auto
    moreover note Cons.IH[of H m m']
    ultimately show ?thesis using Cons.prems Guard by auto
  next
    case (Update k f)
    have "touch k f m j = touch k f m' j" if "j \<in> H" for j
      using Cons.prems(3)[OF that] by (auto simp: touch_apply)
    with Cons.IH[of H "touch k f m" "touch k f m'"] show ?thesis using Cons.prems Update by auto
  next
    case (Release k)
    have "eff is m k = m k" "eff is m' k = m' k"
      using Cons.prems Release eff_frame[of "H - {k}" "is" k] by auto
    with Cons.IH[of "H - {k}" m m'] Cons.prems Release show ?thesis by auto
  qed (use Cons.IH[of H m m'] Cons.prems in auto)
qed simp

text \<open>After a failed guard only unlocking is left.\<close>

lemma releases_only:
  "list_all is_Release is \<Longrightarrow> eff is m = m \<and> outcome r is m = r \<and> postings is m = [] \<and> entered is"
proof (induction "is")
  case (Cons ins "is")
  then show ?case by (cases ins) auto
qed simp

lemma code_wf_dropWhile:
  "code_wf H is \<Longrightarrow> entered is \<Longrightarrow> code_wf H (dropWhile (\<lambda>ins. \<not> is_Release ins) is)"
proof (induction "is")
  case (Cons ins "is")
  then show ?case by (cases ins) auto
qed simp

section \<open>The code of a call against the atomic call\<close>

fun op_error :: "ledger_op \<Rightarrow> ConservingLedger \<Rightarrow> ledger_error option" where
  "op_error (Op_Create now k x) l = None"
| "op_error (Op_Fund clk k x) l = fst (FundAccount clk k x l)"
| "op_error (Op_Allocate clk k x) l = fst (AllocateOfflineAllowance clk k x l)"
| "op_error (Op_CommitOffline clk a d x t) l = fst (CommitOfflineAllowance clk a d x t l)"
| "op_error (Op_DebitDeficit clk d x t) l = (case DebitDeficitReserve clk d x t l of None \<Rightarrow> None | Some (e, l') \<Rightarrow> e)"
| "op_error (Op_Reserve clk a x t) l = (case fst (ReserveFunds clk a x t l) of Inl e \<Rightarrow> Some e | Inr resID \<Rightarrow> None)"
| "op_error (Op_CommitHold clk a d x t) l = fst (CommitHold clk a d x t l)"
| "op_error (Op_Direct clk a d x t) l = fst (DirectCommit clk a d x t l)"
| "op_error (Op_Release clk a x t) l = fst (ReleaseHold clk a x t l)"
| "op_error (Op_RecordDeficit clk a d x t) l = (case RecordDeficit clk a d x t l of None \<Rightarrow> None | Some (e, l') \<Rightarrow> e)"

fun is_Create :: "ledger_op \<Rightarrow> bool" where
  "is_Create (Op_Create now k x) = True"
| "is_Create _ = False"

text \<open>The calls that lock one account twice, where \<open>r\<close> is the deficit reserve.\<close>

fun self_locking :: "string \<Rightarrow> ledger_op \<Rightarrow> bool" where
  "self_locking r (Op_DebitDeficit clk d x t) = (d = r)"
| "self_locking r (Op_RecordDeficit clk a d x t) = (a = d)"
| "self_locking r _ = False"

definition same_ids :: "ConservingLedger \<Rightarrow> ConservingLedger \<Rightarrow> bool" where
  "same_ids l l' \<longleftrightarrow> EscrowAccountID l' = EscrowAccountID l \<and> DeficitReserveAccountID l' = DeficitReserveAccountID l"

text \<open>
  \<open>plan op l ks b\<close>: the call locks \<open>ks\<close> in this order and then runs \<open>b\<close>, whenever it is made on a ledger
  that has these accounts.
\<close>

definition plan :: "ledger_op \<Rightarrow> ConservingLedger \<Rightarrow> string list \<Rightarrow> instr list \<Rightarrow> bool" where
  "plan op l ks b \<longleftrightarrow> ks \<noteq> [] \<and> distinct ks \<and> entered b \<and> code_wf (set ks) b \<and>
     (\<forall>l'. same_ids l l' \<longrightarrow> set ks \<subseteq> account_names l' \<longrightarrow> begin_call op l' = Running op None (map Acquire ks @ b))"

fun zero_create :: "instr \<Rightarrow> bool" where
  "zero_create (Create now k x) = (x = 0)"
| "zero_create _ = False"

fun created_by :: "instr \<Rightarrow> string set" where
  "created_by (Create now k x) = {k}"
| "created_by _ = {}"

lemma map_Acquire_unique:
  "map Acquire ks @ b = map Acquire ks' @ b' \<Longrightarrow> entered b \<Longrightarrow> entered b' \<Longrightarrow> ks = ks' \<and> b = b'"
proof (induction ks arbitrary: ks')
  case Nil
  then show ?case by (cases ks') auto
next
  case (Cons k ks)
  then show ?case by (cases ks') auto
qed

lemma begin_call_cases:
  obtains (ret) r where "begin_call op l = Returned r" | (run) "is" where "begin_call op l = Running op None is"
proof -
  have "(\<exists>r. begin_call op l = Returned r) \<or> (\<exists>is. begin_call op l = Running op None is)"
    by (cases op) (simp_all add: Let_def)
  then show ?thesis using that by blast
qed

lemma begin_call_returned:
  "begin_call op l = Returned r \<Longrightarrow> exec_op op l = Some l \<and> op_error op l = r"
  by (cases op) (auto simp: op_defs Let_def split: if_splits option.splits)

lemma same_ids_refl [simp]: "same_ids l l"
  by (simp add: same_ids_def)

lemma create_missing_simps [simp]:
  "list_all zero_create (create_missing now k l)"
  "\<Union> (created_by ` set (create_missing now k l)) = (if accounts l k = None then {k} else {})"
  "k \<in> account_names l \<Longrightarrow> create_missing now k l = []"
  by (auto simp: create_missing_def account_names_def)

lemma lock_pair_map:
  obtains ks where "lock_pair a d = map Acquire ks" "set ks = {a, d}" "distinct ks" "sorted_wrt (<) ks" "ks \<noteq> []"
proof -
  let ?ks = "if a < d then [a, d] else if a > d then [d, a] else [a]"
  have "lock_pair a d = map Acquire ?ks" "set ?ks = {a, d}" "distinct ?ks" "sorted_wrt (<) ?ks" "?ks \<noteq> []"
    by (auto simp: lock_pair_def)
  then show ?thesis by (rule that)
qed

lemma unlock_pair_wf [simp]: "code_wf {a, d} (unlock_pair a d)" "entered (unlock_pair a d)" "list_all is_Release (unlock_pair a d)"
  "dropWhile (\<lambda>ins. \<not> is_Release ins) (unlock_pair a d) = unlock_pair a d"
  by (auto simp: unlock_pair_def)

text \<open>The shape of the code of a transfer between two accounts.\<close>

lemma pair_body:
  fixes c a d x e f g en
  defines "b \<equiv> [Guard c a x e, Update a f, Update d g, NextID en] @ unlock_pair a d"
  shows "entered b" "code_wf {a, d} b"
  by (simp_all add: b_def)

lemma begin_plan:
  assumes "begin_call op l = Running op' r is" and "\<not> is_Create op" and "\<not> self_locking (DeficitReserveAccountID l) op"
  obtains cs ks b where "op' = op" "r = None" "is = cs @ map Acquire ks @ b" "list_all zero_create cs" "plan op l ks b"
    "set ks \<subseteq> account_names l \<union> \<Union> (created_by ` set cs)"
proof (cases op)
  case (Op_CommitOffline clk a d x t)
  obtain ks where "lock_pair a d = map Acquire ks" "set ks = {a, d}" "distinct ks" "ks \<noteq> []"
    by (rule lock_pair_map[of a d])
  then show ?thesis
    using assms Op_CommitOffline pair_body
    by (intro that[of "create_missing (clk 0) d l" ks]) (auto simp: plan_def account_names_iff split: if_splits)
next
  case (Op_CommitHold clk a d x t)
  obtain ks where "lock_pair a d = map Acquire ks" "set ks = {a, d}" "distinct ks" "ks \<noteq> []"
    by (rule lock_pair_map[of a d])
  then show ?thesis
    using assms Op_CommitHold pair_body
    by (intro that[of "create_missing (clk 0) d l" ks]) (auto simp: plan_def account_names_iff same_ids_def split: if_splits)
next
  case (Op_Direct clk a d x t)
  obtain ks where "lock_pair a d = map Acquire ks" "set ks = {a, d}" "distinct ks" "ks \<noteq> []"
    by (rule lock_pair_map[of a d])
  then show ?thesis
    using assms Op_Direct pair_body
    by (intro that[of "create_missing (clk 0) d l" ks]) (auto simp: plan_def account_names_iff split: if_splits)
next
  case (Op_Fund clk k x)
  then show ?thesis using assms
    by (intro that[of "[]" "[k]"]) (auto simp: plan_def account_names_iff split: if_splits)
next
  case (Op_Allocate clk k x)
  then show ?thesis using assms
    by (intro that[of "[]" "[k]"]) (auto simp: plan_def account_names_iff split: if_splits)
next
  case (Op_Reserve clk a x t)
  then show ?thesis using assms
    by (intro that[of "[]" "[a]"]) (auto simp: plan_def account_names_iff same_ids_def Let_def split: if_splits)
next
  case (Op_Release clk a x t)
  then show ?thesis using assms
    by (intro that[of "[]" "[a]"]) (auto simp: plan_def account_names_iff same_ids_def split: if_splits)
next
  case (Op_DebitDeficit clk d x t)
  let ?r = "DeficitReserveAccountID l"
  show ?thesis using assms Op_DebitDeficit
    by (intro that[of "create_missing (clk 0) ?r l @ create_missing (clk 1) d l" "[?r, d]"])
      (auto simp: plan_def account_names_iff same_ids_def Let_def split: if_splits)
next
  case (Op_RecordDeficit clk a d x t)
  then show ?thesis using assms
    by (intro that[of "create_missing (clk 0) a l @ create_missing (clk 1) d l" "[a, d]"])
      (auto simp: plan_def account_names_iff split: if_splits)
qed (use assms in auto)

text \<open>\<open>matches op l b\<close>: the atomic call on \<open>l\<close> does what the code \<open>b\<close> does.\<close>

definition matches :: "ledger_op \<Rightarrow> ConservingLedger \<Rightarrow> instr list \<Rightarrow> bool" where
  "matches op l b \<longleftrightarrow> (\<exists>l'. exec_op op l = Some l' \<and> accounts l' = eff b (accounts l) \<and>
     op_error op l = outcome None b (accounts l) \<and>
     map unnumbered (entries l') = map unnumbered (entries l) @ postings b (accounts l) \<and> same_ids l l')"

lemma entries_upd [simp]:
  "entries (upd_acc k f l) = entries l" "same_ids l (upd_acc k f l')  = same_ids l l'"
  "same_ids l (appendEntry e l') = same_ids l l'" "same_ids l (l'\<lparr>reservations := r\<rparr>) = same_ids l l'"
  "entries (appendEntry e l) = entries l @ [e\<lparr>EntryID := entryCounter l + 1\<rparr>]"
  by (simp_all add: upd_acc_def appendEntry_def Let_def same_ids_def)

lemma eff_unlock [simp]:
  "eff (unlock_pair a d) m = m" "outcome r (unlock_pair a d) m = r" "postings (unlock_pair a d) m = []"
  by (simp_all add: unlock_pair_def)

lemma CreateAccount_present: "k \<in> account_names l \<Longrightarrow> CreateAccount now k x l = l"
  by (auto simp: CreateAccount_def account_names_def)

lemma dropWhile_lock_pair [simp]:
  "\<not> takes_lock ins \<Longrightarrow> dropWhile takes_lock (lock_pair a d @ ins # is) = ins # is"
  "set (lock_pair a d) = {Acquire a, Acquire d}"
  by (auto simp: lock_pair_def)

lemma dropWhile_acquires: "entered b \<Longrightarrow> dropWhile takes_lock (map Acquire ks @ b) = b"
  by (induction ks) (cases b; auto)+

lemma begin_matches:
  assumes "begin_call op l = Running op None is" and "\<not> is_Create op" and "\<not> self_locking (DeficitReserveAccountID l) op"
    and "\<And>k. Acquire k \<in> set is \<Longrightarrow> k \<in> account_names l"
  shows "matches op l (dropWhile takes_lock is)"
proof -
  have ex: "\<exists>a. accounts l k = Some a" if "Acquire k \<in> set is" for k
    using assms(4)[OF that] by (auto simp: account_names_def)
  show ?thesis
  proof (cases op)
    case (Op_CommitOffline clk a d x t)
    then have "a \<in> account_names l" "d \<in> account_names l" using assms(1,4) by (auto split: if_splits)
    with Op_CommitOffline assms(1) ex[of a] show ?thesis
      by (auto simp: matches_def unnumbered_def op_defs CreateAccount_present passes_def touch_def split: if_splits)
  next
    case (Op_CommitHold clk a d x t)
    then have "a \<in> account_names l" "d \<in> account_names l" using assms(1,4) by (auto split: if_splits)
    with Op_CommitHold assms(1) ex[of a] show ?thesis
      by (auto simp: matches_def unnumbered_def op_defs CreateAccount_present passes_def touch_def split: if_splits)
  next
    case (Op_Direct clk a d x t)
    then have "a \<in> account_names l" "d \<in> account_names l" using assms(1,4) by (auto split: if_splits)
    with Op_Direct assms(1) ex[of a] show ?thesis
      by (auto simp: matches_def unnumbered_def op_defs CreateAccount_present passes_def touch_def split: if_splits)
  next
    case (Op_Fund clk k x)
    with assms(1) ex[of k] show ?thesis
      by (auto simp: matches_def unnumbered_def op_defs passes_def touch_def split: if_splits)
  next
    case (Op_Allocate clk k x)
    with assms(1) ex[of k] show ?thesis
      by (auto simp: matches_def unnumbered_def op_defs passes_def touch_def split: if_splits)
  next
    case (Op_Reserve clk a x t)
    with assms(1) ex[of a] show ?thesis
      by (auto simp: matches_def unnumbered_def op_defs passes_def touch_def Let_def split: if_splits)
  next
    case (Op_Release clk a x t)
    with assms(1) ex[of a] show ?thesis
      by (auto simp: matches_def unnumbered_def op_defs passes_def touch_def split: if_splits)
  next
    case (Op_DebitDeficit clk d x t)
    define r where "r = DeficitReserveAccountID l"
    have x: "\<not> sint x \<le> 0" using assms(1) Op_DebitDeficit by (auto simp: Let_def split: if_splits)
    have "Acquire r \<in> set is" "Acquire d \<in> set is" using assms(1) Op_DebitDeficit x by (auto simp: Let_def r_def)
    then have names: "r \<in> account_names l" "d \<in> account_names l" by (auto intro: assms(4))
    have ne: "d \<noteq> r" "r \<noteq> d" using assms(3) Op_DebitDeficit by (auto simp: r_def)
    from names have "is = [Acquire r, Acquire d, Update r (debit_online (clk 2) x), Update d (credit_online (clk 3) x),
        NextID \<lparr>EntryID = 0, le_TxID = t, le_Type = EntryDeficit, DebitAcc = r, CreditAcc = d,
          le_Amount = x, le_Timestamp = clk 4,
          Description = ''Deficit liability of '' @ show_int64 x @ '' cents charged to reserve for tx '' @ t\<rparr>,
        Release d, Release r]"
      using assms(1) Op_DebitDeficit x by (simp add: Let_def r_def)
    with names ne x Op_DebitDeficit show ?thesis
      by (simp add: matches_def unnumbered_def op_defs CreateAccount_present touch_def Let_def flip: r_def)
  next
    case (Op_RecordDeficit clk a d x t)
    then have "Acquire a \<in> set is" "Acquire d \<in> set is" using assms(1) by auto
    then have names: "a \<in> account_names l" "d \<in> account_names l" by (auto intro: assms(4))
    have ne: "a \<noteq> d" "d \<noteq> a" using assms(3) Op_RecordDeficit by auto
    from names have "is = [Acquire a, Acquire d, Update a (debit_online (clk 2) x), Update d (credit_online (clk 3) x),
        NextID \<lparr>EntryID = 0, le_TxID = t, le_Type = EntryDeficit, DebitAcc = a, CreditAcc = d,
          le_Amount = x, le_Timestamp = clk 4, Description = ''Deficit settlement committed for partition tx '' @ t\<rparr>,
        Release d, Release a]"
      using assms(1) Op_RecordDeficit by simp
    with names ne Op_RecordDeficit show ?thesis
      by (simp add: matches_def unnumbered_def op_defs CreateAccount_present touch_def Let_def)
  qed (use assms in auto)
qed

lemma plan_matches:
  assumes "plan op l0 ks b" and "same_ids l0 l" and "set ks \<subseteq> account_names l"
    and "\<not> is_Create op" and "\<not> self_locking (DeficitReserveAccountID l) op"
  shows "matches op l b"
proof -
  have "begin_call op l = Running op None (map Acquire ks @ b)" and b: "entered b"
    using assms by (auto simp: plan_def)
  moreover have "Acquire k \<notin> set b" for k using b by (auto simp: entered_def list_all_iff)
  ultimately show ?thesis
    using begin_matches[of op l "map Acquire ks @ b"] assms dropWhile_acquires[OF b, of ks] by auto
qed

end
