(* ===== verification/Ledger_Interleaving.thy ===== *)
theory Ledger_Interleaving
  imports Ledger_Serial
begin

text \<open>
  The simulation behind serializability: every state of concurrent calls is tied to a serial history of
  atomic calls whose ledger has the serial accounts of the state.
\<close>

section \<open>Serial histories\<close>

text \<open>
  The calls of the goroutines in a serial order, with what each returns. \<open>CreateAccount\<close> for a missing
  destination is a step of its own, as it is in the code.
\<close>

inductive serial :: "ConservingLedger \<Rightarrow> (nat option \<times> ledger_op) list \<Rightarrow> (nat \<rightharpoonup> ledger_error option) \<Rightarrow> ConservingLedger \<Rightarrow> bool"
  for l0 where
  start: "serial l0 [] Map.empty l0"
| helper: "serial l0 h outs l \<Longrightarrow> serial l0 (h @ [(None, Op_Create now k 0)]) outs (CreateAccount now k 0 l)"
| call: "serial l0 h outs l \<Longrightarrow> outs i = None \<Longrightarrow> exec_op op l = Some l'
    \<Longrightarrow> serial l0 (h @ [(Some i, op)]) (outs(i \<mapsto> op_error op l)) l'"

definition owned :: "ledger_system \<Rightarrow> nat \<Rightarrow> string set" where
  "owned s i = {k. mutex s k = Some i}"

fun rest_of :: "goroutine \<Rightarrow> account_map \<Rightarrow> account_map" where
  "rest_of (Running op r is) m = (if entered is then eff is m else m)"
| "rest_of _ m = m"

fun posts_of :: "goroutine \<Rightarrow> account_map \<Rightarrow> LedgerEntry list" where
  "posts_of (Running op r is) m = (if entered is then postings is m else [])"
| "posts_of _ m = []"

definition serial_accounts :: "ledger_system \<Rightarrow> account_map" where
  "serial_accounts s k =
     (case mutex s k of
        None \<Rightarrow> accounts (shared s) k
      | Some i \<Rightarrow> rest_of (pool s ! i) (accounts (shared s)) k)"

section \<open>The invariant\<close>

text \<open>A goroutine that has not all its locks yet: what it still creates and locks, and what it runs then.\<close>

definition waiting :: "ConservingLedger \<Rightarrow> string set \<Rightarrow> ConservingLedger \<Rightarrow> ledger_op \<Rightarrow> instr list \<Rightarrow> bool" where
  "waiting l0 H l op is \<longleftrightarrow>
     (\<exists>now k x. op = Op_Create now k x \<and> is = [Create now k x]) \<or>
     (\<exists>cs ks ks' b. is = cs @ map Acquire ks' @ b \<and> list_all zero_create cs \<and> plan op l0 (ks @ ks') b \<and> H = set ks \<and>
        (cs \<noteq> [] \<longrightarrow> ks = []) \<and> set (ks @ ks') \<subseteq> account_names l \<union> \<Union> (created_by ` set cs) \<and>
        \<not> is_Create op \<and> \<not> self_locking (DeficitReserveAccountID l0) op)"

fun goroutine_ok :: "ConservingLedger \<Rightarrow> goroutine \<Rightarrow> ledger_error option option \<Rightarrow> string set \<Rightarrow> ConservingLedger \<Rightarrow> goroutine \<Rightarrow> bool" where
  "goroutine_ok l0 g out H l (Call op) =
     (g = Call op \<and> \<not> self_locking (DeficitReserveAccountID l0) op \<and> H = {} \<and> out = None)"
| "goroutine_ok l0 g out H l (Running op r is) =
     (g = Call op \<and> code_wf H is \<and>
      (if entered is then out = Some (outcome r is (accounts l)) else out = None \<and> r = None \<and> waiting l0 H l op is))"
| "goroutine_ok l0 g out H l (Returned r) = ((\<exists>op. g = Call op) \<and> H = {} \<and> out = Some r)"
| "goroutine_ok l0 g out H l _ = (g = CallAudit \<and> H = {} \<and> out = None)"

definition posted :: "ConservingLedger \<Rightarrow> LedgerEntry multiset" where
  "posted l = mset (map unnumbered (entries l))"

definition frame_ok :: "goroutine list \<Rightarrow> ConservingLedger \<Rightarrow> ledger_system \<Rightarrow> bool" where
  "frame_ok gs l0 s \<longleftrightarrow> length (pool s) = length gs \<and> same_ids l0 (shared s) \<and> finite (dom (mutex s)) \<and>
     (\<forall>k i. mutex s k = Some i \<longrightarrow> i < length gs \<and> k \<in> account_names (shared s))"

definition tied :: "goroutine list \<Rightarrow> ConservingLedger \<Rightarrow> ledger_system \<Rightarrow> (nat option \<times> ledger_op) list
    \<Rightarrow> (nat \<rightharpoonup> ledger_error option) \<Rightarrow> ConservingLedger \<Rightarrow> bool" where
  "tied gs l0 s h outs l \<longleftrightarrow>
     frame_ok gs l0 s \<and> serial l0 h outs l \<and> same_ids l0 l \<and> accounts l = serial_accounts s \<and>
     posted l = posted (shared s) + (\<Sum>i<length gs. mset (posts_of (pool s ! i) (accounts (shared s)))) \<and>
     (\<forall>i<length gs. goroutine_ok l0 (gs ! i) (outs i) (owned s i) (shared s) (pool s ! i)) \<and>
     (\<forall>i op. (Some i, op) \<in> set h \<longrightarrow> i < length gs \<and> gs ! i = Call op)"

section \<open>Frames\<close>

lemma waiting_mono:
  assumes "waiting l0 H l op is" and "account_names l \<subseteq> account_names l'"
  shows "waiting l0 H l' op is"
  using assms(1) unfolding waiting_def
proof (elim disjE exE conjE)
  fix cs ks ks' b
  assume *: "is = cs @ map Acquire ks' @ b" "list_all zero_create cs" "plan op l0 (ks @ ks') b" "H = set ks" "cs \<noteq> [] \<longrightarrow> ks = []"
    "set (ks @ ks') \<subseteq> account_names l \<union> \<Union> (created_by ` set cs)" "\<not> is_Create op" "\<not> self_locking (DeficitReserveAccountID l0) op"
  then have "set (ks @ ks') \<subseteq> account_names l' \<union> \<Union> (created_by ` set cs)" using assms(2) by blast
  with * show "(\<exists>now k x. op = Op_Create now k x \<and> is = [Create now k x]) \<or>
     (\<exists>cs ks ks' b. is = cs @ map Acquire ks' @ b \<and> list_all zero_create cs \<and> plan op l0 (ks @ ks') b \<and> H = set ks \<and>
        (cs \<noteq> [] \<longrightarrow> ks = []) \<and> set (ks @ ks') \<subseteq> account_names l' \<union> \<Union> (created_by ` set cs) \<and>
        \<not> is_Create op \<and> \<not> self_locking (DeficitReserveAccountID l0) op)" by blast
qed simp

lemma goroutine_ok_frame:
  assumes "goroutine_ok l0 g out H l g'" and "\<And>k. k \<in> H \<Longrightarrow> accounts l' k = accounts l k"
    and "account_names l \<subseteq> account_names l'"
  shows "goroutine_ok l0 g out H l' g'"
proof (cases g')
  case (Running op r "is")
  show ?thesis
  proof (cases "entered is")
    case True
    then show ?thesis
      using assms Running rest_local[of H "is" "accounts l'" "accounts l" r] by simp
  next
    case False
    with assms(1) Running show ?thesis by (simp add: waiting_mono[OF _ assms(3)])
  qed
qed (use assms in auto)

lemma rest_frame:
  assumes "goroutine_ok l0 g out H l g'" and "\<And>k. k \<in> H \<Longrightarrow> m k = m' k"
  shows "\<And>k. k \<in> H \<Longrightarrow> rest_of g' m k = rest_of g' m' k" and "posts_of g' m = posts_of g' m'"
proof -
  have "(\<forall>k\<in>H. rest_of g' m k = rest_of g' m' k) \<and> posts_of g' m = posts_of g' m'"
  proof (cases g')
    case (Running op r "is")
    then show ?thesis using assms rest_local[of H "is" m m'] by auto
  qed (use assms(2) in auto)
  then show "\<And>k. k \<in> H \<Longrightarrow> rest_of g' m k = rest_of g' m' k" "posts_of g' m = posts_of g' m'" by auto
qed

text \<open>One goroutine moves and touches only what no other goroutine holds.\<close>

definition moves :: "nat \<Rightarrow> goroutine \<Rightarrow> ledger_system \<Rightarrow> ledger_system \<Rightarrow> bool" where
  "moves i g s s' \<longleftrightarrow> pool s' = (pool s)[i := g] \<and> (\<forall>j. j \<noteq> i \<longrightarrow> owned s' j = owned s j) \<and>
     (\<forall>k j. mutex s k = Some j \<and> j \<noteq> i \<longrightarrow> accounts (shared s') k = accounts (shared s) k) \<and>
     account_names (shared s) \<subseteq> account_names (shared s') \<and> same_ids (shared s) (shared s') \<and>
     owned s' i \<subseteq> account_names (shared s') \<and> finite (owned s' i)"

lemma moves_mutex: "moves i g s s' \<Longrightarrow> j \<noteq> i \<Longrightarrow> mutex s' k = Some j \<longleftrightarrow> mutex s k = Some j"
  unfolding moves_def owned_def by blast

lemma moves_frame_ok:
  assumes "moves i g s s'" and "frame_ok gs l0 s" and "i < length gs"
  shows "frame_ok gs l0 s'"
proof -
  have "dom (mutex s') \<subseteq> dom (mutex s) \<union> owned s' i"
    using moves_mutex[OF assms(1)] by (fastforce simp: owned_def)
  then have "finite (dom (mutex s'))"
    using assms(1,2) by (auto simp: moves_def frame_ok_def intro: finite_subset)
  moreover have "j < length gs \<and> k \<in> account_names (shared s')" if "mutex s' k = Some j" for k j
    using that assms moves_mutex[OF assms(1), of j k]
    by (cases "j = i") (auto simp: moves_def frame_ok_def owned_def)
  ultimately show ?thesis using assms by (auto simp: moves_def frame_ok_def same_ids_def)
qed

lemma moves_serial_accounts:
  assumes "moves i g s s'" and "tied gs l0 s h outs l" and "i < length gs"
  shows "serial_accounts s' k =
    (if mutex s' k = Some i then rest_of g (accounts (shared s')) k
     else if mutex s' k = None then accounts (shared s') k else serial_accounts s k)"
proof (cases "mutex s' k")
  case (Some j)
  show ?thesis
  proof (cases "j = i")
    case False
    then have k: "mutex s k = Some j" using moves_mutex[OF assms(1)] Some by blast
    then have j: "j < length gs" "goroutine_ok l0 (gs ! j) (outs j) (owned s j) (shared s) (pool s ! j)"
      using assms(2) by (auto simp: tied_def frame_ok_def)
    have "accounts (shared s') k' = accounts (shared s) k'" if "k' \<in> owned s j" for k'
      using that assms(1) False by (auto simp: moves_def owned_def)
    then have "rest_of (pool s ! j) (accounts (shared s')) k = rest_of (pool s ! j) (accounts (shared s)) k"
      using rest_frame(1)[OF j(2), of "accounts (shared s')" "accounts (shared s)" k] k by (simp add: owned_def)
    then show ?thesis
      using Some False k assms(1) by (simp add: serial_accounts_def moves_def owned_def)
  qed (use Some assms in \<open>simp add: serial_accounts_def moves_def tied_def frame_ok_def\<close>)
qed (simp add: serial_accounts_def)

lemma tied_move:
  assumes mv: "moves i g s s'" and t: "tied gs l0 s h outs l" and i: "i < length gs"
    and ser: "serial l0 h' outs' l'" "same_ids l0 l'" "\<And>j. j \<noteq> i \<Longrightarrow> outs' j = outs j"
    and tag: "\<And>j op. (Some j, op) \<in> set h' \<Longrightarrow> (Some j, op) \<in> set h \<or> j = i \<and> gs ! i = Call op"
    and acc: "accounts l' = serial_accounts s'"
    and ent: "posted l' + posted (shared s) + mset (posts_of (pool s ! i) (accounts (shared s))) =
      posted l + posted (shared s') + mset (posts_of g (accounts (shared s')))"
    and ok: "goroutine_ok l0 (gs ! i) (outs' i) (owned s' i) (shared s') g"
  shows "tied gs l0 s' h' outs' l'"
proof -
  have len: "length (pool s) = length gs" using t by (simp add: tied_def frame_ok_def)
  let ?p = "\<lambda>s j. mset (posts_of (pool s ! j) (accounts (shared s)))"
  have other: "goroutine_ok l0 (gs ! j) (outs' j) (owned s' j) (shared s') (pool s' ! j) \<and> ?p s' j = ?p s j"
    if "j < length gs" "j \<noteq> i" for j
  proof -
    have okj: "goroutine_ok l0 (gs ! j) (outs j) (owned s j) (shared s) (pool s ! j)" using t that by (simp add: tied_def)
    have same: "accounts (shared s') k = accounts (shared s) k" if "k \<in> owned s j" for k
      using that \<open>j \<noteq> i\<close> mv by (auto simp: moves_def owned_def)
    have "goroutine_ok l0 (gs ! j) (outs j) (owned s j) (shared s') (pool s ! j)"
      by (rule goroutine_ok_frame[OF okj same]) (use mv in \<open>auto simp: moves_def\<close>)
    with rest_frame(2)[OF okj same] that ser(3) mv show ?thesis by (simp add: moves_def)
  qed
  have new: "pool s' ! i = g" using mv i len by (simp add: moves_def)
  let ?J = "{..<length gs} - {i}"
  have "(\<Sum>j\<in>?J. ?p s' j) = (\<Sum>j\<in>?J. ?p s j)" by (rule sum.cong) (use other in auto)
  then have "posted l' + posted (shared s) + (\<Sum>j<length gs. ?p s j) = posted l + posted (shared s') + (\<Sum>j<length gs. ?p s' j)"
    using ent new i by (simp add: sum.remove[of "{..<length gs}" i] ac_simps)
  moreover have "posted l = posted (shared s) + (\<Sum>j<length gs. ?p s j)" using t by (simp add: tied_def)
  ultimately have "posted l' = posted (shared s') + (\<Sum>j<length gs. ?p s' j)" by (simp add: ac_simps)
  moreover have "goroutine_ok l0 (gs ! j) (outs' j) (owned s' j) (shared s') (pool s' ! j)" if "j < length gs" for j
    using that other ok new by (cases "j = i") auto
  moreover have "frame_ok gs l0 s'" using moves_frame_ok[OF mv _ i] t by (simp add: tied_def)
  moreover have "(\<forall>j op. (Some j, op) \<in> set h' \<longrightarrow> j < length gs \<and> gs ! j = Call op)"
    using tag t i unfolding tied_def by blast
  ultimately show ?thesis using ser acc by (simp add: tied_def)
qed

section \<open>Steps that keep the serial ledger\<close>

lemma tied_silent:
  assumes "moves i g s s'" and "tied gs l0 s h outs l" and "i < length gs"
    and "serial_accounts s' = serial_accounts s"
    and "posted (shared s') + mset (posts_of g (accounts (shared s'))) =
      posted (shared s) + mset (posts_of (pool s ! i) (accounts (shared s)))"
    and "goroutine_ok l0 (gs ! i) (outs i) (owned s' i) (shared s') g"
  shows "tied gs l0 s' h outs l"
  using assms(2,4-) by (intro tied_move[OF assms(1-3)]) (auto simp: tied_def ac_simps)

lemma owned_simps [simp]:
  "owned (goto i g s) = owned s" "owned (s\<lparr>shared := l\<rparr>) = owned s" "mutex (goto i g s) = mutex s"
  "shared (goto i g s) = shared s" "pool (goto i g s) = (pool s)[i := g]"
  by (simp_all add: owned_def goto_def fun_eq_iff)

lemma movesI:
  assumes "frame_ok gs l0 s" and "same_ids (shared s) l" and "account_names (shared s) \<subseteq> account_names l"
    and "\<And>k. k \<notin> owned s i \<Longrightarrow> k \<in> account_names (shared s) \<Longrightarrow> accounts l k = accounts (shared s) k"
  shows "moves i g s (goto i g (s\<lparr>shared := l\<rparr>))"
proof -
  have "owned s i \<subseteq> dom (mutex s)" by (auto simp: owned_def)
  with assms show ?thesis
    unfolding moves_def by (auto simp: frame_ok_def owned_def intro: finite_subset)
qed

lemma movesI_local: "frame_ok gs l0 s \<Longrightarrow> moves i g s (goto i g s)"
  using movesI[of gs l0 s "shared s" i g] by simp

text \<open>The goroutine keeps its locks and goes on with the rest of its call.\<close>

lemma tied_local:
  assumes t: "tied gs l0 s h outs l" and i: "i < length gs" and p: "pool s ! i = Running op r is" and e: "entered is"
    and l': "same_ids (shared s) l'" "\<And>k. k \<notin> owned s i \<Longrightarrow> accounts l' k = accounts (shared s) k"
      "account_names l' = account_names (shared s)"
    and is': "entered is'" "code_wf (owned s i) is'" "eff is' (accounts l') = eff is (accounts (shared s))"
      "outcome r' is' (accounts l') = outcome r is (accounts (shared s))"
      "posted l' + mset (postings is' (accounts l')) = posted (shared s) + mset (postings is (accounts (shared s)))"
  shows "tied gs l0 (goto i (Running op r' is') (s\<lparr>shared := l'\<rparr>)) h outs l"
proof (rule tied_silent[OF _ t i])
  let ?s = "goto i (Running op r' is') (s\<lparr>shared := l'\<rparr>)"
  show mv: "moves i (Running op r' is') s ?s"
    by (rule movesI[of gs l0]) (use t l' in \<open>auto simp: tied_def\<close>)
  have "serial_accounts ?s k = serial_accounts s k" for k
  proof -
    have "mutex ?s k = mutex s k" by (simp add: goto_def)
    moreover have "mutex s k \<noteq> Some i \<Longrightarrow> accounts l' k = accounts (shared s) k" using l'(2)[of k] by (simp add: owned_def)
    moreover have "shared ?s = l'" by (simp add: goto_def)
    ultimately show ?thesis
      using moves_serial_accounts[OF mv t i, of k] is'(1,3) p e by (cases "mutex s k") (auto simp: serial_accounts_def)
  qed
  then show "serial_accounts ?s = serial_accounts s" by auto
  have "goroutine_ok l0 (gs ! i) (outs i) (owned s i) (shared s) (pool s ! i)" using t i by (simp add: tied_def)
  then show "goroutine_ok l0 (gs ! i) (outs i) (owned ?s i) (shared ?s) (Running op r' is')"
    using p e is' by (simp add: goto_def) (simp add: owned_def)
qed (use is' p e in \<open>simp_all add: goto_def\<close>)

text \<open>Unlocking.\<close>

lemma tied_release:
  assumes t: "tied gs l0 s h outs l" and i: "i < length gs" and p: "pool s ! i = Running op r (Release k # is)"
  shows "tied gs l0 (goto i (Running op r is) (s\<lparr>mutex := (mutex s)(k := None)\<rparr>)) h outs l"
proof (rule tied_silent[OF _ t i])
  let ?s = "goto i (Running op r is) (s\<lparr>mutex := (mutex s)(k := None)\<rparr>)"
  have ok: "goroutine_ok l0 (gs ! i) (outs i) (owned s i) (shared s) (Running op r (Release k # is))"
    using t i p[symmetric] by (simp add: tied_def)
  then have k: "mutex s k = Some i" "entered is" "code_wf (owned s i - {k}) is" by (auto simp: owned_def)
  have own: "owned ?s j = (if j = i then owned s i - {k} else owned s j)" for j
    using k(1) by (auto simp: owned_def goto_def)
  have sh: "shared ?s = shared s" "pool ?s = (pool s)[i := Running op r is]" by (simp_all add: goto_def)
  show mv: "moves i (Running op r is) s ?s"
    unfolding moves_def own sh using movesI_local[of gs l0 s i undefined] t by (auto simp: moves_def tied_def)
  have "serial_accounts ?s j = serial_accounts s j" for j
  proof (cases "j = k")
    case True
    then show ?thesis
      using moves_serial_accounts[OF mv t i, of j] k p eff_frame[OF k(3,2), of k] by (simp add: serial_accounts_def goto_def)
  next
    case False
    then show ?thesis
      using moves_serial_accounts[OF mv t i, of j] k(2) p by (cases "mutex s j") (auto simp: serial_accounts_def goto_def)
  qed
  then show "serial_accounts ?s = serial_accounts s" by auto
  show "goroutine_ok l0 (gs ! i) (outs i) (owned ?s i) (shared ?s) (Running op r is)"
    unfolding own sh using ok k by simp
qed (use p in \<open>simp_all add: goto_def\<close>)

section \<open>Steps of the serial ledger\<close>

text \<open>The history of a state extends the history of the state before; it may stay the same.\<close>

lemma tied_stay: "tied gs l0 s h outs l \<Longrightarrow> \<exists>h' outs' l'. tied gs l0 s (h @ h') outs' l'"
  by (metis append_Nil2)

lemma serial_names: "tied gs l0 s h outs l \<Longrightarrow> account_names l = account_names (shared s)"
proof -
  assume t: "tied gs l0 s h outs l"
  have "rest_of g m k = None \<longleftrightarrow> m k = None" for g m k by (cases g) auto
  then have "serial_accounts s k = None \<longleftrightarrow> accounts (shared s) k = None" for k
    by (auto simp: serial_accounts_def split: option.split)
  then show ?thesis using t by (auto simp: tied_def account_names_def dom_def)
qed

lemma begin_call_names:
  assumes "account_names l' = account_names l" and "same_ids l l'"
  shows "begin_call op l' = begin_call op l"
proof -
  have none: "accounts l' k = None \<longleftrightarrow> accounts l k = None" for k
    using assms(1) by (metis account_names_iff)
  then have "create_missing now k l' = create_missing now k l" for now k by (simp add: create_missing_def)
  with none assms(2) show ?thesis by (cases op) (auto simp: same_ids_def Let_def)
qed

text \<open>The effect of a call that enters the serial history.\<close>

lemma tied_call:
  assumes mv: "moves i g s s'" and t: "tied gs l0 s h outs l" and i: "i < length gs"
    and op: "gs ! i = Call op" "outs i = None" "exec_op op l = Some l'" "same_ids l l'"
    and acc: "accounts l' = serial_accounts s'"
    and ent: "posted l' + posted (shared s) + mset (posts_of (pool s ! i) (accounts (shared s))) =
      posted l + posted (shared s') + mset (posts_of g (accounts (shared s')))"
    and ok: "goroutine_ok l0 (gs ! i) (Some (op_error op l)) (owned s' i) (shared s') g"
  shows "\<exists>h' outs' l'. tied gs l0 s' (h @ h') outs' l'"
proof -
  have "serial l0 (h @ [(Some i, op)]) (outs(i \<mapsto> op_error op l)) l'"
    using t op by (intro serial.call) (auto simp: tied_def)
  moreover have "same_ids l0 l'" using t op(4) by (auto simp: tied_def same_ids_def)
  ultimately have "tied gs l0 s' (h @ [(Some i, op)]) (outs(i \<mapsto> op_error op l)) l'"
    using op(1) ok by (intro tied_move[OF mv t i _ _ _ _ acc ent]) auto
  then show ?thesis by blast
qed

lemma CreateAccount_apply:
  "accounts (CreateAccount now k x l) j =
    (if j = k \<and> accounts l k = None then Some (new_account now k x) else accounts l j)"
  by (auto simp: CreateAccount_def split: option.split)

lemma create_serial_accounts:
  assumes t: "tied gs l0 s h outs l" and i: "i < length gs" and p: "pool s ! i = Running op r (Create now k x # is)"
    and s': "s' = goto i (Running op r is) (s\<lparr>shared := CreateAccount now k x (shared s)\<rparr>)"
  shows "moves i (Running op r is) s s'" and "accounts (CreateAccount now k x l) = serial_accounts s'" and "owned s i = {}"
proof -
  have fr: "frame_ok gs l0 s" and acc: "accounts l = serial_accounts s" using t by (auto simp: tied_def)
  have "goroutine_ok l0 (gs ! i) (outs i) (owned s i) (shared s) (pool s ! i)" using t i by (simp add: tied_def)
  then show none: "owned s i = {}" using p by simp
  show mv: "moves i (Running op r is) s s'"
    unfolding s' by (rule movesI[OF fr]) (auto simp: same_ids_def CreateAccount_apply account_names_iff)
  have m: "mutex s' = mutex s" "shared s' = CreateAccount now k x (shared s)" by (simp_all add: s' goto_def)
  have k: "accounts l k = None \<longleftrightarrow> accounts (shared s) k = None"
    using serial_names[OF t] by (metis account_names_iff)
  have free: "mutex s k = None" if "accounts (shared s) k = None"
    using that fr by (cases "mutex s k") (fastforce simp: frame_ok_def account_names_iff)+
  have "accounts (CreateAccount now k x l) j = serial_accounts s' j" for j
    using moves_serial_accounts[OF mv t i, of j] none k free
    by (cases "mutex s j") (auto simp: m CreateAccount_apply acc serial_accounts_def owned_def)
  then show "accounts (CreateAccount now k x l) = serial_accounts s'" by auto
qed

lemma posted_CreateAccount [simp]: "posted (CreateAccount now k x l) = posted l"
  by (simp add: posted_def)

text \<open>A goroutine that is not entered holds accounts whose contents nobody is about to change.\<close>

lemma not_entered_accounts:
  assumes "tied gs l0 s h outs l" and "pool s ! i = Running op r is" and "\<not> entered is" and "k \<in> owned s i \<or> mutex s k = None"
  shows "accounts l k = accounts (shared s) k"
  using assms by (auto simp: tied_def serial_accounts_def owned_def)

lemma tied_create:
  assumes t: "tied gs l0 s h outs l" and i: "i < length gs" and p: "pool s ! i = Running op r (Create now k x # is)"
  shows "\<exists>h' outs' l'. tied gs l0 (goto i (Running op r is) (s\<lparr>shared := CreateAccount now k x (shared s)\<rparr>)) (h @ h') outs' l'"
proof -
  let ?l = "CreateAccount now k x (shared s)"
  let ?s = "goto i (Running op r is) (s\<lparr>shared := ?l\<rparr>)"
  note cs = create_serial_accounts[OF t i p refl]
  have ok: "gs ! i = Call op" "code_wf {} is" "outs i = None" "r = None" "waiting l0 {} (shared s) op (Create now k x # is)"
    using t i p cs(3) by (auto simp: tied_def dest!: spec[of _ i])
  have sh: "shared ?s = ?l" "owned ?s i = {}" using cs(3) by (simp_all add: goto_def owned_def)
  from ok(5) show ?thesis
    unfolding waiting_def
  proof (elim disjE exE conjE)
    fix now' k' x'
    assume op: "op = Op_Create now' k' x'" "Create now k x # is = [Create now' k' x']"
    show ?thesis
    proof (rule tied_call[OF cs(1) t i ok(1,3) _ _ cs(2)])
      show "exec_op op l = Some (CreateAccount now k x l)" using op by simp
    qed (use op p ok sh in \<open>simp_all add: same_ids_def\<close>)
  next
    fix cs' ks ks' b
    assume w: "Create now k x # is = cs' @ map Acquire ks' @ b" "list_all zero_create cs'" "plan op l0 (ks @ ks') b" "{} = set ks"
      "cs' \<noteq> [] \<longrightarrow> ks = []" "set (ks @ ks') \<subseteq> account_names (shared s) \<union> \<Union> (created_by ` set cs')"
      "\<not> is_Create op" "\<not> self_locking (DeficitReserveAccountID l0) op"
    have "cs' \<noteq> []"
    proof
      assume "cs' = []"
      with w(1,3,4) show False by (cases ks') (auto simp: plan_def)
    qed
    then obtain cs'' where c: "cs' = Create now k 0 # cs''" "x = 0" "is = cs'' @ map Acquire ks' @ b" "ks = []"
      using w(1,2,5) by (cases cs') auto
    have wait: "waiting l0 {} ?l op is"
      unfolding waiting_def using w c by (intro disjI2 exI[of _ cs''] exI[of _ "[]"] exI[of _ ks'] exI[of _ b]) auto
    have "\<not> entered is" using w(3) c(3,4) by (cases ks') (auto simp: plan_def)
    then have "goroutine_ok l0 (gs ! i) (outs i) (owned ?s i) (shared ?s) (Running op r is)"
      unfolding sh using ok wait by simp
    moreover have "serial l0 (h @ [(None, Op_Create now k 0)]) outs (CreateAccount now k x l)"
      using t c(2) by (auto simp: tied_def intro: serial.helper)
    ultimately have "tied gs l0 ?s (h @ [(None, Op_Create now k 0)]) outs (CreateAccount now k x l)"
      using t p \<open>\<not> entered is\<close> sh(1)
      by (intro tied_move[OF cs(1) t i _ _ _ _ cs(2)]) (auto simp: tied_def same_ids_def)
    then show ?thesis by blast
  qed
qed

lemma waiting_acquire:
  assumes "waiting l0 H l op (Acquire k # is)"
  obtains ks ks' b where "is = map Acquire ks' @ b" "plan op l0 (ks @ k # ks') b" "H = set ks"
    "set (ks @ k # ks') \<subseteq> account_names l" "\<not> is_Create op" "\<not> self_locking (DeficitReserveAccountID l0) op"
proof -
  from assms obtain cs ks ks' b where w: "Acquire k # is = cs @ map Acquire ks' @ b" "list_all zero_create cs" "plan op l0 (ks @ ks') b"
      "H = set ks" "set (ks @ ks') \<subseteq> account_names l \<union> \<Union> (created_by ` set cs)" "\<not> is_Create op"
      "\<not> self_locking (DeficitReserveAccountID l0) op"
    unfolding waiting_def by (elim disjE exE conjE) (simp, blast)
  have cs: "cs = []" using w(1,2) by (cases cs) auto
  then obtain ks'' where "ks' = k # ks''" "is = map Acquire ks'' @ b" using w(1,3) by (cases ks') (auto simp: plan_def)
  with w cs show ?thesis by (intro that[of ks'' b ks]) auto
qed

lemma tied_acquire:
  assumes t: "tied gs l0 s h outs l" and i: "i < length gs" and p: "pool s ! i = Running op r (Acquire k # is)" and k: "mutex s k = None"
  shows "\<exists>h' outs' l'. tied gs l0 (goto i (Running op r is) (s\<lparr>mutex := (mutex s)(k \<mapsto> i)\<rparr>)) (h @ h') outs' l'"
proof -
  let ?s = "goto i (Running op r is) (s\<lparr>mutex := (mutex s)(k \<mapsto> i)\<rparr>)"
  have fr: "frame_ok gs l0 s" and acc: "accounts l = serial_accounts s" using t by (auto simp: tied_def)
  have ok: "gs ! i = Call op" "code_wf (insert k (owned s i)) is" "outs i = None" "r = None" "waiting l0 (owned s i) (shared s) op (Acquire k # is)"
    using t i p by (auto simp: tied_def dest!: spec[of _ i])
  obtain ks ks' b where w: "is = map Acquire ks' @ b" "plan op l0 (ks @ k # ks') b" "owned s i = set ks"
      "set (ks @ k # ks') \<subseteq> account_names (shared s)" "\<not> is_Create op" "\<not> self_locking (DeficitReserveAccountID l0) op"
    by (rule waiting_acquire[OF ok(5)])
  have own: "owned ?s j = (if j = i then insert k (owned s i) else owned s j)" for j
    using k by (auto simp: owned_def goto_def)
  have sh: "shared ?s = shared s" "pool ?s = (pool s)[i := Running op r is]" by (simp_all add: goto_def)
  have mv: "moves i (Running op r is) s ?s"
    unfolding moves_def own sh using movesI_local[OF fr, of i undefined] w(4) by (auto simp: moves_def)
  have ne: "\<not> entered (Acquire k # is)" by simp
  have cw: "code_wf (owned ?s i) is" unfolding own using ok(2) by simp
  have sa: "serial_accounts ?s j = (if j \<in> owned ?s i then rest_of (Running op r is) (accounts (shared s)) j else serial_accounts s j)" for j
    using moves_serial_accounts[OF mv t i, of j] by (cases "mutex ?s j") (auto simp: sh owned_def serial_accounts_def goto_def split: if_splits)
  have held: "serial_accounts s j = accounts (shared s) j" if "j \<in> owned ?s i" for j
    using not_entered_accounts[OF t p ne, of j] that k acc unfolding own by auto
  show ?thesis
  proof (cases "entered is")
    case False
    have "waiting l0 (owned ?s i) (shared ?s) op is"
      unfolding waiting_def own sh using w by (intro disjI2 exI[of _ "[]"] exI[of _ "ks @ [k]"] exI[of _ ks'] exI[of _ b]) auto
    then have "goroutine_ok l0 (gs ! i) (outs i) (owned ?s i) (shared ?s) (Running op r is)"
      using ok False cw by simp
    moreover have "serial_accounts ?s = serial_accounts s"
      using sa held False by auto
    ultimately have "tied gs l0 ?s h outs l"
      using p False by (intro tied_silent[OF mv t i]) (simp_all add: sh)
    then show ?thesis by (rule tied_stay)
  next
    case True
    then have b: "is = b" using w(1) by (cases ks') auto
    obtain l' where l': "exec_op op l = Some l'" "accounts l' = eff is (accounts l)" "op_error op l = outcome None is (accounts l)"
        "map unnumbered (entries l') = map unnumbered (entries l) @ postings is (accounts l)" "same_ids l l'"
      using plan_matches[OF w(2), of l] w(4-6) t serial_names[OF t] by (auto simp: matches_def b tied_def same_ids_def)
    note loc = rest_local[OF cw True, of "accounts l" "accounts (shared s)" None]
    have loc': "\<forall>j\<in>owned ?s i. eff is (accounts l) j = eff is (accounts (shared s)) j"
        "outcome None is (accounts l) = outcome None is (accounts (shared s))" "postings is (accounts l) = postings is (accounts (shared s))"
      using loc held acc by auto
    show ?thesis
    proof (rule tied_call[OF mv t i ok(1,3) l'(1,5)])
      have "accounts l' j = serial_accounts ?s j" for j
        using sa[of j] loc'(1) eff_frame[OF cw True, of j] True by (auto simp: l'(2) acc)
      then show "accounts l' = serial_accounts ?s" by auto
      show "goroutine_ok l0 (gs ! i) (Some (op_error op l)) (owned ?s i) (shared ?s) (Running op r is)"
        using ok True cw loc'(2) l'(3) by (simp add: sh)
    qed (use p True loc'(3) l'(4) in \<open>simp_all add: sh posted_def ac_simps\<close>)
  qed
qed

lemma code_wf_acquires:
  "distinct ks \<Longrightarrow> set ks \<inter> H = {} \<Longrightarrow> code_wf (H \<union> set ks) b \<Longrightarrow> code_wf H (map Acquire ks @ b)"
  by (induction ks arbitrary: H) auto

lemma code_wf_creates: "list_all zero_create cs \<Longrightarrow> code_wf {} is \<Longrightarrow> code_wf {} (cs @ is)"
proof (induction cs)
  case (Cons c cs)
  then show ?case by (cases c) auto
qed simp

lemma tied_begin:
  assumes t: "tied gs l0 s h outs l" and i: "i < length gs" and p: "pool s ! i = Call op"
  shows "\<exists>h' outs' l'. tied gs l0 (goto i (begin_call op (shared s)) s) (h @ h') outs' l'"
proof -
  let ?g = "begin_call op (shared s)"
  have fr: "frame_ok gs l0 s" "same_ids l0 l" "same_ids l0 (shared s)" using t by (auto simp: tied_def frame_ok_def)
  have ok: "gs ! i = Call op" "\<not> self_locking (DeficitReserveAccountID l0) op" "owned s i = {}" "outs i = None"
    using t i p by (auto simp: tied_def dest!: spec[of _ i])
  have mv: "moves i ?g s (goto i ?g s)" by (rule movesI_local[OF fr(1)])
  have sa: "serial_accounts (goto i ?g s) = serial_accounts s"
  proof
    fix k
    show "serial_accounts (goto i ?g s) k = serial_accounts s k"
      using moves_serial_accounts[OF mv t i, of k] ok(3) by (auto simp: serial_accounts_def owned_def split: option.split)
  qed
  show ?thesis
  proof (cases rule: begin_call_cases[of op "shared s"])
    case (ret r)
    have "begin_call op l = ?g" using begin_call_names[OF serial_names[OF t]] fr by (simp add: same_ids_def)
    with ret have e: "exec_op op l = Some l" "op_error op l = r" using begin_call_returned[of op l r] by auto
    show ?thesis
      using ok ret e p t sa by (intro tied_call[OF mv t i ok(1,4) e(1)]) (auto simp: tied_def)
  next
    case (run "is")
    have "goroutine_ok l0 (gs ! i) None {} (shared s) ?g \<and> posts_of ?g (accounts (shared s)) = []"
    proof (cases "is_Create op")
      case True
      then obtain now k x where "op = Op_Create now k x" by (cases op) auto
      then show ?thesis using ok by (simp add: waiting_def)
    next
      case False
      have "\<not> self_locking (DeficitReserveAccountID (shared s)) op" using ok(2) fr(3) by (simp add: same_ids_def)
      then obtain cs ks b where b: "is = cs @ map Acquire ks @ b" "list_all zero_create cs"
          "plan op (shared s) ks b" "set ks \<subseteq> account_names (shared s) \<union> \<Union> (created_by ` set cs)"
        using begin_plan[OF run False] by metis
      have pl: "plan op l0 ([] @ ks) b" using b(3) fr(3) by (auto simp: plan_def same_ids_def)
      have "code_wf {} is"
        unfolding b(1) using b(2) pl by (intro code_wf_creates code_wf_acquires) (auto simp: plan_def)
      moreover have ne: "\<not> entered is" using b(1) pl by (cases ks) (auto simp: plan_def)
      moreover have "waiting l0 {} (shared s) op is"
        unfolding waiting_def using b pl False ok(2)
        by (intro disjI2 exI[of _ cs] exI[of _ "[]"] exI[of _ ks] exI[of _ b]) auto
      ultimately show ?thesis using run ok(1) by simp
    qed
    then have "tied gs l0 (goto i ?g s) h outs l"
      using ok p sa by (intro tied_silent[OF mv t i]) simp_all
    then show ?thesis by (rule tied_stay)
  qed
qed

text \<open>Audits only read.\<close>

lemma tied_audit:
  assumes t: "tied gs l0 s h outs l" and i: "i < length gs" and p: "pool s ! i = CallAudit \<or> is_Auditing (pool s ! i)"
    and g: "is_Auditing g \<or> (\<exists>av rs tot n. g = Audited av rs tot n)"
  shows "tied gs l0 (goto i g s) h outs l"
proof (rule tied_silent[OF _ t i])
  have "frame_ok gs l0 s" using t by (simp add: tied_def)
  then show mv: "moves i g s (goto i g s)" by (rule movesI_local)
  have ok: "gs ! i = CallAudit" "owned s i = {}" "outs i = None"
    using t i p by (cases "pool s ! i"; auto simp: tied_def dest!: spec[of _ i])+
  show "serial_accounts (goto i g s) = serial_accounts s"
  proof
    fix k
    show "serial_accounts (goto i g s) k = serial_accounts s k"
      using moves_serial_accounts[OF mv t i, of k] ok(2) by (auto simp: serial_accounts_def owned_def split: option.split)
  qed
  show "goroutine_ok l0 (gs ! i) (outs i) (owned (goto i g s) i) (shared (goto i g s)) g"
    using ok g by (cases g) auto
  have "posts_of (pool s ! i) m = []" "posts_of g m = []" for m
    using p g by (cases "pool s ! i"; auto) (use g in \<open>cases g; auto\<close>)
  then show "posted (shared (goto i g s)) + mset (posts_of g (accounts (shared (goto i g s)))) =
      posted (shared s) + mset (posts_of (pool s ! i) (accounts (shared s)))" by simp
qed

section \<open>Every step\<close>

lemma tied_instr:
  assumes t: "tied gs l0 s h outs l" and i: "i < length gs" and p: "pool s ! i = Running op r (ins # is)"
    and e: "exec_instr i op r ins is s = Some s'"
  shows "\<exists>h' outs' l'. tied gs l0 s' (h @ h') outs' l'"
proof -
  have ok: "code_wf (owned s i) (ins # is)" using t i p by (auto simp: tied_def dest!: spec[of _ i])
  show ?thesis
  proof (cases ins)
    case (Create now k x)
    with e tied_create[OF t i p[unfolded Create]] show ?thesis by (auto split: if_splits)
  next
    case (Acquire k)
    with e tied_acquire[OF t i p[unfolded Acquire]] show ?thesis by (auto split: if_splits)
  next
    case (Release k)
    with e tied_stay[OF tied_release[OF t i p[unfolded Release]]] show ?thesis by simp
  next
    case (Update k f)
    have "tied gs l0 (goto i (Running op r is) (s\<lparr>shared := upd_acc k f (shared s)\<rparr>)) h outs l"
      by (rule tied_local[OF t i p]) (use ok Update in \<open>auto simp: touch_def posted_def\<close>)
    from tied_stay[OF this] e Update show ?thesis by simp
  next
    case (Hold resID res)
    have "tied gs l0 (goto i (Running op r is) (s\<lparr>shared := (shared s)\<lparr>reservations := (reservations (shared s))(resID \<mapsto> res)\<rparr>\<rparr>)) h outs l"
      by (rule tied_local[OF t i p]) (use ok Hold in \<open>auto simp: posted_def same_ids_def account_names_def\<close>)
    from tied_stay[OF this] e Hold show ?thesis by simp
  next
    case (NextID en)
    let ?n = "entryCounter (shared s) + 1"
    have "tied gs l0 (goto i (Running op r (Push (en\<lparr>EntryID := ?n\<rparr>) # is)) (s\<lparr>shared := (shared s)\<lparr>entryCounter := ?n\<rparr>\<rparr>)) h outs l"
      by (rule tied_local[OF t i p]) (use ok NextID in \<open>auto simp: posted_def same_ids_def account_names_def\<close>)
    from tied_stay[OF this] e NextID show ?thesis by (simp add: Let_def)
  next
    case (Push en)
    have "tied gs l0 (goto i (Running op r is) (s\<lparr>shared := (shared s)\<lparr>entries := entries (shared s) @ [en]\<rparr>\<rparr>)) h outs l"
      by (rule tied_local[OF t i p]) (use ok Push in \<open>auto simp: posted_def same_ids_def account_names_def\<close>)
    from tied_stay[OF this] e Push show ?thesis by simp
  next
    case (Guard c k x err)
    have stay: "s\<lparr>shared := shared s\<rparr> = s" by simp
    let ?out = "dropWhile (\<lambda>ins. \<not> is_Release ins) is"
    show ?thesis
    proof (cases "passes c k x (accounts (shared s))")
      case True
      have "tied gs l0 (goto i (Running op r is) (s\<lparr>shared := shared s\<rparr>)) h outs l"
        by (rule tied_local[OF t i p]) (use ok Guard True in auto)
      from tied_stay[OF this] e Guard True show ?thesis by (auto simp: passes_def split: option.splits if_splits)
    next
      case False
      have rel: "list_all is_Release ?out" using ok Guard by simp
      have "tied gs l0 (goto i (Running op (Some err) ?out) (s\<lparr>shared := shared s\<rparr>)) h outs l"
        by (rule tied_local[OF t i p]) (use ok Guard False releases_only[OF rel] code_wf_dropWhile[of "owned s i" "is"] in auto)
      from tied_stay[OF this] e Guard False show ?thesis by (auto simp: passes_def split: option.splits if_splits)
    qed
  qed
qed

lemma tied_return:
  assumes t: "tied gs l0 s h outs l" and i: "i < length gs" and p: "pool s ! i = Running op r []"
  shows "tied gs l0 (goto i (Returned r) s) h outs l"
proof (rule tied_silent[OF _ t i])
  have "frame_ok gs l0 s" using t by (simp add: tied_def)
  then show mv: "moves i (Returned r) s (goto i (Returned r) s)" by (rule movesI_local)
  have ok: "gs ! i = Call op" "owned s i = {}" "outs i = Some r" using t i p by (auto simp: tied_def dest!: spec[of _ i])
  show "serial_accounts (goto i (Returned r) s) = serial_accounts s"
  proof
    fix k
    show "serial_accounts (goto i (Returned r) s) k = serial_accounts s k"
      using moves_serial_accounts[OF mv t i, of k] ok(2) by (auto simp: serial_accounts_def owned_def split: option.split)
  qed
  show "goroutine_ok l0 (gs ! i) (outs i) (owned (goto i (Returned r) s) i) (shared (goto i (Returned r) s)) (Returned r)"
    using ok by simp
qed (use p in simp_all)

lemma tied_step:
  assumes t: "tied gs l0 s h outs l" and "sched_step s s'"
  shows "\<exists>h' outs' l'. tied gs l0 s' (h @ h') outs' l'"
  using assms(2)
proof cases
  case (audit i ks)
  have "length (pool s) = length gs" using t by (simp add: tied_def frame_ok_def)
  with audit tied_audit[OF t, of i "Auditing ks 0 0"] have "tied gs l0 s' h outs l" by simp
  then show ?thesis by (rule tied_stay)
next
  case (go i)
  have "length (pool s) = length gs" using t by (simp add: tied_def frame_ok_def)
  then have i: "i < length gs" using go by (simp add: goroutine_step_def split: if_splits)
  show ?thesis
  proof (cases "pool s ! i")
    case (Call op)
    with go tied_begin[OF t i Call] show ?thesis by (auto simp: goroutine_step_def split: if_splits)
  next
    case (Running op r "is")
    show ?thesis
    proof (cases "is")
      case Nil
      with go Running tied_stay[OF tied_return[OF t i, of op r]] show ?thesis by (auto simp: goroutine_step_def split: if_splits)
    next
      case (Cons ins js)
      with go Running tied_instr[OF t i, of op r ins js s'] show ?thesis by (auto simp: goroutine_step_def split: if_splits)
    qed
  next
    case (Auditing ks av rs)
    then have "\<exists>g. s' = goto i g s \<and> (is_Auditing g \<or> (\<exists>av rs tot n. g = Audited av rs tot n))"
      using go by (cases ks) (auto simp: goroutine_step_def split: if_splits option.splits)
    then obtain g where g: "s' = goto i g s" "is_Auditing g \<or> (\<exists>av rs tot n. g = Audited av rs tot n)" by blast
    have "tied gs l0 s' h outs l" unfolding g(1) by (rule tied_audit[OF t i _ g(2)]) (simp add: Auditing)
    then show ?thesis by (rule tied_stay)
  qed (use go in \<open>auto simp: goroutine_step_def split: if_splits\<close>)
qed

end
