(* ===== verification/Ledger_Holds.thy ===== *)
theory Ledger_Holds
  imports Ledger_Interleaving
begin

text \<open>
  The reservations under concurrent calls. A call of \<open>ReserveFunds\<close> writes one entry of the map, fixed by its arguments
  and clock readings, exactly when it succeeds; so when no two calls make the same hold id, every interleaving and
  every serial order with the same results leave the same map.
\<close>

section \<open>The hold of a call\<close>

fun hold_of :: "ledger_op \<Rightarrow> (string \<times> Reservation) option" where
  "hold_of (Op_Reserve clk a x t) =
     (let resID = ''RES-'' @ t @ ''-'' @ show_int64 (UnixNano (clk 1))
      in Some (resID, \<lparr>ReservationID = resID, res_AccountID = a, res_Amount = x, res_CreatedAt = clk 2\<rparr>))"
| "hold_of _ = None"

fun hold_ids :: "goroutine \<Rightarrow> string list" where
  "hold_ids (Call op) = (case hold_of op of None \<Rightarrow> [] | Some (k, res) \<Rightarrow> [k])"
| "hold_ids _ = []"

text \<open>The map after some goroutines have written theirs.\<close>

definition holds_at :: "goroutine list \<Rightarrow> nat set \<Rightarrow> (string \<times> Reservation) set" where
  "holds_at gs W = {hr. \<exists>i op. i \<in> W \<and> i < length gs \<and> gs ! i = Call op \<and> hold_of op = Some hr}"

definition written :: "(string \<times> Reservation) set \<Rightarrow> (string \<rightharpoonup> Reservation) \<Rightarrow> (string \<rightharpoonup> Reservation) \<Rightarrow> bool" where
  "written S m0 m \<longleftrightarrow> (\<forall>k. (\<forall>res. (k, res) \<in> S \<longrightarrow> m k = Some res) \<and> ((\<forall>res. (k, res) \<notin> S) \<longrightarrow> m k = m0 k))"

lemma written_unique:
  assumes "written S m0 m" and "written S m0 m'"
  shows "m = m'"
proof
  fix k
  show "m k = m' k"
    using assms unfolding written_def by (cases "\<exists>res. (k, res) \<in> S") metis+
qed

lemma written_empty: "written {} m m"
  by (simp add: written_def)

lemma written_insert:
  "written S m0 m \<Longrightarrow> (\<And>res'. (k, res') \<in> S \<Longrightarrow> res' = res) \<Longrightarrow> written (insert (k, res) S) m0 (m(k \<mapsto> res))"
  by (auto simp: written_def)

lemma distinct_hold_ids:
  assumes "distinct (concat (map hold_ids gs))" and "i < length gs" "j < length gs" and "i \<noteq> j"
    and "k \<in> set (hold_ids (gs ! i))"
  shows "k \<notin> set (hold_ids (gs ! j))"
  using assms
proof (induction gs arbitrary: i j)
  case (Cons g gs)
  have "set (hold_ids g) \<inter> set (concat (map hold_ids gs)) = {}" using Cons.prems(1) by auto
  moreover have "k' \<in> set (concat (map hold_ids gs))" if "n < length gs" "k' \<in> set (hold_ids (gs ! n))" for n k'
    using that nth_mem[OF that(1)] by auto
  ultimately have apart: "k' \<notin> set (hold_ids g)" if "n < length gs" "k' \<in> set (hold_ids (gs ! n))" for n k'
    using that by blast
  show ?case
    using Cons.prems Cons.IH[of "i - 1" "j - 1"] apart[of "i - 1" k] apart[of "j - 1" k] by (cases i; cases j) auto
qed simp

lemma hold_added:
  assumes "distinct (concat (map hold_ids gs))" and "i < length gs" and "gs ! i = Call op" and "hold_of op = Some (k, res)"
    and "written (holds_at gs W) m0 m" and "i \<notin> W"
  shows "written (holds_at gs (insert i W)) m0 (m(k \<mapsto> res))"
proof -
  have "holds_at gs (insert i W) = insert (k, res) (holds_at gs W)"
    using assms(2-4) by (auto simp: holds_at_def)
  moreover have "(k, res') \<notin> holds_at gs W" for res'
    using distinct_hold_ids[OF assms(1,2), of _ k] assms(2-4,6) by (fastforce simp: holds_at_def)
  ultimately show ?thesis using written_insert[OF assms(5), of k res] by auto
qed

lemma hold_not_added: "gs ! i = Call op \<Longrightarrow> hold_of op = None \<Longrightarrow> holds_at gs (insert i W) = holds_at gs W"
  by (auto simp: holds_at_def)

section \<open>Serial histories\<close>

lemma exec_op_reservations:
  "exec_op op l = Some l' \<Longrightarrow> reservations l' =
     (case hold_of op of None \<Rightarrow> reservations l
      | Some (k, res) \<Rightarrow> if op_error op l = None then (reservations l)(k \<mapsto> res) else reservations l)"
  by (cases op)
    (auto simp: op_defs Let_def appendEntry_def upd_acc_def CreateAccount_def split: if_splits option.splits)

lemma CreateAccount_reservations [simp]: "reservations (CreateAccount now k x l) = reservations l"
  by (simp add: CreateAccount_def appendEntry_def Let_def split: option.split)

lemma serial_reservations:
  assumes "serial l0 h outs l" and "\<And>i op. (Some i, op) \<in> set h \<Longrightarrow> i < length gs \<and> gs ! i = Call op"
    and "distinct (concat (map hold_ids gs))"
  shows "written (holds_at gs {i. outs i = Some None}) (reservations l0) (reservations l)"
  using assms(1,2)
proof (induction rule: serial.induct)
  case start
  then show ?case by (simp add: holds_at_def written_empty)
next
  case (helper h outs l now k)
  then show ?case by simp
next
  case (call h outs l i op l')
  have i: "i < length gs" "gs ! i = Call op" using call.prems by auto
  let ?W = "{j. outs j = Some None}"
  have IH: "written (holds_at gs ?W) (reservations l0) (reservations l)" using call.IH call.prems by auto
  have W: "{j. (outs(i \<mapsto> op_error op l)) j = Some None} = (if op_error op l = None then insert i ?W else ?W)"
    using call.hyps(2) by auto
  show ?case
  proof (cases "hold_of op")
    case None
    then show ?thesis
      unfolding W using IH exec_op_reservations[OF call.hyps(3)] hold_not_added[OF i(2)] by simp
  next
    case (Some hr)
    obtain k res where "hr = (k, res)" by (cases hr)
    then show ?thesis
      unfolding W using IH exec_op_reservations[OF call.hyps(3)] Some call.hyps(2)
        hold_added[OF assms(3) i, of k res ?W "reservations l0" "reservations l"] by simp
  qed
qed

section \<open>Every interleaving\<close>

fun no_hold :: "instr \<Rightarrow> bool" where
  "no_hold (Hold k res) = False"
| "no_hold _ = True"

fun no_guard :: "instr \<Rightarrow> bool" where
  "no_guard (Guard c k x e) = False"
| "no_guard _ = True"

text \<open>A goroutine that has not written a hold, and one that has.\<close>

fun hold_open :: "goroutine \<Rightarrow> goroutine \<Rightarrow> bool" where
  "hold_open g0 (Running op r is) = (g0 = Call op \<and>
     (list_all no_hold is \<and> (hold_of op = None \<or> r \<noteq> None) \<or>
      r = None \<and> (\<exists>pre k res post. is = pre @ Hold k res # post \<and> hold_of op = Some (k, res) \<and>
        list_all no_hold pre \<and> list_all (\<lambda>ins. \<not> is_Release ins) pre \<and> list_all no_hold post \<and> list_all no_guard post)))"
| "hold_open g0 (Returned r) = (\<exists>op. g0 = Call op \<and> (hold_of op = None \<or> r \<noteq> None))"
| "hold_open g0 (Call op) = (g0 = Call op)"
| "hold_open g0 _ = (g0 = CallAudit)"

fun hold_done :: "goroutine \<Rightarrow> goroutine \<Rightarrow> bool" where
  "hold_done g0 (Running op r is) = (g0 = Call op \<and> hold_of op \<noteq> None \<and> r = None \<and> list_all no_hold is \<and> list_all no_guard is)"
| "hold_done g0 (Returned r) = (\<exists>op. g0 = Call op \<and> hold_of op \<noteq> None \<and> r = None)"
| "hold_done g0 _ = False"

definition hold_slot :: "bool \<Rightarrow> goroutine \<Rightarrow> goroutine \<Rightarrow> bool" where
  "hold_slot w g0 g \<longleftrightarrow> (if w then hold_done g0 g else hold_open g0 g)"

definition holds_ok :: "goroutine list \<Rightarrow> ConservingLedger \<Rightarrow> nat set \<Rightarrow> ledger_system \<Rightarrow> bool" where
  "holds_ok gs l0 W s \<longleftrightarrow> length (pool s) = length gs \<and> W \<subseteq> {..<length gs} \<and>
     written (holds_at gs W) (reservations l0) (reservations (shared s)) \<and>
     (\<forall>i<length gs. hold_slot (i \<in> W) (gs ! i) (pool s ! i))"

lemma holds_ok_goto:
  assumes "holds_ok gs l0 W s" and "reservations (shared s1) = reservations (shared s)" and "pool s1 = pool s"
    and "hold_slot (i \<in> W) (gs ! i) g"
  shows "holds_ok gs l0 W (goto i g s1)"
proof -
  have "(pool s)[i := g] ! j = (if j = i then g else pool s ! j)" if "j < length (pool s)" for j
    using that by (simp add: nth_list_update)
  with assms show ?thesis by (auto simp: holds_ok_def goto_def)
qed

lemma list_all_dropWhile: "list_all P xs \<Longrightarrow> list_all P (dropWhile Q xs)"
  by (induction xs) auto

lemma begin_call_hold: "hold_open (Call op) (begin_call op l)"
proof (cases op)
  case (Op_Reserve clk a x t)
  let ?id = "''RES-'' @ t @ ''-'' @ show_int64 (UnixNano (clk 1))"
  have "\<exists>pre k res post. (ins1 # ins2 # ins3 # Hold k' res' # rest) = pre @ Hold k res # post \<and> Some (k', res') = Some (k, res) \<and>
      list_all no_hold pre \<and> list_all (\<lambda>ins. \<not> is_Release ins) pre \<and> list_all no_hold post \<and> list_all no_guard post"
    if "list_all no_hold [ins1, ins2, ins3]" "list_all (\<lambda>ins. \<not> is_Release ins) [ins1, ins2, ins3]" "list_all no_hold rest" "list_all no_guard rest"
    for ins1 ins2 ins3 k' res' rest
    using that by (intro exI[of _ "[ins1, ins2, ins3]"] exI[of _ k'] exI[of _ res'] exI[of _ rest]) simp
  with Op_Reserve show ?thesis by (auto simp: Let_def split: option.split)
qed (auto simp: Let_def create_missing_def lock_pair_def unlock_pair_def split: option.split)

text \<open>An instruction that is no hold is dropped, or replaced by a posting.\<close>

lemma hold_slot_new:
  assumes "hold_slot w g0 (Running op r (ins # is))" and "no_hold ins" and "list_all no_hold new"
    and "list_all no_guard new" and "list_all (\<lambda>ins. \<not> is_Release ins) new"
  shows "hold_slot w g0 (Running op r (new @ is))"
proof (cases "list_all no_hold (ins # is) \<or> w")
  case True
  have "ins # is \<noteq> pre @ Hold k res # post" if "list_all no_hold (ins # is)" for pre k res post
  proof
    assume "ins # is = pre @ Hold k res # post"
    with that have "list_all no_hold (pre @ Hold k res # post)" by simp
    then show False by simp
  qed
  with True show ?thesis
    using assms by (cases w) (auto simp: hold_slot_def)
next
  case False
  then obtain pre k res post where p: "ins # is = pre @ Hold k res # post" "hold_of op = Some (k, res)" "list_all no_hold pre"
      "list_all (\<lambda>ins. \<not> is_Release ins) pre" "list_all no_hold post" "list_all no_guard post" "r = None" "g0 = Call op"
    using assms(1) by (auto simp: hold_slot_def)
  then obtain pre' where pre': "pre = ins # pre'" "is = pre' @ Hold k res # post" using assms(2) by (cases pre) auto
  have "new @ is = (new @ pre') @ Hold k res # post" by (simp add: pre'(2))
  moreover have "list_all no_hold (new @ pre')" "list_all (\<lambda>ins. \<not> is_Release ins) (new @ pre')"
    using p(3,4) pre'(1) assms(3,5) by simp_all
  ultimately have "\<exists>pre k res post. new @ is = pre @ Hold k res # post \<and> hold_of op = Some (k, res) \<and>
      list_all no_hold pre \<and> list_all (\<lambda>ins. \<not> is_Release ins) pre \<and> list_all no_hold post \<and> list_all no_guard post"
    using p(2,5,6) by blast
  with False p(7,8) show ?thesis by (simp add: hold_slot_def)
qed

lemma hold_slot_tail:
  assumes "hold_slot w g0 (Running op r (ins # is))" and "no_hold ins"
  shows "hold_slot w g0 (Running op r is)" and "hold_slot w g0 (Running op r (Push e # is))"
  using hold_slot_new[OF assms, of "[]"] hold_slot_new[OF assms, of "[Push e]"] by simp_all

lemma hold_slot_jump:
  assumes "hold_slot w g0 (Running op r (Guard c a x e # is))"
  shows "\<not> w" and "hold_slot w g0 (Running op (Some e) (dropWhile (\<lambda>ins. \<not> is_Release ins) is))"
proof -
  show "\<not> w" using assms by (auto simp: hold_slot_def)
  have "list_all no_hold (dropWhile (\<lambda>ins. \<not> is_Release ins) is)"
  proof (cases "list_all no_hold is")
    case False
    then obtain pre k res post where p: "Guard c a x e # is = pre @ Hold k res # post"
        "list_all (\<lambda>ins. \<not> is_Release ins) pre" "list_all no_hold post"
      using assms \<open>\<not> w\<close> by (auto simp: hold_slot_def)
    then obtain pre' where "is = pre' @ Hold k res # post" "list_all (\<lambda>ins. \<not> is_Release ins) pre'" by (cases pre) auto
    then have "dropWhile (\<lambda>ins. \<not> is_Release ins) is = dropWhile (\<lambda>ins. \<not> is_Release ins) post"
      by (simp add: dropWhile_append list_all_iff)
    with p(3) show ?thesis by (simp add: list_all_dropWhile)
  qed (rule list_all_dropWhile)
  then show "hold_slot w g0 (Running op (Some e) (dropWhile (\<lambda>ins. \<not> is_Release ins) is))"
    using assms \<open>\<not> w\<close> by (auto simp: hold_slot_def)
qed

lemma exec_instr_holds:
  assumes "holds_ok gs l0 W s" and "i < length gs" and "pool s ! i = Running op r (ins # is)"
    and "exec_instr i op r ins is s = Some s'" and "distinct (concat (map hold_ids gs))"
  shows "\<exists>W'. holds_ok gs l0 W' s'"
proof -
  have now: "hold_slot (i \<in> W) (gs ! i) (Running op r (ins # is))"
    using assms(1-3) by (auto simp: holds_ok_def)
  have stay: "holds_ok gs l0 W (goto i g s1)"
    if "reservations (shared s1) = reservations (shared s)" "pool s1 = pool s"
      "hold_slot (i \<in> W) (gs ! i) g" for g s1
    using holds_ok_goto[OF assms(1) that] .
  have tail: "hold_slot (i \<in> W) (gs ! i) (Running op r is)" "hold_slot (i \<in> W) (gs ! i) (Running op r (Push e # is))"
    if "no_hold ins" for e
    using hold_slot_tail[OF now that] by simp_all
  show ?thesis
  proof (cases ins)
    case (Hold k res)
    have "i \<notin> W" using now Hold by (auto simp: hold_slot_def)
    have op: "gs ! i = Call op" "hold_of op = Some (k, res)" "r = None" "list_all no_hold is" "list_all no_guard is"
      using now Hold \<open>i \<notin> W\<close> by (auto simp: hold_slot_def Cons_eq_append_conv)
    have s': "s' = goto i (Running op r is) (s\<lparr>shared := (shared s)\<lparr>reservations := (reservations (shared s))(k \<mapsto> res)\<rparr>\<rparr>)"
      using assms(4) Hold by simp
    have "written (holds_at gs (insert i W)) (reservations l0) (reservations (shared s'))"
      using hold_added[OF assms(5,2) op(1,2) _ \<open>i \<notin> W\<close>] assms(1) by (simp add: holds_ok_def s' goto_def)
    then have "holds_ok gs l0 (insert i W) s'"
      using assms(1,2) op by (auto simp: holds_ok_def hold_slot_def s' goto_def nth_list_update)
    then show ?thesis ..
  next
    case (Guard c a x e)
    have "hold_slot (i \<in> W) (gs ! i) (Running op r is)"
      "hold_slot (i \<in> W) (gs ! i) (Running op (Some e) (dropWhile (\<lambda>ins. \<not> is_Release ins) is))"
      using tail(1) hold_slot_jump(2) now Guard by auto
    then show ?thesis
      using stay[of s] assms(4) Guard by (auto split: option.splits if_splits)
  qed (use assms(4) stay tail in \<open>auto simp: Let_def upd_acc_def split: if_splits option.splits intro!: exI[of _ W]\<close>)
qed

lemma sched_step_holds:
  assumes "holds_ok gs l0 W s" and "sched_step s s'" and "distinct (concat (map hold_ids gs))"
  shows "\<exists>W'. holds_ok gs l0 W' s'"
  using assms(2)
proof cases
  case (audit i ks)
  have "i < length gs" "i \<notin> W \<and> gs ! i = CallAudit"
    using assms(1) audit by (auto simp: holds_ok_def hold_slot_def dest!: spec[of _ i] split: if_splits)
  with audit holds_ok_goto[OF assms(1), of s i "Auditing ks 0 0"] show ?thesis by (auto simp: hold_slot_def)
next
  case (go i)
  have i: "i < length gs" using go assms(1) by (simp add: goroutine_step_def holds_ok_def split: if_splits)
  have now: "hold_slot (i \<in> W) (gs ! i) (pool s ! i)"
    using assms(1) i by (simp add: holds_ok_def)
  show ?thesis
  proof (cases "pool s ! i")
    case (Call op)
    have "i \<notin> W" "gs ! i = Call op" using now Call by (auto simp: hold_slot_def split: if_splits)
    with go Call holds_ok_goto[OF assms(1), of s i "begin_call op (shared s)"] begin_call_hold show ?thesis
      by (auto simp: goroutine_step_def hold_slot_def split: if_splits)
  next
    case (Running op r "is")
    show ?thesis
    proof (cases "is")
      case Nil
      have "hold_slot (i \<in> W) (gs ! i) (Returned r)"
        using now Running Nil by (auto simp: hold_slot_def split: if_splits)
      with go Running Nil holds_ok_goto[OF assms(1), of s i "Returned r"] show ?thesis
        by (auto simp: goroutine_step_def split: if_splits)
    next
      case (Cons ins js)
      with go Running exec_instr_holds[OF assms(1) i, of op r ins js s'] assms(3) show ?thesis
        by (auto simp: goroutine_step_def split: if_splits)
    qed
  next
    case (Auditing ks av rs)
    have "i \<notin> W" "gs ! i = CallAudit" using now Auditing by (auto simp: hold_slot_def split: if_splits)
    moreover have "\<exists>g. s' = goto i g s \<and> hold_open CallAudit g"
      using go Auditing by (cases ks) (auto simp: goroutine_step_def split: if_splits option.splits)
    ultimately show ?thesis using holds_ok_goto[OF assms(1), of s i] by (auto simp: hold_slot_def)
  qed (use go in \<open>auto simp: goroutine_step_def split: if_splits\<close>)
qed

text \<open>When all have returned, the map is that of the serial history.\<close>

lemma finished_reservations:
  assumes "holds_ok gs l0 W s" and "tied gs l0 s h outs l" and "list_all finished (pool s)" and "distinct (concat (map hold_ids gs))"
  shows "reservations (shared s) = reservations l"
proof -
  have "hold_of op = None \<or> (i \<in> W \<longleftrightarrow> outs i = Some None)" if i: "i < length gs" "gs ! i = Call op" for i op
  proof -
    have ok: "goroutine_ok l0 (gs ! i) (outs i) (owned s i) (shared s) (pool s ! i)" and f: "finished (pool s ! i)"
      using assms(2,3) i by (auto simp: tied_def frame_ok_def list_all_length)
    have "hold_slot (i \<in> W) (gs ! i) (pool s ! i)"
      using assms(1) i by (auto simp: holds_ok_def)
    with ok f i(2) show ?thesis by (cases "pool s ! i") (auto simp: hold_slot_def split: if_splits)
  qed
  then have "holds_at gs W = holds_at gs {i. outs i = Some None}" by (fastforce simp: holds_at_def)
  moreover have "written (holds_at gs {i. outs i = Some None}) (reservations l0) (reservations l)"
    using serial_reservations[OF _ _ assms(4)] assms(2) by (auto simp: tied_def)
  ultimately show ?thesis using assms(1) written_unique by (auto simp: holds_ok_def)
qed

end
