(* ===== verification/Ledger_Concurrent.thy ===== *)
theory Ledger_Concurrent
  imports Ledger_Holds
begin

text \<open>
  What concurrent calls of the ledger guarantee: they are linearizable, keep a solvent ledger solvent, and
  all return when every call locks in the order of the account names; the schedules that break an
  audit and that deadlock the calls which lock in another order.
\<close>

section \<open>Launching goroutines\<close>

text \<open>A goroutine before its call; no call locks an account that it holds already.\<close>

fun launchable :: "string \<Rightarrow> goroutine \<Rightarrow> bool" where
  "launchable r (Call op) = (\<not> self_locking r op)"
| "launchable r CallAudit = True"
| "launchable r _ = False"

lemma tied_launch:
  assumes "list_all (launchable (DeficitReserveAccountID l)) gs"
  shows "tied gs l (launch gs l) [] Map.empty l"
proof -
  have "goroutine_ok l (gs ! i) None {} l (gs ! i) \<and> posts_of (gs ! i) m = []" if "i < length gs" for i m
    using assms that by (cases "gs ! i") (auto simp: list_all_length)
  then show ?thesis
    by (auto simp: tied_def frame_ok_def launch_def serial_accounts_def owned_def fun_eq_iff intro: serial.start)
qed

lemma tied_steps:
  assumes "sched_step\<^sup>*\<^sup>* s s'" and "tied gs l0 s h outs l"
  shows "\<exists>h' outs' l'. tied gs l0 s' (h @ h') outs' l'"
  using assms(1)
proof induction
  case base
  show ?case using assms(2) by (rule tied_stay)
next
  case (step y z)
  then obtain h' outs' l' where "tied gs l0 y (h @ h') outs' l'" by blast
  from tied_step[OF this step.hyps(2)] show ?case by auto
qed

lemma tied_reachable:
  assumes "list_all (launchable (DeficitReserveAccountID l0)) gs" and "sched_step\<^sup>*\<^sup>* (launch gs l0) s"
  obtains h outs l where "tied gs l0 s h outs l"
  using tied_steps[OF assms(2) tied_launch[OF assms(1)]] by auto


lemma serial_wf: "serial l0 h outs l \<Longrightarrow> ledger_wf l0 \<Longrightarrow> ledger_wf l"
  by (induction rule: serial.induct) (auto intro: ledger_wf_exec ledger_wf_CreateAccount)


lemma tied_finished:
  assumes t: "tied gs l0 s h outs l" and f: "list_all finished (pool s)"
  shows "mutex s = Map.empty" and "accounts l = accounts (shared s)" and "posted l = posted (shared s)"
proof -
  have fin: "finished (pool s ! i)" "goroutine_ok l0 (gs ! i) (outs i) (owned s i) (shared s) (pool s ! i)" if "i < length gs" for i
    using f t that by (auto simp: tied_def frame_ok_def list_all_length)
  have own: "owned s i = {}" "posts_of (pool s ! i) m = []" if "i < length gs" for i m
    using fin[OF that] by (cases "pool s ! i"; auto)+
  have "mutex s k = None" for k
    using t own(1) by (cases "mutex s k") (auto simp: tied_def frame_ok_def owned_def)
  then show "mutex s = Map.empty" by auto
  then show "accounts l = accounts (shared s)" using t by (auto simp: tied_def serial_accounts_def)
  show "posted l = posted (shared s)" using t own(2) by (simp add: tied_def)
qed

section \<open>Properties of every interleaving\<close>







text \<open>A run for the witnesses: a hold of 400 and a payment of 700 from an account with 1000, in turns.\<close>

definition demo_pool :: "goroutine list" where
  "demo_pool = [Call (Op_Reserve (\<lambda>_. 0) ''ACC'' 400 ''T''), Call (Op_Direct (\<lambda>_. 0) ''ACC'' ''SHOP'' 700 ''U'')]"

lemma demo_accounts:
  "accounts demo_ledger ''ACC'' = Some (new_account 0 ''ACC'' 1000)" "accounts demo_ledger ''SHOP'' = Some (new_account 0 ''SHOP'' 0)"
  by (simp_all add: demo_ledger_def CreateAccount_apply NewConservingLedger_def Let_def AccountDeficitReserve_def)

lemma run_schedule_steps: "run_schedule is s = Some s' \<Longrightarrow> sched_step\<^sup>*\<^sup>* s s'"
proof (induction "is" arbitrary: s)
  case (Cons i "is")
  then obtain s1 where "goroutine_step i s = Some s1" "run_schedule is s1 = Some s'" by (auto split: option.splits)
  with Cons.IH show ?case by (meson converse_rtranclp_into_rtranclp sched_step.go)
qed simp

lemma demo_run:
  obtains s where "run_schedule [0, 1, 0, 0, 0, 0, 0, 0, 0, 1, 0, 1, 1, 1, 1, 1] (launch demo_pool demo_ledger) = Some s"
    "pool s = [Returned None, Returned (Some ErrInsufficientFunds)]"
proof -
  have [simp]: "(CHR ''A'' # as < CHR ''S'' # bs) = True" for as bs by (simp add: less_char_def)
  have "map_option pool (run_schedule [0, 1, 0, 0, 0, 0, 0, 0, 0, 1, 0, 1, 1, 1, 1, 1] (launch demo_pool demo_ledger)) =
      Some [Returned None, Returned (Some ErrInsufficientFunds)]"
    by (simp add: demo_pool_def launch_def goroutine_step_def goto_def create_missing_def lock_pair_def
        unlock_pair_def demo_accounts new_account_def upd_acc_def Let_def)
  then show ?thesis using that by blast
qed

lemma demo_reach:
  obtains s where "sched_step\<^sup>*\<^sup>* (launch demo_pool demo_ledger) s" "pool s = [Returned None, Returned (Some ErrInsufficientFunds)]"
  by (rule demo_run) (rule that[OF run_schedule_steps])



text \<open>Serial histories of checked calls.\<close>

lemma serial_checked:
  assumes "serial l0 h outs l" and "\<And>i op. (Some i, op) \<in> set h \<Longrightarrow> checked op"
  shows "checked_step\<^sup>*\<^sup>* l0 l"
  using assms
proof (induction rule: serial.induct)
  case (helper h outs l now k)
  have "checked_step l (CreateAccount now k 0 l)" by (rule checked_step.intros[of "Op_Create now k 0"]) simp_all
  with helper show ?case by (auto intro: rtranclp.rtrancl_into_rtrancl)
next
  case (call h outs l i op l')
  then have "checked_step l l'" by (intro checked_step.intros[of op]) auto
  with call show ?case by (auto intro: rtranclp.rtrancl_into_rtrancl)
qed simp

fun checked_goroutine :: "goroutine \<Rightarrow> bool" where
  "checked_goroutine (Call op) = checked op"
| "checked_goroutine g = (g = CallAudit)"

lemma checked_launchable: "checked_goroutine g \<Longrightarrow> launchable r g"
proof (cases g)
  case (Call op)
  then show "checked_goroutine g \<Longrightarrow> launchable r g" by (cases op) auto
qed auto

lemma book_cong: "accounts l k = accounts l' k \<Longrightarrow> book l (k, c) = book l' (k, c)"
  by (simp add: book_def)

text \<open>
  C6. Solvency under concurrency: start with a ledger whose buckets are all non-negative and sum to an
  \<open>int64\<close>, and let goroutines run audits and calls whose debits are checked, interleaved in any way. At every
  moment each account that nobody has locked has non-negative buckets, whatever is going on elsewhere, and once all
  goroutines are done the sum of all money is what it was.
\<close>

theorem concurrent_calls_solvent:
  assumes "ledger_wf l0" and "solvent (account_names l0) (book l0)" and "list_all checked_goroutine gs"
    and "sched_step\<^sup>*\<^sup>* (launch gs l0) s"
  shows "(\<forall>k c. k \<in> account_names (shared s) \<and> mutex s k = None \<longrightarrow> 0 \<le> sint (book (shared s) (k, c))) \<and>
    (list_all finished (pool s) \<longrightarrow>
      money_supply (account_names (shared s)) (book (shared s)) = money_supply (account_names l0) (book l0))"
proof -
  have "list_all (launchable (DeficitReserveAccountID l0)) gs"
    using assms(3) checked_launchable by (auto simp: list_all_iff)
  then obtain h outs l where t: "tied gs l0 s h outs l" using assms(4) by (rule tied_reachable)
  have "checked op" if "(Some i, op) \<in> set h" for i op
  proof -
    have "i < length gs" "gs ! i = Call op" using t that by (auto simp: tied_def)
    with assms(3) show ?thesis by (metis checked_goroutine.simps(1) list_all_length)
  qed
  then have "checked_step\<^sup>*\<^sup>* l0 l" using t serial_checked by (auto simp: tied_def)
  from cled.solvent_steps[OF this assms(1,2)]
  have sol: "solvent (account_names l) (book l)" "money_supply (account_names l) (book l) = money_supply (account_names l0) (book l0)"
    by auto
  have "0 \<le> sint (book (shared s) (k, c))" if "k \<in> account_names (shared s)" "mutex s k = None" for k c
  proof -
    have "accounts l k = accounts (shared s) k" using t that(2) by (simp add: tied_def serial_accounts_def)
    then have "book (shared s) (k, c) = book l (k, c)" by (intro book_cong) simp
    moreover have "(k, c) \<in> positions (account_names l)" using that(1) serial_names[OF t] by simp
    ultimately show ?thesis using sol(1) by (simp add: solvent_def)
  qed
  moreover have "money_supply (account_names (shared s)) (book (shared s)) = money_supply (account_names l0) (book l0)"
    if "list_all finished (pool s)"
  proof -
    have "accounts l = accounts (shared s)" using tied_finished(2)[OF t that] .
    then have "book l = book (shared s)" by (auto simp: fun_eq_iff intro: book_cong)
    with sol(2) serial_names[OF t] show ?thesis by simp
  qed
  ultimately show ?thesis by blast
qed

theorem concurrent_calls_solvent_witness:
  "\<exists>s. sched_step\<^sup>*\<^sup>* (launch demo_pool demo_ledger) s \<and> list_all finished (pool s) \<and>
     money_supply (account_names (shared s)) (book (shared s)) = money_supply (account_names demo_ledger) (book demo_ledger)"
proof -
  obtain s where s: "sched_step\<^sup>*\<^sup>* (launch demo_pool demo_ledger) s" "pool s = [Returned None, Returned (Some ErrInsufficientFunds)]"
    by (rule demo_reach)
  have "list_all checked_goroutine demo_pool" by (simp add: demo_pool_def)
  from concurrent_calls_solvent[OF demo_wf demo_solvent this s(1)] s show ?thesis by auto
qed

section \<open>Every schedule ends\<close>

text \<open>How many more steps a goroutine can make; an audit that has not begun is counted apart.\<close>

fun steps_of :: "instr \<Rightarrow> nat" where
  "steps_of (NextID e) = 2"
| "steps_of _ = 1"

fun fuel_of :: "goroutine \<Rightarrow> nat" where
  "fuel_of (Call op) = 20"
| "fuel_of (Running op r is) = 1 + sum_list (map steps_of is)"
| "fuel_of (Auditing ks av rs) = 1 + length ks"
| "fuel_of _ = 0"

definition audits_left :: "ledger_system \<Rightarrow> nat" where
  "audits_left s = length (filter (\<lambda>g. g = CallAudit) (pool s))"

definition steps_left :: "ledger_system \<Rightarrow> nat" where
  "steps_left s = sum_list (map fuel_of (pool s))"

lemma begin_call_fuel: "fuel_of (begin_call op l) < 20"
  by (cases op) (simp_all add: Let_def lock_pair_def unlock_pair_def create_missing_def)

lemma steps_dropWhile: "sum_list (map steps_of (dropWhile P is)) \<le> sum_list (map steps_of is)"
  by (induction "is") auto

lemma exec_instr_fuel:
  assumes "exec_instr i op r ins is s = Some s'"
  obtains r' is' where "pool s' = (pool s)[i := Running op r' is']" "sum_list (map steps_of is') < sum_list (map steps_of (ins # is))"
  using assms steps_dropWhile[of "\<lambda>ins. \<not> is_Release ins" "is"]
  by (cases ins) (auto simp: Let_def le_imp_less_Suc split: if_splits option.splits)

lemma update_measures:
  assumes "i < length (pool s)" and "pool s' = (pool s)[i := g]" and "g \<noteq> CallAudit"
  shows "pool s ! i = CallAudit \<Longrightarrow> audits_left s' < audits_left s"
    and "pool s ! i \<noteq> CallAudit \<Longrightarrow> fuel_of g < fuel_of (pool s ! i) \<Longrightarrow>
      audits_left s' = audits_left s \<and> steps_left s' < steps_left s"
proof -
  have "pool s = take i (pool s) @ pool s ! i # drop (Suc i) (pool s)" using assms(1) by (rule id_take_nth_drop)
  moreover have "pool s' = take i (pool s) @ g # drop (Suc i) (pool s)" using assms(1,2) by (simp add: upd_conv_take_nth_drop)
  ultimately obtain xs ys where "pool s = xs @ pool s ! i # ys" "pool s' = xs @ g # ys" by blast
  then have "audits_left s = length (filter (\<lambda>g. g = CallAudit) (xs @ pool s ! i # ys))"
    "audits_left s' = length (filter (\<lambda>g. g = CallAudit) (xs @ g # ys))"
    "steps_left s = sum_list (map fuel_of (xs @ pool s ! i # ys))" "steps_left s' = sum_list (map fuel_of (xs @ g # ys))"
    unfolding audits_left_def steps_left_def by metis+
  with assms(3) show "pool s ! i = CallAudit \<Longrightarrow> audits_left s' < audits_left s"
    "pool s ! i \<noteq> CallAudit \<Longrightarrow> fuel_of g < fuel_of (pool s ! i) \<Longrightarrow>
      audits_left s' = audits_left s \<and> steps_left s' < steps_left s"
    by simp_all
qed

lemma goroutine_step_fuel:
  assumes "goroutine_step i s = Some s'"
  obtains g where "i < length (pool s)" "pool s' = (pool s)[i := g]" "g \<noteq> CallAudit" "pool s ! i \<noteq> CallAudit" "fuel_of g < fuel_of (pool s ! i)"
proof (cases "pool s ! i")
  case (Call op)
  have "begin_call op (shared s) \<noteq> CallAudit" by (cases rule: begin_call_cases[of op "shared s"]) simp_all
  with Call assms begin_call_fuel[of op "shared s"] show ?thesis
    by (intro that[of "begin_call op (shared s)"]) (auto simp: goroutine_step_def split: if_splits)
next
  case (Running op r "is")
  show ?thesis
  proof (cases "is")
    case Nil
    with Running assms show ?thesis by (intro that[of "Returned r"]) (auto simp: goroutine_step_def split: if_splits)
  next
    case (Cons ins js)
    with Running assms have e: "exec_instr i op r ins js s = Some s'" "i < length (pool s)" by (auto simp: goroutine_step_def split: if_splits)
    obtain r' is' where "pool s' = (pool s)[i := Running op r' is']" "sum_list (map steps_of is') < sum_list (map steps_of (ins # js))"
      by (rule exec_instr_fuel[OF e(1)])
    with Running Cons e(2) show ?thesis by (intro that[of "Running op r' is'"]) auto
  qed
next
  case (Auditing ks av rs)
  show ?thesis
  proof (cases ks)
    case Nil
    with Auditing assms show ?thesis
      by (intro that[of "Audited av rs (av + rs) (length (entries (shared s)))"]) (auto simp: goroutine_step_def split: if_splits)
  next
    case (Cons k ks')
    with Auditing assms obtain av' rs' where "i < length (pool s)" "s' = goto i (Auditing ks' av' rs') s"
      by (auto simp: goroutine_step_def split: if_splits option.splits)
    with Auditing Cons show ?thesis by (intro that[of "Auditing ks' av' rs'"]) auto
  qed
qed (use assms in \<open>auto simp: goroutine_step_def split: if_splits\<close>)

lemma sched_step_wf: "wfp (\<lambda>s' s. sched_step s s')"
proof -
  have "(s', s) \<in> measures [audits_left, steps_left]" if "sched_step s s'" for s s'
    using that
  proof cases
    case (go i)
    then obtain g where "i < length (pool s)" "pool s' = (pool s)[i := g]" "g \<noteq> CallAudit" "pool s ! i \<noteq> CallAudit"
      "fuel_of g < fuel_of (pool s ! i)" by (rule goroutine_step_fuel)
    then show ?thesis using update_measures(2)[of i s s' g] by simp
  next
    case (audit i ks)
    then show ?thesis using update_measures(1)[of i s s' "Auditing ks 0 0"] by simp
  qed
  then show ?thesis unfolding wfp_def by (intro wf_subset[OF wf_measures[of "[audits_left, steps_left]"]]) auto
qed

section \<open>No schedule gets stuck\<close>

text \<open>
  The calls that lock in the order of the account names, where \<open>r\<close> is the deficit reserve: the transfers sort
  the two names; the two deficit calls lock the reserve first, whatever its name.
\<close>

fun orderly :: "string \<Rightarrow> ledger_op \<Rightarrow> bool" where
  "orderly r (Op_DebitDeficit clk d x t) = (r < d)"
| "orderly r (Op_RecordDeficit clk a d x t) = (a < d)"
| "orderly r _ = True"

fun orderly_goroutine :: "string \<Rightarrow> goroutine \<Rightarrow> bool" where
  "orderly_goroutine r (Call op) = orderly r op"
| "orderly_goroutine r g = (g = CallAudit)"

lemma orderly_launchable: "orderly_goroutine r g \<Longrightarrow> launchable r g"
proof (cases g)
  case (Call op)
  then show "orderly_goroutine r g \<Longrightarrow> launchable r g" by (cases op) auto
qed auto

lemma sorted_lock_pair: "lock_pair a d @ b = map Acquire ks @ b' \<Longrightarrow> entered b \<Longrightarrow> entered b' \<Longrightarrow> sorted_wrt (<) ks"
  using lock_pair_map[of a d] map_Acquire_unique by metis

lemma sorted_singleton: "Acquire k # b = map Acquire ks @ b' \<Longrightarrow> entered b \<Longrightarrow> entered b' \<Longrightarrow> sorted_wrt (<) ks"
  using map_Acquire_unique[of "[k]" b ks b'] by auto

lemma sorted_two: "k < k' \<Longrightarrow> Acquire k # Acquire k' # b = map Acquire ks @ b' \<Longrightarrow> entered b \<Longrightarrow> entered b' \<Longrightarrow> sorted_wrt (<) ks"
  using map_Acquire_unique[of "[k, k']" b ks b'] by auto

lemma plan_sorted:
  assumes "plan op l ks b" and "orderly (DeficitReserveAccountID l) op" and "\<not> is_Create op"
  shows "sorted_wrt (<) ks"
proof -
  define l' where "l' = l\<lparr>accounts := \<lambda>k. Some undefined\<rparr>"
  have names: "k \<in> account_names l'" "accounts l' k \<noteq> None" for k by (simp_all add: l'_def account_names_def)
  have ids: "DeficitReserveAccountID l' = DeficitReserveAccountID l" "same_ids l l'" by (simp_all add: l'_def same_ids_def)
  have b: "begin_call op l' = Running op None (map Acquire ks @ b)" "entered b"
    using assms(1) ids names by (auto simp: plan_def)
  show ?thesis
    using assms(2,3) b names ids(1) sorted_lock_pair[OF _ _ b(2)] sorted_singleton[OF _ _ b(2)] sorted_two[OF _ _ _ b(2)]
    by (cases op) (simp_all add: Let_def split: if_splits)
qed

text \<open>Where a goroutine stands when it cannot move.\<close>

lemma stuck_goroutine:
  assumes t: "tied gs l0 s h outs l" and wf: "ledger_wf l0" and i: "i < length gs" and stuck: "\<And>s'. \<not> sched_step s s'"
  obtains (finished) "finished (pool s ! i)"
  | (fund) op where "pool s ! i = Call op" "list_ex is_Auditing (pool s)"
  | (create) op r now k x "is" where "pool s ! i = Running op r (Create now k x # is)" "list_ex is_Auditing (pool s)"
  | (lock) op r k "is" where "pool s ! i = Running op r (Acquire k # is)" "mutex s k \<noteq> None"
  | (audit) k ks av rs where "pool s ! i = Auditing (k # ks) av rs" "mutex s k \<noteq> None"
proof -
  have len: "i < length (pool s)" using t i by (simp add: tied_def frame_ok_def)
  have no: "goroutine_step i s = None" using stuck sched_step.go by (cases "goroutine_step i s") auto
  have names: "owned s i \<subseteq> account_names (shared s)" using t by (auto simp: tied_def frame_ok_def owned_def)
  have ok: "goroutine_ok l0 (gs ! i) (outs i) (owned s i) (shared s) (pool s ! i)" using t i by (simp add: tied_def)
  show thesis
  proof (cases "pool s ! i")
    case CallAudit
    have "finite (account_names l)" using serial_wf[of l0 h outs l] wf t by (auto simp: tied_def ledger_wf_def)
    then obtain ks where "set ks = account_names (shared s)" "distinct ks"
      using serial_names[OF t] finite_distinct_list by metis
    with sched_step.audit[OF len CallAudit] stuck show ?thesis by blast
  next
    case (Call op)
    with no len fund show ?thesis by (auto simp: goroutine_step_def split: if_splits)
  next
    case (Auditing ks av rs)
    with no len audit show ?thesis by (cases ks) (auto simp: goroutine_step_def split: if_splits option.splits)
  next
    case (Running op r "is")
    with no len obtain ins js where "is": "is = ins # js" by (cases "is") (auto simp: goroutine_step_def)
    with Running no len have e: "exec_instr i op r ins js s = None" by (simp add: goroutine_step_def)
    show ?thesis
    proof (cases ins)
      case (Guard c k x err)
      then have "k \<in> account_names (shared s)" using ok Running "is" names by auto
      with e Guard show ?thesis by (auto simp: account_names_iff split: option.splits if_splits)
    qed (use Running "is" e create lock in \<open>auto simp: Let_def split: if_splits\<close>)
  qed (use finished in simp_all)
qed

text \<open>The goroutine with the greatest lock can move, so nobody who cannot move holds a lock.\<close>

lemma stuck_holds_none:
  assumes t: "tied gs l0 s h outs l" and wf: "ledger_wf l0" and stuck: "\<And>s'. \<not> sched_step s s'"
    and ord: "list_all (orderly_goroutine (DeficitReserveAccountID l0)) gs"
  shows "mutex s = Map.empty"
proof (rule ccontr)
  assume "mutex s \<noteq> Map.empty"
  moreover have fin: "finite (dom (mutex s))" using t by (simp add: tied_def frame_ok_def)
  ultimately have "Max (dom (mutex s)) \<in> dom (mutex s)" by (intro Max_in) auto
  then obtain i where i: "mutex s (Max (dom (mutex s))) = Some i" by auto
  define m where "m = Max (dom (mutex s))"
  have m: "m \<in> owned s i" "i < length gs" using i t by (auto simp: m_def owned_def tied_def frame_ok_def)
  have ok: "goroutine_ok l0 (gs ! i) (outs i) (owned s i) (shared s) (pool s ! i)" using t m(2) by (simp add: tied_def)
  from t wf m(2) stuck show False
  proof (cases rule: stuck_goroutine)
    case (lock op r k "is")
    have w: "waiting l0 (owned s i) (shared s) op (Acquire k # is)" and op: "gs ! i = Call op" using ok lock(1) by auto
    obtain ks ks' b where "plan op l0 (ks @ k # ks') b" "owned s i = set ks" "\<not> is_Create op"
      by (rule waiting_acquire[OF w])
    moreover have "orderly (DeficitReserveAccountID l0) op"
      using ord m(2) op by (metis list_all_length orderly_goroutine.simps(1))
    ultimately have "m < k" using plan_sorted[of op l0 "ks @ k # ks'" b] m(1) by (auto simp: sorted_wrt_append)
    moreover have "k \<le> m" unfolding m_def using fin lock(2) by (intro Max_ge) auto
    ultimately show False by simp
  qed (use ok m(1) in \<open>auto elim: finished.elims\<close>)
qed

lemma stuck_is_finished:
  assumes t: "tied gs l0 s h outs l" and wf: "ledger_wf l0" and stuck: "\<And>s'. \<not> sched_step s s'"
    and ord: "list_all (orderly_goroutine (DeficitReserveAccountID l0)) gs"
  shows "list_all finished (pool s)"
proof -
  have free: "mutex s k = None" for k using stuck_holds_none[OF assms] by simp
  have len: "length (pool s) = length gs" using t by (simp add: tied_def frame_ok_def)
  have "\<not> is_Auditing (pool s ! i)" if "i < length gs" for i
    using t wf that stuck by (cases rule: stuck_goroutine) (auto simp: free elim: finished.elims)
  then have quiet: "\<not> list_ex is_Auditing (pool s)" using len by (auto simp: list_ex_length)
  have "finished (pool s ! i)" if "i < length gs" for i
    using t wf that stuck by (cases rule: stuck_goroutine) (auto simp: free quiet)
  then show ?thesis using len by (simp add: list_all_length)
qed

text \<open>
  C5. Liveness under concurrency: when all calls lock in the order of the account names (every call but the two deficit
  calls does so by construction, and those do when the reserve's name is the smaller one), no schedule runs forever, and
  a schedule stops only when every call has returned and every audit is done: the calls neither deadlock
  with each other nor with an audit.
\<close>

theorem concurrent_calls_return:
  assumes "ledger_wf l0" and "list_all (orderly_goroutine (DeficitReserveAccountID l0)) gs"
  shows "(\<nexists>run. run 0 = launch gs l0 \<and> (\<forall>n. sched_step (run n) (run (Suc n)))) \<and>
    (\<forall>s. sched_step\<^sup>*\<^sup>* (launch gs l0) s \<and> (\<nexists>s'. sched_step s s') \<longrightarrow> list_all finished (pool s))"
proof
  show "\<nexists>run. run 0 = launch gs l0 \<and> (\<forall>n. sched_step (run n) (run (Suc n)))"
    using sched_step_wf unfolding wfp_def wf_iff_no_infinite_down_chain by auto
  have l: "list_all (launchable (DeficitReserveAccountID l0)) gs"
    using assms(2) orderly_launchable by (auto simp: list_all_iff)
  show "\<forall>s. sched_step\<^sup>*\<^sup>* (launch gs l0) s \<and> (\<nexists>s'. sched_step s s') \<longrightarrow> list_all finished (pool s)"
  proof (intro allI impI, elim conjE)
    fix s
    assume "sched_step\<^sup>*\<^sup>* (launch gs l0) s" and stuck: "\<nexists>s'. sched_step s s'"
    with l obtain h outs l where "tied gs l0 s h outs l" by (elim tied_reachable)
    with assms stuck show "list_all finished (pool s)" by (intro stuck_is_finished) auto
  qed
qed

theorem concurrent_calls_return_witness:
  "(\<nexists>run. run 0 = launch (CallAudit # demo_pool) demo_ledger \<and> (\<forall>n. sched_step (run n) (run (Suc n)))) \<and>
   {s. sched_step\<^sup>*\<^sup>* (launch (CallAudit # demo_pool) demo_ledger) s \<and> (\<nexists>s'. sched_step s s')} \<subseteq> {s. list_all finished (pool s)}"
proof -
  have "list_all (orderly_goroutine (DeficitReserveAccountID demo_ledger)) (CallAudit # demo_pool)" by (simp add: demo_pool_def)
  from concurrent_calls_return[OF demo_wf this] show ?thesis by blast
qed

section \<open>Schedules that go wrong\<close>

text \<open>
  C11. Deadlock: \<open>RecordDeficit\<close> locks the account before the merchant, whatever their names, where
  \<open>CommitHold\<close> locks the smaller name first. When reconciliation books an overdraw of an account in favour of a
  merchant with a smaller name while an online payment of the account to that merchant is committed, there is a schedule after
  which no goroutine can ever move again and neither call has returned, on every ledger that has the two accounts.
\<close>

theorem deficit_locks_deadlock:
  assumes "a \<in> account_names l" and "d \<in> account_names l" and "d < a" and "0 < sint y"
  shows "\<exists>s. sched_step\<^sup>*\<^sup>* (launch [Call (Op_RecordDeficit clk a d x t), Call (Op_CommitHold clk' a d y t')] l) s \<and>
    (\<nexists>s'. sched_step s s') \<and> \<not> list_ex finished (pool s)"
proof -
  let ?s0 = "launch [Call (Op_RecordDeficit clk a d x t), Call (Op_CommitHold clk' a d y t')] l"
  obtain acc acc' where acc: "accounts l a = Some acc" "accounts l d = Some acc'" using assms(1,2) by (auto simp: account_names_iff)
  have "lock_pair a d = [Acquire d, Acquire a]" "d \<noteq> a" using assms(3) by (auto simp: lock_pair_def)
  then obtain s op op' is0 is1 where s: "run_schedule [0, 0, 1, 1] ?s0 = Some s" "mutex s a = Some 0" "mutex s d = Some 1"
      "pool s = [Running op None (Acquire d # is0), Running op' None (Acquire a # is1)]"
    using assms(4) acc by (simp add: launch_def goroutine_step_def goto_def create_missing_def)
  have "goroutine_step i s = None" for i
    using s(2-) by (cases i) (auto simp: goroutine_step_def less_Suc_eq)
  moreover have "pool s ! i \<noteq> CallAudit" if "i < length (pool s)" for i using s(4) that by (auto simp: less_Suc_eq)
  ultimately have "\<not> sched_step s s'" for s' by (auto elim!: sched_stepE)
  with run_schedule_steps[OF s(1)] s(4) show ?thesis by (intro exI[of _ s]) auto
qed

theorem deficit_locks_deadlock_witness:
  "\<exists>s. sched_step\<^sup>*\<^sup>* (launch [Call (Op_RecordDeficit (\<lambda>_. 0) ''SHOP'' ''ACC'' 10 ''T''), Call (Op_CommitHold (\<lambda>_. 0) ''SHOP'' ''ACC'' 5 ''U'')] demo_ledger) s \<and>
    (\<nexists>s'. sched_step s s') \<and> \<not> list_ex finished (pool s)"
  by (rule deficit_locks_deadlock) (simp_all add: demo_names less_char_def)

text \<open>An audit that is not interrupted adds up what it has not visited yet.\<close>

definition audit_of :: "book \<Rightarrow> string list \<Rightarrow> int64" where
  "audit_of b ks = (\<Sum>k\<leftarrow>ks. b (k, Online) + b (k, Offline) + b (k, Reserved))"

definition audited_after :: "ledger_system \<Rightarrow> int64 \<Rightarrow> int64 \<Rightarrow> string list \<Rightarrow> nat \<Rightarrow> goroutine" where
  "audited_after s av rs ks n =
     (let av' = av + (\<Sum>k\<leftarrow>ks. book (shared s) (k, Online) + book (shared s) (k, Offline));
          rs' = rs + (\<Sum>k\<leftarrow>ks. book (shared s) (k, Reserved)) in Audited av' rs' (av' + rs') n)"

lemma goto_goto [simp]: "goto i g (goto i g' s) = goto i g s"
  by (simp add: goto_def)

lemma audit_of_total: "distinct ks \<Longrightarrow> audit_of b ks = book_total (set ks) b"
  by (simp add: audit_of_def book_total_sum sum_list_distinct_conv_sum_set)

lemma audit_rest:
  assumes "i < length (pool s)" and "pool s ! i = Auditing ks av rs" and "mutex s = Map.empty" and "set ks \<subseteq> account_names (shared s)"
  shows "\<exists>n. sched_step\<^sup>*\<^sup>* s (goto i (audited_after s av rs ks n) s)"
  using assms
proof (induction ks arbitrary: s av rs)
  case Nil
  then have "sched_step s (goto i (Audited av rs (av + rs) (length (entries (shared s)))) s)"
    by (intro sched_step.go[of i]) (simp add: goroutine_step_def)
  then show ?case by (auto simp: audited_after_def)
next
  case (Cons k ks)
  then obtain a where a: "accounts (shared s) k = Some a" by (auto simp: account_names_iff)
  let ?s = "goto i (Auditing ks (av + (OnlineAvailable a + OfflineAllowance a)) (rs + ReservedBalance a)) s"
  have "sched_step s ?s" using Cons.prems a by (intro sched_step.go[of i]) (simp add: goroutine_step_def)
  moreover obtain n where "sched_step\<^sup>*\<^sup>* ?s (goto i (audited_after s av rs (k # ks) n) ?s)"
    using Cons.IH[of ?s "av + (OnlineAvailable a + OfflineAllowance a)" "rs + ReservedBalance a"] Cons.prems a
    by (auto simp: audited_after_def book_account_simps add.assoc)
  ultimately show ?case by (intro exI[of _ n]) (simp add: converse_rtranclp_into_rtranclp)
qed

text \<open>A payment between existing accounts while no mutex is held, from its call to its return.\<close>

lemma run_direct:
  assumes "a \<noteq> d" and "d \<in> account_names (shared s)" and "covered x (a, Online) (book (shared s))" and "mutex s = Map.empty"
    and "i < length (pool s)" and "pool s ! i = Call (Op_Direct clk a d x t)"
  shows "sched_step\<^sup>*\<^sup>* s (goto i (Returned None) (s\<lparr>shared := snd (DirectCommit clk a d x t (shared s))\<rparr>))"
proof -
  obtain acc acc' where acc: "accounts (shared s) a = Some acc" "accounts (shared s) d = Some acc'" "\<not> sint x \<le> 0"
      "\<not> sint (OnlineAvailable acc) < sint x"
    using assms(2,3) by (auto simp: covered_def account_names_iff book_def split: option.splits)
  have "run_schedule (replicate 11 i) s = Some (goto i (Returned None) (s\<lparr>shared := snd (DirectCommit clk a d x t (shared s))\<rparr>))"
    using assms acc
    by (auto simp: eval_nat_numeral goroutine_step_def goto_def create_missing_def lock_pair_def unlock_pair_def DirectCommit_def
        Let_def CreateAccount_present appendEntry_def upd_acc_def)
  then show ?thesis by (rule run_schedule_steps)
qed

text \<open>
  Audits are not snapshots: \<open>AuditConservation\<close> locks one account at a time. On every ledger, while a payment
  of \<open>x\<close> from \<open>a\<close> to another account is made, an audit may visit \<open>a\<close> before and the payee after the payment; it then
  reports \<open>x\<close> more than the money there is at any moment, which stays the same.
\<close>

theorem concurrent_audit_miscounts:
  assumes "ledger_wf l" and "a \<in> account_names l" and "d \<in> account_names l" and "a \<noteq> d" and "covered x (a, Online) (book l)"
  shows "\<exists>s av rs n. sched_step\<^sup>*\<^sup>* (launch [CallAudit, Call (Op_Direct clk a d x t)] l) s \<and>
    pool s = [Audited av rs (book_total (account_names l) (book l) + x) n, Returned None] \<and>
    book_total (account_names (shared s)) (book (shared s)) = book_total (account_names l) (book l)"
proof -
  let ?s0 = "launch [CallAudit, Call (Op_Direct clk a d x t)] l" and ?l = "snd (DirectCommit clk a d x t l)"
  obtain ks where ks: "distinct (a # ks)" "set (a # ks) = account_names l"
  proof -
    have "finite (account_names l - {a})" using assms(1) by (simp add: ledger_wf_def)
    then obtain ks where "distinct ks" "set ks = account_names l - {a}" using finite_distinct_list by metis
    with assms(2) show ?thesis by (intro that[of ks]) auto
  qed
  obtain acc where acc: "accounts l a = Some acc" using assms(2) by (auto simp: account_names_iff)
  let ?av = "0 + (OnlineAvailable acc + OfflineAllowance acc)" and ?rs = "0 + ReservedBalance acc"
  let ?s1 = "goto 0 (Auditing (a # ks) 0 0) ?s0" and ?s2 = "goto 0 (Auditing ks ?av ?rs) ?s0"
  let ?s3 = "goto 1 (Returned None) (?s2\<lparr>shared := ?l\<rparr>)"
  have "sched_step ?s0 ?s1" using ks by (intro sched_step.audit) (auto simp: launch_def)
  moreover have "sched_step ?s1 ?s2" using acc by (intro sched_step.go[of 0]) (simp add: goroutine_step_def launch_def)
  moreover have "sched_step\<^sup>*\<^sup>* ?s2 ?s3"
    using run_direct[of a d ?s2 x 1 clk t] assms by (simp add: launch_def)
  moreover have names: "account_names ?l = account_names l"
    using acc assms(3) by (auto simp: DirectCommit_def Let_def account_names_iff split: if_splits)
  moreover obtain n where "sched_step\<^sup>*\<^sup>* ?s3 (goto 0 (audited_after ?s3 ?av ?rs ks n) ?s3)"
    using audit_rest[of 0 ?s3 ks ?av ?rs] ks(2) names by (auto simp: launch_def)
  ultimately have reach: "sched_step\<^sup>*\<^sup>* ?s0 (goto 0 (audited_after ?s3 ?av ?rs ks n) ?s3)"
    by (meson converse_rtranclp_into_rtranclp rtranclp_trans)
  have same: "book_total (account_names ?l) (book ?l) = book_total (account_names l) (book l)"
    using led.money_step[OF assms(1) ledger_step.intros[of "Op_Direct clk a d x t" l ?l]] by (simp add: led.money_def)
  have "book_total (account_names ?l) (book ?l) = audit_of (book ?l) (a # ks)"
    unfolding names audit_of_total[OF ks(1)] ks(2) ..
  also have "\<dots> = audit_of (book l) [a] - x + audit_of (book ?l) ks"
    using assms(4,5) by (simp add: audit_of_def DirectCommit_book guarded_transfer_def transfer_apply)
  finally have "audit_of (book l) [a] + audit_of (book ?l) ks = book_total (account_names l) (book l) + x"
    using same by (simp add: algebra_simps)
  moreover have "audited_after ?s3 ?av ?rs ks n =
      Audited (?av + (\<Sum>k\<leftarrow>ks. book ?l (k, Online) + book ?l (k, Offline))) (?rs + (\<Sum>k\<leftarrow>ks. book ?l (k, Reserved)))
        (audit_of (book l) [a] + audit_of (book ?l) ks) n"
    using acc by (simp add: audited_after_def audit_of_def book_account_simps sum_list_addf algebra_simps)
  ultimately show ?thesis using reach same by (auto simp: launch_def)
qed

theorem concurrent_audit_miscounts_witness:
  "\<exists>s av rs n. sched_step\<^sup>*\<^sup>* (launch [CallAudit, Call (Op_Direct (\<lambda>_. 0) ''ACC'' ''SHOP'' 300 ''T'')] demo_ledger) s \<and>
    pool s = [Audited av rs (book_total (account_names demo_ledger) (book demo_ledger) + 300) n, Returned None]"
  using concurrent_audit_miscounts[OF demo_wf, of "''ACC''" "''SHOP''" 300 "\<lambda>_. 0" "''T''"]
  by (auto simp: demo_names demo_book covered_def)

end
