(* ===== verification/Crypto.thy ===== *)
theory Crypto
  imports Prelude
begin

text \<open>
  The cryptographic routines of the Go standard library that the program calls.

  \<^item> \<open>crypto/sha256\<close> and \<open>crypto/hmac\<close> are defined outright (FIPS 180-4 and RFC 2104), so that digests
    evaluate.
  \<^item> \<open>crypto/ed25519\<close> is a parameter, the record \<open>ed25519\<close>: key generation from a seed, signing and
    verification. What the program relies on is the locale \<open>signature_scheme\<close>: signatures have 64
    bytes and a signature made with a generated key verifies under its public key. Unforgeability is
    a computational assumption and is never used.
\<close>

section \<open>SHA-256\<close>

definition rotr :: "nat \<Rightarrow> uint32 \<Rightarrow> uint32" where
  "rotr n x = drop_bit n x OR push_bit (32 - n) x"

text \<open>
  The constants of the standard: the first 32 bits of the fractional parts of the square roots of the
  first 8 primes and of the cube roots of the first 64.
\<close>

definition small_primes :: "int list" where
  "small_primes = filter (\<lambda>p. list_all (\<lambda>d. \<not> d dvd p) [2..p - 1]) [2..311]"

text \<open>The integer \<open>k\<close>-th root, bit by bit from \<open>2 ^ 36\<close> down.\<close>

definition iroot :: "nat \<Rightarrow> int \<Rightarrow> int" where
  "iroot k n = foldl (\<lambda>r b. if (r + 2 ^ b) ^ k \<le> n then r + 2 ^ b else r) 0 (rev [0..<37])"

definition sha256_K :: "uint32 list" where
  "sha256_K = map (\<lambda>p. word_of_int (iroot 3 (p * 2 ^ 96))) small_primes"

type_synonym sha_state =
  "uint32 \<times> uint32 \<times> uint32 \<times> uint32 \<times> uint32 \<times> uint32 \<times> uint32 \<times> uint32"

definition sha256_init :: sha_state where
  "sha256_init =
     (let h = (\<lambda>p. word_of_int (iroot 2 (p * 2 ^ 64)))
      in (h 2, h 3, h 5, h 7, h 11, h 13, h 17, h 19))"

text \<open>The message schedule, kept newest first: \<open>ws ! 1\<close> is \<open>W(t-2)\<close>, \<open>ws ! 15\<close> is \<open>W(t-16)\<close>.\<close>

fun schedule :: "nat \<Rightarrow> uint32 list \<Rightarrow> uint32 list" where
  "schedule 0 ws = ws"
| "schedule (Suc n) ws =
     (let x = ws ! 1; y = ws ! 14;
          s1 = rotr 17 x XOR rotr 19 x XOR drop_bit 10 x;
          s0 = rotr 7 y XOR rotr 18 y XOR drop_bit 3 y
      in schedule n ((s1 + ws ! 6 + s0 + ws ! 15) # ws))"

fun sha_rounds :: "(uint32 \<times> uint32) list \<Rightarrow> sha_state \<Rightarrow> sha_state" where
  "sha_rounds [] s = s"
| "sha_rounds ((k, w) # kws) (a, b, c, d, e, f, g, h) =
     (let S1 = rotr 6 e XOR rotr 11 e XOR rotr 25 e;
          ch = (e AND f) XOR (NOT e AND g);
          t1 = h + S1 + ch + k + w;
          S0 = rotr 2 a XOR rotr 13 a XOR rotr 22 a;
          maj = (a AND b) XOR (a AND c) XOR (b AND c)
      in sha_rounds kws (t1 + S0 + maj, a, b, c, d + t1, e, f, g))"

fun words_of :: "nat \<Rightarrow> byte list \<Rightarrow> uint32 list" where
  "words_of 0 bs = []"
| "words_of (Suc n) bs = un_be (take 4 bs) # words_of n (drop 4 bs)"

fun sha_block :: "byte list \<Rightarrow> sha_state \<Rightarrow> sha_state" where
  "sha_block blk (a, b, c, d, e, f, g, h) =
     (case sha_rounds (zip sha256_K (rev (schedule 48 (rev (words_of 16 blk))))) (a, b, c, d, e, f, g, h) of
        (a', b', c', d', e', f', g', h') \<Rightarrow>
          (a + a', b + b', c + c', d + d', e + e', f + f', g + g', h + h'))"

fun sha_blocks :: "nat \<Rightarrow> byte list \<Rightarrow> sha_state \<Rightarrow> sha_state" where
  "sha_blocks 0 bs s = s"
| "sha_blocks (Suc n) bs s = sha_blocks n (drop 64 bs) (sha_block (take 64 bs) s)"

definition sha_pad :: "byte list \<Rightarrow> byte list" where
  "sha_pad m = m @ [0x80] @ replicate ((119 - length m mod 64) mod 64) 0 @ be64 (of_nat (8 * length m))"

definition sha256 :: "byte list \<Rightarrow> byte list" where
  "sha256 m =
     (case sha_blocks (length (sha_pad m) div 64) (sha_pad m) sha256_init of
        (a, b, c, d, e, f, g, h) \<Rightarrow> concat (map be32 [a, b, c, d, e, f, g, h]))"

lemma length_sha256 [simp]: "length (sha256 m) = 32"
  by (simp add: sha256_def split: prod.split)

section \<open>HMAC-SHA256\<close>

definition hmac_sha256 :: "byte list \<Rightarrow> byte list \<Rightarrow> byte list" where
  "hmac_sha256 key m =
     (let k0 = (if 64 < length key then sha256 key else key);
          k = k0 @ replicate (64 - length k0) 0
      in sha256 (map (\<lambda>b. b XOR 0x5c) k @ sha256 (map (\<lambda>b. b XOR 0x36) k @ m)))"

section \<open>Ed25519\<close>

record ed25519 =
  NewKeyPair :: "byte list \<Rightarrow> byte list \<times> byte list"
  Sign :: "byte list \<Rightarrow> byte list \<Rightarrow> byte list"
  Verify :: "byte list \<Rightarrow> byte list \<Rightarrow> byte list \<Rightarrow> bool"

definition SignatureSize :: nat where
  "SignatureSize = 64"

text \<open>A key pair that \<open>GenerateKey\<close> can return.\<close>

definition key_pair :: "ed25519 \<Rightarrow> byte list \<Rightarrow> byte list \<Rightarrow> bool" where
  "key_pair ed pub priv \<longleftrightarrow> (\<exists>seed. NewKeyPair ed seed = (pub, priv))"

text \<open>The documented behaviour of the package, as a predicate on the parameter.\<close>

definition ed25519_correct :: "ed25519 \<Rightarrow> bool" where
  "ed25519_correct ed \<longleftrightarrow>
     (\<forall>priv m. length (Sign ed priv m) = SignatureSize) \<and>
     (\<forall>pub priv m. key_pair ed pub priv \<longrightarrow> Verify ed pub m (Sign ed priv m))"

text \<open>\<open>hex.DecodeString\<close> of a signature followed by the length test.\<close>

definition sig_bytes :: "string \<Rightarrow> byte list option" where
  "sig_bytes s =
     (case hex_decode s of
        None \<Rightarrow> None
      | Some b \<Rightarrow> if length b \<noteq> SignatureSize then None else Some b)"

lemma sig_bytes_Some: "sig_bytes s = Some b \<longleftrightarrow> hex_decode s = Some b \<and> length b = SignatureSize"
  by (auto simp: sig_bytes_def split: option.splits)

lemma ed25519_sig_bytes:
  "ed25519_correct ed \<Longrightarrow> sig_bytes (hex_encode (Sign ed priv m)) = Some (Sign ed priv m)"
  by (simp add: ed25519_correct_def sig_bytes_Some hex_decode_encode)

lemma ed25519_verifies:
  "ed25519_correct ed \<Longrightarrow> key_pair ed pub priv \<Longrightarrow> Verify ed pub m (Sign ed priv m)"
  by (simp add: ed25519_correct_def)

section \<open>Signed documents\<close>

text \<open>
  The interface that tokens and QR payloads share: a document has a digest that does not depend on
  its signature field. Then a document signed with a private key is authentic under its public key,
  and a document with the same digest and signature as an authentic one is authentic.
\<close>

locale signed_document =
  fixes digest :: "'d \<Rightarrow> byte list" and signature :: "'d \<Rightarrow> string" and attach :: "string \<Rightarrow> 'd \<Rightarrow> 'd"
  assumes signature_attach: "signature (attach s d) = s"
    and digest_attach: "digest (attach s d) = digest d"
begin

definition authentic :: "ed25519 \<Rightarrow> byte list \<Rightarrow> 'd \<Rightarrow> bool" where
  "authentic ed pub d \<longleftrightarrow>
     (case sig_bytes (signature d) of None \<Rightarrow> False | Some b \<Rightarrow> Verify ed pub (digest d) b)"

definition signed :: "ed25519 \<Rightarrow> byte list \<Rightarrow> 'd \<Rightarrow> 'd" where
  "signed ed priv d = attach (hex_encode (Sign ed priv (digest d))) d"

lemma signed_authentic:
  "ed25519_correct ed \<Longrightarrow> key_pair ed pub priv \<Longrightarrow> authentic ed pub (signed ed priv d)"
  by (simp add: authentic_def signed_def signature_attach digest_attach ed25519_sig_bytes ed25519_verifies)

lemma authenticE:
  assumes "authentic ed pub d"
  obtains b where "hex_decode (signature d) = Some b" "length b = SignatureSize" "Verify ed pub (digest d) b"
  using assms that by (auto simp: authentic_def sig_bytes_Some split: option.splits)

end

section \<open>A signature scheme for evaluation\<close>

text \<open>
  A keyed checksum with the documented behaviour (not a secure one): it shows that
  \<open>ed25519_correct\<close> can hold and lets witnesses compute.
\<close>

definition demo_ed25519 :: ed25519 where
  "demo_ed25519 = \<lparr>NewKeyPair = (\<lambda>seed. (seed, seed)),
     Sign = (\<lambda>k m. take 64 (k @ m @ replicate 64 0)),
     Verify = (\<lambda>k m s. s = take 64 (k @ m @ replicate 64 0))\<rparr>"

lemma demo_ed25519_correct [simp]: "ed25519_correct demo_ed25519"
  by (auto simp: ed25519_correct_def demo_ed25519_def key_pair_def SignatureSize_def min_def)

lemma demo_key_pair [simp]: "key_pair demo_ed25519 seed seed"
  by (auto simp: key_pair_def demo_ed25519_def)

end
