(* ===== verification/WAL_Store.thy ===== *)
theory WAL_Store
  imports Crypto
begin

text \<open>
  \<open>internal/edge/m5_local_store.go\<close>: the write-ahead log of offline transactions.

  \<^item> The log file is its byte content; the file offset is the end of the content at every write (the
    store opens the file without \<open>O_APPEND\<close> and recovery seeks to the end of what it kept).
  \<^item> \<open>encoding/json\<close> for a \<open>QueuedTransaction\<close> is the parameter \<open>tx_codec\<close>; the theorems name what they
    need of it, that the transactions at hand decode to themselves.
  \<^item> The outcome of each system call is a parameter: a write may fail after some bytes were written
    (\<open>ShortWrite\<close>), and the seeks, reads and the truncation of recovery may fail.
  \<^item> A vector clock is the association list of its map; a \<open>nil\<close> map and an empty one are both \<open>[]\<close>.
\<close>

section \<open>Data\<close>

definition WALMagicBytes :: "byte list" where
  "WALMagicBytes = [0x57, 0x41, 0x4C, 0x31]"

datatype wal_error =
  ErrTxAlreadyExists | ErrWriteHeader string | ErrWritePayload string | ErrSync string

primrec wal_error_text :: "wal_error \<Rightarrow> string" where
  "wal_error_text ErrTxAlreadyExists = ''transaction already exists in WAL''"
| "wal_error_text (ErrWriteHeader e) = ''failed to write WAL frame header: '' @ e"
| "wal_error_text (ErrWritePayload e) = ''failed to write WAL frame payload: '' @ e"
| "wal_error_text (ErrSync e) = ''failed to sync WAL to disk: '' @ e"

record QueuedTransaction =
  TxID :: string
  ClientTimestamp :: int64
  SequenceNum :: int64
  SeqNo :: uint64
  VectorClock :: "(string \<times> uint64) list"
  tx_TokenID :: string
  tx_AccountID :: string
  tx_MerchantID :: string
  tx_TerminalID :: string
  tx_Amount :: int64
  tx_Signature :: string
  tx_Status :: string
  PayloadHash :: string

record tx_codec =
  Marshal :: "QueuedTransaction \<Rightarrow> byte list"
  Unmarshal :: "byte list \<Rightarrow> QueuedTransaction option"

datatype write_outcome = WriteOK | ShortWrite nat string

record WALStore =
  filePath :: string
  wal_file :: "byte list"
  file_open :: bool
  txMap :: "string \<rightharpoonup> QueuedTransaction"
  order :: "string list"
  seqNumber :: uint64

definition ComputeHash :: "QueuedTransaction \<Rightarrow> string" where
  "ComputeHash tx =
     hex_encode (sha256 (bytes_of (TxID tx @ '':'' @ show_int64 (ClientTimestamp tx) @ '':''
       @ show_int64 (SequenceNum tx) @ '':'' @ show_uint64 (SeqNo tx) @ '':'' @ tx_TokenID tx @ '':''
       @ tx_AccountID tx @ '':'' @ tx_MerchantID tx @ '':'' @ show_int64 (tx_Amount tx))))"

section \<open>CRC-32\<close>

text \<open>\<open>crc32.ChecksumIEEE\<close>: the reflected polynomial \<open>0xedb88320\<close>, bit by bit.\<close>

definition crc_bit :: "uint32 \<Rightarrow> uint32" where
  "crc_bit c = (if bit c 0 then drop_bit 1 c XOR 0xedb88320 else drop_bit 1 c)"

definition crc32 :: "byte list \<Rightarrow> uint32" where
  "crc32 bs = NOT (foldl (\<lambda>c b. (crc_bit ^^ 8) (c XOR ucast b)) (NOT 0) bs)"

section \<open>Frames\<close>

definition frame_header :: "uint64 \<Rightarrow> byte list \<Rightarrow> byte list" where
  "frame_header seq payload =
     WALMagicBytes @ be64 seq @ be32 (of_nat (length payload)) @ be32 (crc32 payload)"

text \<open>
  Reading one frame: \<open>None\<close> when the recovery loop breaks, on a short header, wrong magic bytes, a
  short payload or a wrong checksum.
\<close>

definition read_frame :: "byte list \<Rightarrow> ((uint64 \<times> byte list) \<times> byte list) option" where
  "read_frame bs =
     (if length bs < 20 then None
      else if take 4 bs \<noteq> WALMagicBytes then None
      else
        let seq = un_be (take 8 (drop 4 bs));
            len = un_be (take 4 (drop 12 bs)) :: uint32;
            expectedCRC = un_be (take 4 (drop 16 bs));
            body = drop 20 bs
        in if length body < unat len then None
           else
             let payload = take (unat len) body in
             if crc32 payload \<noteq> expectedCRC then None
             else Some ((seq, payload), drop (unat len) body))"

lemma read_frame_shorter: "read_frame bs = Some (r, rest) \<Longrightarrow> length rest < length bs"
  by (auto simp: read_frame_def Let_def split: if_splits)

section \<open>Recovery\<close>

text \<open>Which system calls of a recovery succeed; reads are indexed by the number of the frame.\<close>

record disk =
  seek_ok :: bool
  header_read_ok :: "nat \<Rightarrow> bool"
  payload_read_ok :: "nat \<Rightarrow> bool"
  truncate_ok :: bool
  seek_end_ok :: bool

definition healthy_disk :: disk where
  "healthy_disk = \<lparr>seek_ok = True, header_read_ok = \<lambda>_. True, payload_read_ok = \<lambda>_. True,
     truncate_ok = True, seek_end_ok = True\<rparr>"

definition restore_tx :: "uint64 \<Rightarrow> QueuedTransaction \<Rightarrow> WALStore \<Rightarrow> WALStore" where
  "restore_tx seq tx s =
     s\<lparr>txMap := (txMap s)(TxID tx \<mapsto> tx), order := order s @ [TxID tx],
       seqNumber := (if seq > seqNumber s then seq else seqNumber s)\<rparr>"

text \<open>
  The loop on the bytes \<open>bs\<close> from \<open>readOffset\<close> on; \<open>i\<close> counts the frames. The length of a frame is
  added in \<open>uint32\<close>.
\<close>

function recover_loop :: "disk \<Rightarrow> tx_codec \<Rightarrow> nat \<Rightarrow> nat \<Rightarrow> nat \<Rightarrow> byte list \<Rightarrow> WALStore
    \<Rightarrow> (WALStore \<times> nat) option" where
  "recover_loop dk c i readOffset validOffset bs s =
     (if \<not> header_read_ok dk i then None
      else
        (case read_frame bs of
           None \<Rightarrow> Some (s, validOffset)
         | Some ((seq, payload), rest) \<Rightarrow>
             if \<not> payload_read_ok dk i then Some (s, validOffset)
             else
               (case Unmarshal c payload of
                  None \<Rightarrow> Some (s, validOffset)
                | Some tx \<Rightarrow>
                    recover_loop dk c (Suc i) (readOffset + 20 + length payload)
                      (readOffset + unat (20 + of_nat (length payload) :: uint32))
                      rest (restore_tx seq tx s))))"
  by pat_completeness auto
termination
  by (relation "measure (\<lambda>(dk, c, i, ro, vo, bs, s). length bs)") (auto dest: read_frame_shorter)

declare recover_loop.simps [simp del]

definition recover :: "disk \<Rightarrow> tx_codec \<Rightarrow> WALStore \<Rightarrow> WALStore option" where
  "recover dk c s =
     (if \<not> seek_ok dk then None
      else
        (case recover_loop dk c 0 0 0 (wal_file s) s of
           None \<Rightarrow> None
         | Some (s', validOffset) \<Rightarrow>
             if \<not> truncate_ok dk \<or> \<not> seek_end_ok dk then None
             else Some (s'\<lparr>wal_file := take validOffset (wal_file s')\<rparr>)))"

text \<open>
  \<open>os.OpenFile\<close> with \<open>O_CREATE\<close> gives the bytes of the file (none for a new one), or fails (\<open>None\<close>). The messages
  are the text before the wrapped error of the code's \<open>fmt.Errorf\<close>.
\<close>

definition NewWALStore :: "disk \<Rightarrow> tx_codec \<Rightarrow> string \<Rightarrow> byte list option \<Rightarrow> string + WALStore" where
  "NewWALStore dk c path content =
     (case content of
        None \<Rightarrow> Inl (''failed to open WAL file '' @ path)
      | Some bs \<Rightarrow>
          (case recover dk c \<lparr>filePath = path, wal_file = bs, file_open = True, txMap = Map.empty,
                              order = [], seqNumber = 0\<rparr> of
             None \<Rightarrow> Inl (''crash recovery failed on '' @ path)
           | Some s \<Rightarrow> Inr s))"

section \<open>Appending and reading\<close>

text \<open>One \<open>Write\<close>: the bytes that reach the file, and the error if any.\<close>

definition write_bytes :: "write_outcome \<Rightarrow> byte list \<Rightarrow> WALStore \<Rightarrow> string option \<times> WALStore" where
  "write_bytes w bs s =
     (if \<not> file_open s then (Some ''file already closed'', s)
      else
        (case w of
           WriteOK \<Rightarrow> (None, s\<lparr>wal_file := wal_file s @ bs\<rparr>)
         | ShortWrite n e \<Rightarrow> (Some e, s\<lparr>wal_file := wal_file s @ take n bs\<rparr>)))"

record append_io =
  header_write :: write_outcome
  payload_write :: write_outcome
  sync_error :: "string option"

definition io_ok :: append_io where
  "io_ok = \<lparr>header_write = WriteOK, payload_write = WriteOK, sync_error = None\<rparr>"

definition Append :: "tx_codec \<Rightarrow> append_io \<Rightarrow> QueuedTransaction \<Rightarrow> WALStore \<Rightarrow> wal_error option \<times> WALStore" where
  "Append c io tx s =
     (if txMap s (TxID tx) \<noteq> None then (Some ErrTxAlreadyExists, s)
      else
        let tx = (if PayloadHash tx = '''' then tx\<lparr>PayloadHash := ComputeHash tx\<rparr> else tx);
            payload = Marshal c tx;
            s1 = s\<lparr>seqNumber := seqNumber s + 1\<rparr>
        in (case write_bytes (header_write io) (frame_header (seqNumber s1) payload) s1 of
              (Some e, s2) \<Rightarrow> (Some (ErrWriteHeader e), s2)
            | (None, s2) \<Rightarrow>
                (case write_bytes (payload_write io) payload s2 of
                   (Some e, s3) \<Rightarrow> (Some (ErrWritePayload e), s3)
                 | (None, s3) \<Rightarrow>
                     (case sync_error io of
                        Some e \<Rightarrow> (Some (ErrSync e), s3)
                      | None \<Rightarrow>
                          (None, s3\<lparr>txMap := (txMap s3)(TxID tx \<mapsto> tx), order := order s3 @ [TxID tx]\<rparr>)))))"

text \<open>The zero value a missing key of \<open>txMap\<close> reads as.\<close>

definition zero_tx :: QueuedTransaction where
  "zero_tx = \<lparr>TxID = '''', ClientTimestamp = 0, SequenceNum = 0, SeqNo = 0, VectorClock = [],
     tx_TokenID = '''', tx_AccountID = '''', tx_MerchantID = '''', tx_TerminalID = '''', tx_Amount = 0,
     tx_Signature = '''', tx_Status = '''', PayloadHash = ''''\<rparr>"

definition tx_at :: "WALStore \<Rightarrow> string \<Rightarrow> QueuedTransaction" where
  "tx_at s k = (case txMap s k of None \<Rightarrow> zero_tx | Some tx \<Rightarrow> tx)"

definition is_pending :: "QueuedTransaction \<Rightarrow> bool" where
  "is_pending tx \<longleftrightarrow> tx_Status tx = ''PENDING'' \<or> tx_Status tx = ''''"

definition ReadAllPending :: "WALStore \<Rightarrow> QueuedTransaction list" where
  "ReadAllPending s = filter is_pending (map (tx_at s) (order s))"

definition ReadAll :: "WALStore \<Rightarrow> QueuedTransaction list" where
  "ReadAll s = map (tx_at s) (order s)"

definition UpdateStatus :: "string \<Rightarrow> string \<Rightarrow> WALStore \<Rightarrow> WALStore" where
  "UpdateStatus k newStatus s =
     (case txMap s k of
        None \<Rightarrow> s
      | Some tx \<Rightarrow> s\<lparr>txMap := (txMap s)(k \<mapsto> tx\<lparr>tx_Status := newStatus\<rparr>)\<rparr>)"

text \<open>\<open>Close\<close> returns the error of closing (\<open>True\<close> when the file was closed already).\<close>

definition Close :: "WALStore \<Rightarrow> bool \<times> WALStore" where
  "Close s = (\<not> file_open s, s\<lparr>file_open := False\<rparr>)"

section \<open>The contract of a framing\<close>

text \<open>
  What recovery relies on: a written frame is read back with what follows it, and a frame that was
  cut short is not read. Then reading a sequence of frames that was cut at any byte yields exactly
  the frames that lie before the cut.
\<close>

locale framing =
  fixes ok :: "'r \<Rightarrow> bool" and put :: "'r \<Rightarrow> 'b list" and get :: "'b list \<Rightarrow> ('r \<times> 'b list) option"
  assumes get_put: "ok r \<Longrightarrow> get (put r @ rest) = Some (r, rest)"
    and get_torn: "ok r \<Longrightarrow> n < length (put r) \<Longrightarrow> get (take n (put r)) = None"
    and get_shorter: "get bs = Some (r, rest) \<Longrightarrow> length rest < length bs"
begin

text \<open>The frames that fit in the first \<open>n\<close> bytes.\<close>

fun fitting :: "nat \<Rightarrow> 'r list \<Rightarrow> 'r list" where
  "fitting n [] = []"
| "fitting n (r # rs) = (if length (put r) \<le> n then r # fitting (n - length (put r)) rs else [])"

definition put_all :: "'r list \<Rightarrow> 'b list" where
  "put_all rs = concat (map put rs)"

lemma get_empty: "get [] = None"
  using get_shorter by (cases "get []") fastforce+

lemma fitting_prefix: "\<exists>rs'. rs = fitting n rs @ rs'"
  by (induction rs arbitrary: n) auto

lemma fitting_all: "length (put_all rs) \<le> n \<Longrightarrow> fitting n rs = rs"
  by (induction rs arbitrary: n) (auto simp: put_all_def)

lemma fitting_maximal:
  "length (fitting n rs) < length rs \<Longrightarrow> n < length (put_all (take (Suc (length (fitting n rs))) rs))"
proof (induction rs arbitrary: n)
  case (Cons r rs)
  from Cons.prems Cons.IH[of "n - length (put r)"] show ?case by (auto simp: put_all_def split: if_splits)
qed simp

lemma cut_split:
  assumes "list_all ok rs"
  shows "\<exists>rest. take n (put_all rs) = put_all (fitting n rs) @ rest \<and> get rest = None"
  using assms
proof (induction rs arbitrary: n)
  case (Cons r rs)
  show ?case
  proof (cases "length (put r) \<le> n")
    case True
    obtain rest where "take (n - length (put r)) (put_all rs) = put_all (fitting (n - length (put r)) rs) @ rest"
        "get rest = None" using Cons.IH[of "n - length (put r)"] Cons.prems by auto
    with True show ?thesis by (auto simp: put_all_def)
  next
    case False
    with Cons.prems get_torn[of r n] show ?thesis by (auto simp: put_all_def)
  qed
qed (simp add: put_all_def get_empty)

lemma fitting_length: "length (put_all (fitting n rs)) \<le> n"
proof (induction rs arbitrary: n)
  case (Cons r rs)
  have "length (put_all (fitting (n - length (put r)) rs)) \<le> n - length (put r)" by (rule Cons.IH)
  then show ?case by (auto simp: put_all_def)
qed (simp add: put_all_def)

end

end
