(* ===== verification/Stable_Sort.thy ===== *)
theory Stable_Sort
  imports Prelude
begin

text \<open>
  \<open>sort.SliceStable\<close> of the Go standard library (\<open>stable_func\<close>, \<open>insertionSort_func\<close> and
  \<open>symMerge_func\<close> of \<open>sort/zsortfunc.go\<close>) on a list, with the comparison as a parameter. The algorithm is
  modelled in full because its result for a comparison that is no strict weak order depends on it.
  A run of adjacent swaps that moves one element, and \<open>rotate_func\<close>, both exchange two neighbouring
  blocks: \<open>rotate_blocks\<close>.

  For every comparison the result is a permutation of the input. For a strict weak order (the locale
  \<open>strict_weak_order\<close>) and at most twenty elements it is sorted.
\<close>

section \<open>The algorithm\<close>

definition rotate_blocks :: "nat \<Rightarrow> nat \<Rightarrow> nat \<Rightarrow> 'a list \<Rightarrow> 'a list" where
  "rotate_blocks a m b d =
     take a d @ drop m (take b d) @ drop a (take m d) @ drop b d"

text \<open>Insertion sort: the inner loop moves an element left while it is less than its neighbour.\<close>

fun sift :: "('a \<Rightarrow> 'a \<Rightarrow> bool) \<Rightarrow> 'a \<Rightarrow> 'a list \<Rightarrow> 'a list" where
  "sift lt x [] = [x]"
| "sift lt x (y # ys) = (if lt x y then y # sift lt x ys else x # y # ys)"

text \<open>\<open>rev_sorted\<close> holds the sorted prefix, last element first.\<close>

fun insertion_loop :: "('a \<Rightarrow> 'a \<Rightarrow> bool) \<Rightarrow> 'a list \<Rightarrow> 'a list \<Rightarrow> 'a list" where
  "insertion_loop lt rev_sorted [] = rev rev_sorted"
| "insertion_loop lt rev_sorted (x # xs) = insertion_loop lt (sift lt x rev_sorted) xs"

definition insertionSort :: "('a \<Rightarrow> 'a \<Rightarrow> bool) \<Rightarrow> 'a list \<Rightarrow> 'a list" where
  "insertionSort lt xs = insertion_loop lt [] xs"

text \<open>The binary searches of \<open>symMerge_func\<close>: move right while the test holds at the middle.\<close>

function bsearch :: "(nat \<Rightarrow> bool) \<Rightarrow> nat \<Rightarrow> nat \<Rightarrow> nat" where
  "bsearch test i j =
     (if i < j then let h = (i + j) div 2 in if test h then bsearch test (h + 1) j else bsearch test i h
      else i)"
  by pat_completeness auto
termination
  by (relation "measure (\<lambda>(test, i, j). j - i)") auto

declare bsearch.simps [simp del]

lemma bsearch_bounds: "i \<le> j \<Longrightarrow> i \<le> bsearch test i j \<and> bsearch test i j \<le> j"
proof (induction test i j rule: bsearch.induct)
  case (1 test i j)
  show ?case
  proof (cases "i < j")
    case True
    then have "(i + j) div 2 < j \<and> i \<le> (i + j) div 2" by auto
    with True 1 show ?thesis by (subst (1 2) bsearch.simps) (fastforce simp: Let_def)
  qed (use 1 in \<open>simp add: bsearch.simps\<close>)
qed

text \<open>The split point of a merge: the values of \<open>start\<close> after its binary search and of \<open>end\<close>.\<close>

definition sym_start :: "('a \<Rightarrow> 'a \<Rightarrow> bool) \<Rightarrow> nat \<Rightarrow> nat \<Rightarrow> nat \<Rightarrow> 'a list \<Rightarrow> nat" where
  "sym_start lt a m b d =
     (let mid = (a + b) div 2; n = mid + m
      in bsearch (\<lambda>c. \<not> lt (d ! (n - 1 - c)) (d ! c))
           (if m > mid then n - b else a) (if m > mid then mid else m))"

definition sym_end :: "('a \<Rightarrow> 'a \<Rightarrow> bool) \<Rightarrow> nat \<Rightarrow> nat \<Rightarrow> nat \<Rightarrow> 'a list \<Rightarrow> nat" where
  "sym_end lt a m b d = (a + b) div 2 + m - sym_start lt a m b d"

definition sym_rotate :: "('a \<Rightarrow> 'a \<Rightarrow> bool) \<Rightarrow> nat \<Rightarrow> nat \<Rightarrow> nat \<Rightarrow> 'a list \<Rightarrow> 'a list" where
  "sym_rotate lt a m b d =
     (if sym_start lt a m b d < m \<and> m < sym_end lt a m b d
      then rotate_blocks (sym_start lt a m b d) m (sym_end lt a m b d) d else d)"

definition merge_left_one :: "('a \<Rightarrow> 'a \<Rightarrow> bool) \<Rightarrow> nat \<Rightarrow> nat \<Rightarrow> nat \<Rightarrow> 'a list \<Rightarrow> 'a list" where
  "merge_left_one lt a m b d = rotate_blocks a (a + 1) (bsearch (\<lambda>h. lt (d ! h) (d ! a)) m b) d"

definition merge_right_one :: "('a \<Rightarrow> 'a \<Rightarrow> bool) \<Rightarrow> nat \<Rightarrow> nat \<Rightarrow> 'a list \<Rightarrow> 'a list" where
  "merge_right_one lt a m d = rotate_blocks (bsearch (\<lambda>h. \<not> lt (d ! m) (d ! h)) a m) m (m + 1) d"

lemma mid_halves:
  assumes "a < m \<and> m < (b::nat)"
  shows "(a + b) div 2 - a < b - a" "b - (a + b) div 2 < b - a"
  using assms by linarith+

function symMerge :: "('a \<Rightarrow> 'a \<Rightarrow> bool) \<Rightarrow> nat \<Rightarrow> nat \<Rightarrow> nat \<Rightarrow> 'a list \<Rightarrow> 'a list" where
  "symMerge lt a m b d =
     (if \<not> (a < m \<and> m < b) then d
      else if m - a = 1 then merge_left_one lt a m b d
      else if b - m = 1 then merge_right_one lt a m d
      else
        (let mid = (a + b) div 2;
             d2 = (if a < sym_start lt a m b d \<and> sym_start lt a m b d < mid
                   then symMerge lt a (sym_start lt a m b d) mid (sym_rotate lt a m b d)
                   else sym_rotate lt a m b d)
         in if mid < sym_end lt a m b d \<and> sym_end lt a m b d < b
            then symMerge lt mid (sym_end lt a m b d) b d2 else d2))"
  by pat_completeness simp
termination
  by (relation "measure (\<lambda>(lt, a, m, b, d). b - a)") (simp_all add: mid_halves)

declare symMerge.simps [simp del]

text \<open>Insertion sort of the blocks of twenty, then merging of blocks of doubled size.\<close>

function sort_blocks :: "('a \<Rightarrow> 'a \<Rightarrow> bool) \<Rightarrow> 'a list \<Rightarrow> 'a list" where
  "sort_blocks lt xs =
     (if length xs < 20 then insertionSort lt xs
      else insertionSort lt (take 20 xs) @ sort_blocks lt (drop 20 xs))"
  by pat_completeness auto
termination
  by (relation "measure (\<lambda>(lt, xs). length xs)") auto

declare sort_blocks.simps [simp del]

text \<open>One pass of merging neighbouring blocks of the given size (at least one) from \<open>a\<close> on.\<close>

function merge_pass :: "('a \<Rightarrow> 'a \<Rightarrow> bool) \<Rightarrow> nat \<Rightarrow> nat \<Rightarrow> nat \<Rightarrow> 'a list \<Rightarrow> 'a list" where
  "merge_pass lt blk n a d =
     (if 0 < blk \<and> a + 2 * blk \<le> n then
        merge_pass lt blk n (a + 2 * blk) (symMerge lt a (a + blk) (a + 2 * blk) d)
      else if a + blk < n then symMerge lt a (a + blk) n d
      else d)"
  by pat_completeness auto
termination
  by (relation "measure (\<lambda>(lt, blk, n, a, d). n - a)") auto

declare merge_pass.simps [simp del]

function merge_passes :: "('a \<Rightarrow> 'a \<Rightarrow> bool) \<Rightarrow> nat \<Rightarrow> nat \<Rightarrow> 'a list \<Rightarrow> 'a list" where
  "merge_passes lt blk n d =
     (if 0 < blk \<and> blk < n then merge_passes lt (2 * blk) n (merge_pass lt blk n 0 d) else d)"
  by pat_completeness auto
termination
  by (relation "measure (\<lambda>(lt, blk, n, d). n - blk)") auto

declare merge_passes.simps [simp del]

definition SliceStable :: "('a \<Rightarrow> 'a \<Rightarrow> bool) \<Rightarrow> 'a list \<Rightarrow> 'a list" where
  "SliceStable lt xs = merge_passes lt 20 (length xs) (sort_blocks lt xs)"

section \<open>Permutation\<close>

lemma mset_rotate_blocks:
  assumes "a \<le> m" and "m \<le> b"
  shows "mset (rotate_blocks a m b d) = mset d"
proof -
  have "take b d = take a (take m (take b d)) @ drop a (take m (take b d)) @ drop m (take b d)"
    by (metis append.assoc append_take_drop_id)
  then have "take b d = take a d @ drop a (take m d) @ drop m (take b d)"
    using assms by (simp add: min_def)
  then have "mset d = mset (take a d) + mset (drop a (take m d)) + mset (drop m (take b d)) + mset (drop b d)"
    by (metis append_take_drop_id mset_append union_assoc)
  then show ?thesis by (simp add: rotate_blocks_def ac_simps)
qed

lemma mset_sift: "mset (sift lt x ys) = add_mset x (mset ys)"
  by (induction ys) auto

lemma mset_insertion_loop: "mset (insertion_loop lt acc xs) = mset acc + mset xs"
  by (induction lt acc xs rule: insertion_loop.induct) (auto simp: mset_sift)

lemma mset_insertionSort [simp]: "mset (insertionSort lt xs) = mset xs"
  by (simp add: insertionSort_def mset_insertion_loop)

lemma mset_sym_rotate: "mset (sym_rotate lt a m b d) = mset d"
  by (simp add: sym_rotate_def mset_rotate_blocks)

lemma mset_symMerge: "mset (symMerge lt a m b d) = mset d"
proof (induction lt a m b d rule: symMerge.induct)
  case (1 lt a m b d)
  show ?case
  proof (cases "a < m \<and> m < b \<and> m - a \<noteq> 1 \<and> b - m \<noteq> 1")
    case True
    define d2 where "d2 = (if a < sym_start lt a m b d \<and> sym_start lt a m b d < (a + b) div 2
      then symMerge lt a (sym_start lt a m b d) ((a + b) div 2) (sym_rotate lt a m b d) else sym_rotate lt a m b d)"
    have "mset d2 = mset d" using 1(1)[OF _ _ _ refl] True by (simp add: d2_def mset_sym_rotate)
    moreover have "symMerge lt a m b d = (if (a + b) div 2 < sym_end lt a m b d \<and> sym_end lt a m b d < b
        then symMerge lt ((a + b) div 2) (sym_end lt a m b d) b d2 else d2)"
      using True by (subst symMerge.simps) (simp add: d2_def Let_def)
    ultimately show ?thesis using 1(2)[OF _ _ _ refl d2_def] True by simp
  next
    case False
    have "mset (merge_left_one lt a m b d) = mset d" if "m - a = 1" "a < m" "m < b"
      unfolding merge_left_one_def using that bsearch_bounds[of m b "\<lambda>h. lt (d ! h) (d ! a)"]
      by (intro mset_rotate_blocks) auto
    moreover have "mset (merge_right_one lt a m d) = mset d" if "a < m"
      unfolding merge_right_one_def using that bsearch_bounds[of a m "\<lambda>h. \<not> lt (d ! m) (d ! h)"]
      by (intro mset_rotate_blocks) auto
    ultimately show ?thesis using False by (subst symMerge.simps) auto
  qed
qed

lemma mset_sort_blocks: "mset (sort_blocks lt xs) = mset xs"
proof (induction lt xs rule: sort_blocks.induct)
  case (1 lt xs)
  have "mset (take 20 xs) + mset (drop 20 xs) = mset xs"
    by (simp only: mset_append[symmetric] append_take_drop_id)
  then show ?case
    using 1 by (cases "length xs < 20") (simp_all add: sort_blocks.simps[of lt xs])
qed

lemma mset_merge_pass: "mset (merge_pass lt blk n a d) = mset d"
proof (induction lt blk n a d rule: merge_pass.induct)
  case (1 lt blk n a d)
  then show ?case by (subst merge_pass.simps) (simp add: mset_symMerge)
qed

lemma mset_merge_passes: "mset (merge_passes lt blk n d) = mset d"
proof (induction lt blk n d rule: merge_passes.induct)
  case (1 lt blk n d)
  then show ?case by (subst merge_passes.simps) (simp add: mset_merge_pass)
qed

lemma mset_SliceStable [simp]: "mset (SliceStable lt xs) = mset xs"
  by (simp add: SliceStable_def mset_merge_passes mset_sort_blocks)

lemma set_SliceStable [simp]: "set (SliceStable lt xs) = set xs"
  by (rule mset_eq_setD[OF mset_SliceStable])

lemma length_SliceStable [simp]: "length (SliceStable lt xs) = length xs"
  by (rule mset_eq_length[OF mset_SliceStable])

lemma SliceStable_small: "length xs \<le> 20 \<Longrightarrow> SliceStable lt xs = insertionSort lt xs"
  by (simp add: SliceStable_def merge_passes.simps[of lt 20] sort_blocks.simps[of lt xs] sort_blocks.simps[of lt "[]"]
      insertionSort_def)

section \<open>Sortedness for a strict weak order\<close>

locale strict_weak_order =
  fixes lt :: "'a \<Rightarrow> 'a \<Rightarrow> bool" and dom_set :: "'a set"
  assumes lt_irrefl: "x \<in> dom_set \<Longrightarrow> \<not> lt x x"
    and lt_trans: "x \<in> dom_set \<Longrightarrow> y \<in> dom_set \<Longrightarrow> z \<in> dom_set \<Longrightarrow> lt x y \<Longrightarrow> lt y z \<Longrightarrow> lt x z"
    and incomparable_trans: "x \<in> dom_set \<Longrightarrow> y \<in> dom_set \<Longrightarrow> z \<in> dom_set \<Longrightarrow> \<not> lt x y \<Longrightarrow> \<not> lt y z \<Longrightarrow> \<not> lt x z"
begin

lemma lt_asym: "x \<in> dom_set \<Longrightarrow> y \<in> dom_set \<Longrightarrow> lt x y \<Longrightarrow> \<not> lt y x"
  using lt_irrefl lt_trans by blast

text \<open>No element is less than an earlier one; on the reversed prefix, than a later one.\<close>

abbreviation in_order :: "'a list \<Rightarrow> bool" where
  "in_order \<equiv> sorted_wrt (\<lambda>x y. \<not> lt y x)"

lemma sift_sorted:
  assumes "set ys \<subseteq> dom_set" and "x \<in> dom_set" and "sorted_wrt (\<lambda>u v. \<not> lt u v) ys"
  shows "sorted_wrt (\<lambda>u v. \<not> lt u v) (sift lt x ys)"
  using assms
proof (induction ys)
  case (Cons y ys)
  show ?case
  proof (cases "lt x y")
    case True
    have "\<not> lt y z" if "z \<in> set (sift lt x ys)" for z
      using that Cons.prems True lt_asym[of x y] mset_eq_setD[OF mset_sift[of lt x ys, folded mset.simps(2)]] by auto
    with True Cons show ?thesis by simp
  next
    case False
    have "\<not> lt x z" if "z \<in> set ys" for z
      using that Cons.prems False incomparable_trans[of x y z] by auto
    with False Cons.prems show ?thesis by simp
  qed
qed simp

lemma insertion_loop_sorted:
  assumes "set acc \<union> set xs \<subseteq> dom_set" and "sorted_wrt (\<lambda>u v. \<not> lt u v) acc"
  shows "in_order (insertion_loop lt acc xs)"
  using assms
proof (induction xs arbitrary: acc)
  case (Cons x xs)
  have "set (sift lt x acc) = insert x (set acc)"
    using mset_eq_setD[of "sift lt x acc" "x # acc"] by (simp add: mset_sift)
  then show ?case
    using Cons.prems sift_sorted[of acc x] by (simp, intro Cons.IH) auto
qed (simp add: sorted_wrt_rev)

lemma SliceStable_sorted:
  "set xs \<subseteq> dom_set \<Longrightarrow> length xs \<le> 20 \<Longrightarrow> in_order (SliceStable lt xs)"
  using insertion_loop_sorted[of "[]" xs] by (simp add: SliceStable_small insertionSort_def)

text \<open>Two lists in order with the same elements are equal when distinct elements are comparable.\<close>

lemma in_order_unique:
  assumes "in_order xs" and "in_order ys" and "mset xs = mset ys" and "set xs \<subseteq> dom_set"
    and "\<And>x y. x \<in> set xs \<Longrightarrow> y \<in> set xs \<Longrightarrow> \<not> lt x y \<Longrightarrow> \<not> lt y x \<Longrightarrow> x = y"
  shows "xs = ys"
  using assms
proof (induction xs arbitrary: ys)
  case (Cons x xs)
  then obtain y ys' where ys: "ys = y # ys'" by (cases ys) auto
  have eq: "set (x # xs) = set (y # ys')" using Cons.prems(3) ys by (metis mset_eq_setD)
  have "\<not> lt y x \<or> y = x" "\<not> lt x y \<or> x = y"
    using Cons.prems(1,2) ys eq by auto
  moreover have "x \<in> set (x # xs)" "y \<in> set (x # xs)" using eq by auto
  ultimately have "x = y" using Cons.prems(5) by blast
  moreover have "xs = ys'"
    using Cons.prems \<open>x = y\<close> ys by (intro Cons.IH) auto
  ultimately show ?case by (simp add: ys)
qed simp

end

end
