(* ===== verification/Reconcile.thy ===== *)
theory Reconcile
  imports Ledger WAL_Store Stable_Sort
begin

text \<open>
  \<open>internal/reconcile/m6_engine.go\<close>: replay of the offline transactions onto the core ledger.

  \<^item> The reconciler shares the ledger with the gateway, so \<open>Replay\<close> takes and returns the ledger and
    the store. It returns \<open>None\<close> when it calls a ledger operation that never returns.
  \<^item> The set \<open>seenHashes\<close> is the Go map whose values are all true.
  \<^item> The clock \<open>clk i k\<close> is the clock of the \<open>k\<close>-th ledger call site for the \<open>i\<close>-th transaction.
  \<^item> Counters of type \<open>int\<close> are natural numbers (they count list elements); amounts are \<open>int64\<close>.
\<close>

section \<open>Data\<close>

record DeficitRecord =
  dr_TxID :: string
  dr_AccountID :: string
  dr_MerchantID :: string
  dr_Amount :: int64
  AvailableOnCore :: int64
  DeficitAmount :: int64
  FlaggedForAlert :: bool
  dr_CreatedAt :: time
  Reason :: string

record ReconciliationReport =
  TotalProcessed :: nat
  SuccessfulCount :: nat
  DeficitCount :: nat
  DuplicateCount :: nat
  TotalAmountReconciled :: int64
  TotalDeficitAmount :: int64
  DeficitRecords :: "DeficitRecord list"
  StartedAt :: time
  CompletedAt :: time

record Reconciler =
  seenHashes :: "string set"
  deficitLogs :: "DeficitRecord list"
  useDeficitReserve :: bool

definition NewReconciler :: Reconciler where
  "NewReconciler = \<lparr>seenHashes = {}, deficitLogs = [], useDeficitReserve = False\<rparr>"

definition SetUseDeficitReserve :: "bool \<Rightarrow> Reconciler \<Rightarrow> Reconciler" where
  "SetUseDeficitReserve enabled r = r\<lparr>useDeficitReserve := enabled\<rparr>"

definition GetDeficitLogs :: "Reconciler \<Rightarrow> DeficitRecord list" where
  "GetDeficitLogs r = deficitLogs r"

section \<open>Ordering\<close>

type_synonym vclock = "(string \<times> uint64) list"

text \<open>Reading a key of the map; zero when it is missing.\<close>

definition vc_at :: "vclock \<Rightarrow> string \<Rightarrow> uint64" where
  "vc_at v k = (case map_of v k of None \<Rightarrow> 0 | Some c \<Rightarrow> c)"

definition CompareVectorClocks :: "vclock \<Rightarrow> vclock \<Rightarrow> int" where
  "CompareVectorClocks va vb =
     (if va = [] \<and> vb = [] then 0
      else
        let allKeys = map fst va @ map fst vb;
            (aLeB, bLeA) = foldl (\<lambda>(le, ge) k. (le \<and> \<not> vc_at va k > vc_at vb k, ge \<and> \<not> vc_at vb k > vc_at va k))
              (True, True) allKeys
        in if aLeB \<and> \<not> bLeA then - 1 else if bLeA \<and> \<not> aLeB then 1 else 0)"

text \<open>The tie-breakers, in the order the code tests them.\<close>

definition tie_less :: "QueuedTransaction \<Rightarrow> QueuedTransaction \<Rightarrow> bool" where
  "tie_less x y =
     (if SeqNo x \<noteq> SeqNo y then SeqNo x < SeqNo y
      else if SequenceNum x \<noteq> SequenceNum y then sint (SequenceNum x) < sint (SequenceNum y)
      else if tx_TerminalID x \<noteq> tx_TerminalID y then tx_TerminalID x < tx_TerminalID y
      else if ClientTimestamp x \<noteq> ClientTimestamp y then sint (ClientTimestamp x) < sint (ClientTimestamp y)
      else TxID x < TxID y)"

definition tx_less :: "QueuedTransaction \<Rightarrow> QueuedTransaction \<Rightarrow> bool" where
  "tx_less x y =
     (let cmp = CompareVectorClocks (VectorClock x) (VectorClock y) in
      if cmp \<noteq> 0 then cmp < 0 else tie_less x y)"

definition SortTransactionsVectorClock :: "QueuedTransaction list \<Rightarrow> QueuedTransaction list" where
  "SortTransactionsVectorClock queued = SliceStable tx_less queued"

section \<open>Replay\<close>

type_synonym replay_state = "ConservingLedger \<times> WALStore \<times> Reconciler \<times> ReconciliationReport"

definition tx_hash :: "QueuedTransaction \<Rightarrow> string" where
  "tx_hash tx = (let hash = PayloadHash tx in if hash = '''' then ComputeHash tx else hash)"

text \<open>The balances the loop inspects: those of the account, or zeros when it does not exist.\<close>

definition core_snapshot :: "string \<Rightarrow> ConservingLedger \<Rightarrow> AccountSnapshot" where
  "core_snapshot accountID l =
     (case GetAccount accountID l of
        (snap, None) \<Rightarrow> snap
      | (_, Some _) \<Rightarrow> empty_snapshot\<lparr>snap_ID := accountID\<rparr>)"

definition settled :: "QueuedTransaction \<Rightarrow> ConservingLedger \<Rightarrow> replay_state \<Rightarrow> replay_state" where
  "settled tx l st =
     (case st of (_, s, r, rep) \<Rightarrow>
        (l, UpdateStatus (TxID tx) ''RECONCILED'' s, r,
         rep\<lparr>SuccessfulCount := SuccessfulCount rep + 1,
             TotalAmountReconciled := TotalAmountReconciled rep + tx_Amount tx\<rparr>))"

definition in_deficit :: "QueuedTransaction \<Rightarrow> DeficitRecord \<Rightarrow> ConservingLedger \<Rightarrow> replay_state \<Rightarrow> replay_state" where
  "in_deficit tx entry l st =
     (case st of (_, s, r, rep) \<Rightarrow>
        (l, UpdateStatus (TxID tx) ''DEFICIT'' s, r\<lparr>deficitLogs := deficitLogs r @ [entry]\<rparr>,
         rep\<lparr>DeficitRecords := DeficitRecords rep @ [entry], DeficitCount := DeficitCount rep + 1,
             TotalDeficitAmount := TotalDeficitAmount rep + tx_Amount tx\<rparr>))"

definition deficit_entry :: "QueuedTransaction \<Rightarrow> int64 \<Rightarrow> int64 \<Rightarrow> time \<Rightarrow> string \<Rightarrow> DeficitRecord" where
  "deficit_entry tx available amount now reason =
     \<lparr>dr_TxID = TxID tx, dr_AccountID = tx_AccountID tx, dr_MerchantID = tx_MerchantID tx,
      dr_Amount = tx_Amount tx, AvailableOnCore = available, DeficitAmount = amount,
      FlaggedForAlert = True, dr_CreatedAt = now, Reason = reason\<rparr>"

text \<open>The deficit branch with the reserve: the customer pays what is there, the reserve the rest.\<close>

definition customer_covered :: "QueuedTransaction \<Rightarrow> AccountSnapshot \<Rightarrow> int64" where
  "customer_covered tx snap =
     (let c = snap_OnlineAvailable snap;
          c = (if sint c < 0 then 0 else c)
      in if sint c > sint (tx_Amount tx) then tx_Amount tx else c)"

definition charge_reserve ::
  "(nat \<Rightarrow> clock) \<Rightarrow> QueuedTransaction \<Rightarrow> AccountSnapshot \<Rightarrow> replay_state \<Rightarrow> replay_state option" where
  "charge_reserve clk tx snap st =
     (let l = fst st;
          customerCovered = customer_covered tx snap;
          uncoveredDelta = tx_Amount tx - customerCovered;
          l1 = (if sint customerCovered > 0
                then snd (DirectCommit (clk 2) (tx_AccountID tx) (tx_MerchantID tx) customerCovered
                       (TxID tx @ ''-USER'') l)
                else l)
      in case (if sint uncoveredDelta > 0
               then map_option snd (DebitDeficitReserve (clk 3) (tx_MerchantID tx) uncoveredDelta
                      (TxID tx @ ''-RESERVE'') l1)
               else Some l1) of
           None \<Rightarrow> None
         | Some l2 \<Rightarrow>
             Some (in_deficit tx (deficit_entry tx (snap_OnlineAvailable snap) uncoveredDelta (clk 4 0)
                     ''RECON_DEFICIT_CHARGED_TO_RESERVE'') l2 st))"

text \<open>The legacy branch: the whole amount is debited, below zero if need be.\<close>

definition overdraw ::
  "(nat \<Rightarrow> clock) \<Rightarrow> QueuedTransaction \<Rightarrow> AccountSnapshot \<Rightarrow> replay_state \<Rightarrow> replay_state option" where
  "overdraw clk tx snap st =
     (let l = fst st;
          d = tx_Amount tx - snap_OnlineAvailable snap;
          deficitAmount = (if sint d < 0 then tx_Amount tx else d);
          reason = ''Insufficient available funds on core (available: '' @ show_int64 (snap_OnlineAvailable snap)
            @ '' cents, required: '' @ show_int64 (tx_Amount tx) @ '' cents)''
      in case RecordDeficit (clk 3) (tx_AccountID tx) (tx_MerchantID tx) (tx_Amount tx) (TxID tx) l of
           None \<Rightarrow> None
         | Some (_, l2) \<Rightarrow>
             Some (in_deficit tx (deficit_entry tx (snap_OnlineAvailable snap) deficitAmount (clk 4 0) reason) l2 st))"

text \<open>Settlement of a transaction that was not seen before.\<close>

definition settle_tx :: "(nat \<Rightarrow> clock) \<Rightarrow> QueuedTransaction \<Rightarrow> replay_state \<Rightarrow> replay_state option" where
  "settle_tx clk tx st =
     (let l = fst st;
          snap = core_snapshot (tx_AccountID tx) l;
          (e1, l1) = (if sint (snap_OfflineAllowance snap) \<ge> sint (tx_Amount tx)
                      then CommitOfflineAllowance (clk 0) (tx_AccountID tx) (tx_MerchantID tx) (tx_Amount tx) (TxID tx) l
                      else (Some ErrInsufficientFunds, l))
      in if e1 = None then Some (settled tx l1 st)
         else
           let (e2, l2) = (if sint (snap_OnlineAvailable snap) \<ge> sint (tx_Amount tx)
                           then DirectCommit (clk 1) (tx_AccountID tx) (tx_MerchantID tx) (tx_Amount tx) (TxID tx) l1
                           else (Some ErrInsufficientFunds, l1))
           in if e2 = None then Some (settled tx l2 st)
              else
                let st2 = (l2, snd st) in
                if useDeficitReserve (fst (snd (snd st))) then charge_reserve clk tx snap st2
                else overdraw clk tx snap st2)"

definition replay_tx :: "(nat \<Rightarrow> clock) \<Rightarrow> QueuedTransaction \<Rightarrow> replay_state \<Rightarrow> replay_state option" where
  "replay_tx clk tx st =
     (case st of (l, s, r, rep) \<Rightarrow>
        if tx_hash tx \<in> seenHashes r then
          Some (l, UpdateStatus (TxID tx) ''DUPLICATE'' s, r, rep\<lparr>DuplicateCount := DuplicateCount rep + 1\<rparr>)
        else settle_tx clk tx (l, s, r\<lparr>seenHashes := insert (tx_hash tx) (seenHashes r)\<rparr>, rep))"

fun replay_loop ::
  "(nat \<Rightarrow> nat \<Rightarrow> clock) \<Rightarrow> nat \<Rightarrow> QueuedTransaction list \<Rightarrow> replay_state \<Rightarrow> replay_state option" where
  "replay_loop clk i [] st = Some st"
| "replay_loop clk i (tx # txs) st =
     (case replay_tx (clk i) tx st of None \<Rightarrow> None | Some st' \<Rightarrow> replay_loop clk (Suc i) txs st')"

definition empty_report :: "nat \<Rightarrow> time \<Rightarrow> ReconciliationReport" where
  "empty_report n startTime =
     \<lparr>TotalProcessed = n, SuccessfulCount = 0, DeficitCount = 0, DuplicateCount = 0,
      TotalAmountReconciled = 0, TotalDeficitAmount = 0, DeficitRecords = [],
      StartedAt = startTime, CompletedAt = - 62135596800 * Second\<rparr>"

definition Replay ::
  "time \<Rightarrow> (nat \<Rightarrow> nat \<Rightarrow> clock) \<Rightarrow> time \<Rightarrow> ConservingLedger \<Rightarrow> WALStore \<Rightarrow> Reconciler \<Rightarrow> replay_state option" where
  "Replay startTime clk endTime l s r =
     (let queued = SortTransactionsVectorClock (ReadAllPending s) in
      case replay_loop clk 0 queued (l, s, r, empty_report (length queued) startTime) of
        None \<Rightarrow> None
      | Some (l', s', r', rep) \<Rightarrow> Some (l', s', r', rep\<lparr>CompletedAt := endTime\<rparr>))"

end
