(* ===== verification/Float64.thy ===== *)
theory Float64
  imports Complex_Main Prelude
begin

text \<open>
  The part of IEEE-754 binary64 that the program uses: a finite \<open>float64\<close> is the rational it stands
  for, a constant or a sum is rounded to 53 significant bits, ties to even (\<open>fl\<close>), and the
  conversion of an \<open>int64\<close> is the same rounding on integers (\<open>f64_of_int\<close>). All values that occur
  (fraud scores between 0 and 2, absolute differences of timestamps) are far from overflow and from
  the subnormal range.
\<close>

type_synonym float64 = rat

section \<open>Rounding\<close>

definition round_half_even :: "rat \<Rightarrow> int" where
  "round_half_even x =
     (let f = \<lfloor>x\<rfloor>; d = x - of_int f in
      if d < 1 / 2 then f else if d > 1 / 2 then f + 1 else if even f then f else f + 1)"

text \<open>Scale a positive rational below \<open>2 ^ 53\<close> up until it has 53 bits before the point.\<close>

fun scale_up :: "nat \<Rightarrow> rat \<Rightarrow> nat" where
  "scale_up 0 x = 0"
| "scale_up (Suc n) x = (if x < 2 ^ 52 then Suc (scale_up n (2 * x)) else 0)"

text \<open>\<open>fl x\<close> for \<open>0 \<le> x < 2 ^ 53\<close>; 1074 doublings reach the least subnormal.\<close>

definition fl :: "rat \<Rightarrow> float64" where
  "fl x = (if x = 0 then 0 else
     (let k = scale_up 1074 x in of_int (round_half_even (x * 2 ^ k)) / 2 ^ k))"

text \<open>The number of low bits of a non-negative integer beyond 53; eleven are enough for \<open>2 ^ 63\<close>.\<close>

fun excess_bits :: "nat \<Rightarrow> int \<Rightarrow> nat" where
  "excess_bits 0 m = 0"
| "excess_bits (Suc n) m = (if m < 2 ^ 53 then 0 else Suc (excess_bits n (m div 2)))"

definition f64_of_nonneg :: "int \<Rightarrow> int" where
  "f64_of_nonneg m =
     (let s = excess_bits 11 m; q = m div 2 ^ s; r = m mod 2 ^ s in
      if s = 0 then m
      else (if 2 * r < 2 ^ s then q else if 2 * r > 2 ^ s then q + 1 else if even q then q else q + 1) * 2 ^ s)"

definition f64_of_int :: "int \<Rightarrow> int" where
  "f64_of_int i = (if i < 0 then - f64_of_nonneg (- i) else f64_of_nonneg i)"

lemma excess_bits_bounds:
  assumes "2 ^ 53 \<le> m" and "m < 2 ^ (53 + n)"
  shows "2 ^ 52 \<le> m div 2 ^ excess_bits n m \<and> m div 2 ^ excess_bits n m < 2 ^ 53
    \<and> 0 < excess_bits n m \<and> excess_bits n m \<le> n"
  using assms
proof (induction n m rule: excess_bits.induct)
  case (2 n m)
  show ?case
  proof (cases "m div 2 < 2 ^ 53")
    case True
    then have "excess_bits n (m div 2) = 0" by (cases n) auto
    with True "2.prems" show ?thesis by auto
  next
    case False
    then have "2 ^ 53 \<le> m div 2" "m div 2 < 2 ^ (53 + n)" using "2.prems" by (auto simp: power_add)
    with "2.IH" "2.prems"(1) show ?thesis by (auto simp: zdiv_zmult2_eq)
  qed
qed simp

lemma f64_of_nonneg_small: "m < 2 ^ 53 \<Longrightarrow> f64_of_nonneg m = m"
  by (simp add: f64_of_nonneg_def numeral_eq_Suc)

lemma f64_of_nonneg_large:
  assumes "2 ^ 53 \<le> m" and "m < 2 ^ 62"
  shows "2 ^ 53 \<le> f64_of_nonneg m \<and> f64_of_nonneg m \<le> 2 ^ 62"
proof -
  define s where "s = excess_bits 11 m"
  define q where "q = m div 2 ^ s"
  define q' where "q' = (if 2 * (m mod 2 ^ s) < 2 ^ s then q else if 2 * (m mod 2 ^ s) > 2 ^ s then q + 1
    else if even q then q else q + 1)"
  have b: "2 ^ 52 \<le> q" "q < 2 ^ 53" "0 < s"
    using excess_bits_bounds[of m 11] assms by (simp_all add: s_def q_def)
  then have q': "2 ^ 52 \<le> q'" "q' \<le> 2 ^ 53" by (auto simp: q'_def)
  have m: "f64_of_nonneg m = q' * 2 ^ s"
    using b(3) by (simp add: f64_of_nonneg_def Let_def q'_def q_def s_def)
  have "(2::int) ^ 52 * 2 ^ s \<le> q * 2 ^ s" using b(1) by (intro mult_right_mono) auto
  also have "\<dots> \<le> m" by (simp add: q_def flip: minus_mod_eq_div_mult)
  finally have "(2::int) ^ (52 + s) \<le> m" by (simp add: power_add)
  then have "(2::int) ^ (52 + s) < 2 ^ 62" using assms(2) by linarith
  then have "52 + s < 62" by (rule power_less_imp_less_exp[rotated]) simp
  then have "q' * 2 ^ s \<le> 2 ^ 53 * 2 ^ 9"
    using q'(2) by (intro mult_mono power_increasing) auto
  moreover have "(2::int) ^ 52 * 2 ^ 1 \<le> q' * 2 ^ s"
    using q'(1) b(3) by (intro mult_mono power_increasing) auto
  ultimately show ?thesis by (simp add: m)
qed

text \<open>The bound test of a rounded absolute value is the bound test of the integer.\<close>

lemma abs_f64_of_int_le:
  assumes "\<bar>d\<bar> < 2 ^ 62" and "b < 2 ^ 53"
  shows "\<bar>f64_of_int d\<bar> \<le> b \<longleftrightarrow> \<bar>d\<bar> \<le> b" "\<bar>f64_of_int d\<bar> \<le> 2 ^ 62"
proof -
  have "(\<bar>f64_of_int d\<bar> \<le> b \<longleftrightarrow> \<bar>d\<bar> \<le> b) \<and> \<bar>f64_of_int d\<bar> \<le> 2 ^ 62"
  proof (cases "\<bar>d\<bar> < 2 ^ 53")
    case True
    then have "f64_of_int d = d" by (auto simp: f64_of_int_def f64_of_nonneg_small)
    with assms(1) show ?thesis by simp
  next
    case False
    then have big: "2 ^ 53 \<le> f64_of_nonneg \<bar>d\<bar> \<and> f64_of_nonneg \<bar>d\<bar> \<le> 2 ^ 62"
      using f64_of_nonneg_large[of "\<bar>d\<bar>"] assms(1) by simp
    then have "\<bar>f64_of_int d\<bar> = f64_of_nonneg \<bar>d\<bar>" by (auto simp: f64_of_int_def)
    with big False assms(2) show ?thesis by simp
  qed
  then show "\<bar>f64_of_int d\<bar> \<le> b \<longleftrightarrow> \<bar>d\<bar> \<le> b" "\<bar>f64_of_int d\<bar> \<le> 2 ^ 62" by auto
qed

section \<open>Evaluating a rounding\<close>

lemma scale_up_eq:
  assumes "0 < x" "k \<le> n" "2 ^ 52 \<le> x * 2 ^ k" "k = 0 \<or> x * 2 ^ (k - 1) < 2 ^ 52"
  shows "scale_up n x = k"
  using assms
proof (induction n arbitrary: x k)
  case (Suc n)
  show ?case
  proof (cases k)
    case 0
    with Suc.prems show ?thesis by simp
  next
    case (Suc j)
    have "x * 1 \<le> x * 2 ^ j" using Suc.prems(1) by (intro mult_left_mono) auto
    then have "x < 2 ^ 52" using Suc.prems(4) Suc by simp
    moreover have "scale_up n (2 * x) = j"
    proof (rule Suc.IH)
      show "0 < 2 * x" "j \<le> n" "2 ^ 52 \<le> 2 * x * 2 ^ j" using Suc.prems Suc by (simp_all add: ac_simps)
      show "j = 0 \<or> 2 * x * 2 ^ (j - 1) < 2 ^ 52" using Suc.prems(4) Suc by (cases j) (simp_all add: ac_simps)
    qed
    ultimately show ?thesis using Suc by simp
  qed
qed simp

lemma fl_eq:
  assumes "0 < x" "k \<le> 1074" "2 ^ 52 \<le> x * 2 ^ k" "k = 0 \<or> x * 2 ^ (k - 1) < 2 ^ 52"
  shows "fl x = of_int (round_half_even (x * 2 ^ k)) / 2 ^ k"
  using assms by (simp add: fl_def scale_up_eq)


lemma round_half_even_eq:
  assumes "2 * x \<le> 2 * of_int m + 1" "2 * of_int m - 1 \<le> 2 * x" "even m \<or> (2 * x < 2 * of_int m + 1 \<and> 2 * of_int m - 1 < 2 * x)"
  shows "round_half_even x = m"
proof -
  define f where "f = \<lfloor>x\<rfloor>"
  have f: "of_int f \<le> x" "x < of_int f + 1" unfolding f_def by linarith+
  then have "of_int f < (of_int (m + 1) :: rat)" "of_int (m - 1) < (of_int (f + 1) :: rat)"
    unfolding of_int_add of_int_diff of_int_1 using assms by linarith+
  then have "f = m \<or> f = m - 1" by linarith
  then have "(if x - of_int f < 1 / 2 then f else if x - of_int f > 1 / 2 then f + 1 else if even f then f else f + 1) = m"
  proof
    assume "f = m"
    with assms f show ?thesis by (simp split: if_split) linarith?
  next
    assume "f = m - 1"
    with assms f show ?thesis by (simp split: if_split) linarith?
  qed
  then show ?thesis unfolding round_half_even_def Let_def f_def .
qed

lemma fl_eqI:
  assumes "0 < x" "k \<le> 1074" "2 ^ 52 \<le> x * 2 ^ k" "k = 0 \<or> x * 2 ^ (k - 1) < 2 ^ 52"
    and "2 * (x * 2 ^ k) \<le> 2 * of_int m + 1" "2 * of_int m - 1 \<le> 2 * (x * 2 ^ k)"
    and "even m \<or> (2 * (x * 2 ^ k) < 2 * of_int m + 1 \<and> 2 * of_int m - 1 < 2 * (x * 2 ^ k))"
  shows "fl x = of_int m / 2 ^ k"
  using fl_eq[OF assms(1-4)] round_half_even_eq[OF assms(5-7)] by simp

end
