(* ===== verification/Telemetry.thy ===== *)
theory Telemetry
  imports Float64
begin

text \<open>
  \<open>internal/telemetry/m7_alerts.go\<close>: reason codes, their ISO-8583 response codes, and the payment
  response with its three constructors. A Go \<open>ReasonCode\<close> is a string type with named constants; the
  constructor \<open>OtherReason\<close> stands for every other string. The JSON encoder \<open>ToJSON\<close> is not modelled.
\<close>

datatype ReasonCode =
  CodeApproved | CodeInsufficientFunds | CodeQRMismatch | CodeMuleRingDetected
  | CodeFloorLimitExceeded | CodeOfflineTokenInvalid | CodeDuplicateTransaction
  | CodeSettlementDeficit | CodeRevokedAccountEdge | CodeQRTampering
  | CodeReconDeficitChargedToReserve | CodeSystemError | OtherReason string

fun MapReasonToISO8583 :: "ReasonCode \<Rightarrow> string" where
  "MapReasonToISO8583 CodeApproved = ''00''"
| "MapReasonToISO8583 CodeInsufficientFunds = ''51''"
| "MapReasonToISO8583 CodeQRMismatch = ''57''"
| "MapReasonToISO8583 CodeQRTampering = ''59''"
| "MapReasonToISO8583 CodeMuleRingDetected = ''59''"
| "MapReasonToISO8583 CodeFloorLimitExceeded = ''61''"
| "MapReasonToISO8583 CodeOfflineTokenInvalid = ''63''"
| "MapReasonToISO8583 CodeRevokedAccountEdge = ''41''"
| "MapReasonToISO8583 CodeDuplicateTransaction = ''94''"
| "MapReasonToISO8583 CodeSettlementDeficit = ''96''"
| "MapReasonToISO8583 CodeReconDeficitChargedToReserve = ''96''"
| "MapReasonToISO8583 CodeSystemError = ''05''"
| "MapReasonToISO8583 (OtherReason _) = ''05''"

record PaymentResponse =
  Status :: string
  rsp_ReasonCode :: ReasonCode
  rsp_ISO8583 :: string
  Message :: string
  rsp_TxID :: string
  rsp_Amount :: int64
  rsp_AccountID :: string
  FraudScore :: float64
  IsOffline :: bool
  OfflineTokenID :: string

definition NewApprovalResponse :: "string \<Rightarrow> string \<Rightarrow> int64 \<Rightarrow> float64 \<Rightarrow> PaymentResponse" where
  "NewApprovalResponse txID accountID amount fraudScore =
     \<lparr>Status = ''APPROVED'', rsp_ReasonCode = CodeApproved, rsp_ISO8583 = ''00'',
      Message = ''Transaction authorized successfully.'', rsp_TxID = txID, rsp_Amount = amount,
      rsp_AccountID = accountID, FraudScore = fraudScore, IsOffline = False, OfflineTokenID = ''''\<rparr>"

definition NewOfflineApprovalResponse :: "string \<Rightarrow> string \<Rightarrow> int64 \<Rightarrow> string \<Rightarrow> PaymentResponse" where
  "NewOfflineApprovalResponse txID accountID amount tokenID =
     \<lparr>Status = ''OFFLINE_AUTHORIZED'', rsp_ReasonCode = CodeApproved, rsp_ISO8583 = ''00'',
      Message = ''Transaction authorized offline against cryptographic floor limit.'',
      rsp_TxID = txID, rsp_Amount = amount, rsp_AccountID = accountID, FraudScore = 0,
      IsOffline = True, OfflineTokenID = tokenID\<rparr>"

definition NewDeclineResponse :: "ReasonCode \<Rightarrow> string \<Rightarrow> float64 \<Rightarrow> PaymentResponse" where
  "NewDeclineResponse code message fraudScore =
     \<lparr>Status = ''DECLINED'', rsp_ReasonCode = code, rsp_ISO8583 = MapReasonToISO8583 code,
      Message = message, rsp_TxID = '''', rsp_Amount = 0, rsp_AccountID = '''',
      FraudScore = fraudScore, IsOffline = False, OfflineTokenID = ''''\<rparr>"

section \<open>Consistent responses\<close>

text \<open>
  The status, the reason and the ISO code of a response agree: the code is the one of the reason, and
  the payment is authorized exactly for code 00.
\<close>

definition authorized :: "PaymentResponse \<Rightarrow> bool" where
  "authorized r \<longleftrightarrow> Status r = ''APPROVED'' \<or> Status r = ''OFFLINE_AUTHORIZED''"

definition consistent_response :: "PaymentResponse \<Rightarrow> bool" where
  "consistent_response r \<longleftrightarrow> rsp_ISO8583 r = MapReasonToISO8583 (rsp_ReasonCode r)
     \<and> (authorized r \<longleftrightarrow> rsp_ISO8583 r = ''00'') \<and> (\<not> authorized r \<longrightarrow> Status r = ''DECLINED'')
     \<and> (IsOffline r \<longleftrightarrow> Status r = ''OFFLINE_AUTHORIZED'')"

lemma iso_00 [simp]: "MapReasonToISO8583 c = ''00'' \<longleftrightarrow> c = CodeApproved"
  by (cases c) simp_all

lemma response_consistent [simp]:
  "consistent_response (NewApprovalResponse t a m s)"
  "consistent_response (NewOfflineApprovalResponse t a m k)"
  "consistent_response (NewDeclineResponse c msg s) \<longleftrightarrow> c \<noteq> CodeApproved"
  by (simp_all add: consistent_response_def authorized_def NewApprovalResponse_def
      NewOfflineApprovalResponse_def NewDeclineResponse_def)

lemma response_authorized [simp]:
  "authorized (NewApprovalResponse t a m s)" "authorized (NewOfflineApprovalResponse t a m k)"
  "\<not> authorized (NewDeclineResponse c msg s)"
  by (simp_all add: authorized_def NewApprovalResponse_def NewOfflineApprovalResponse_def NewDeclineResponse_def)

end
