(* ===== verification/Compact_Filter.thy ===== *)
theory Compact_Filter
  imports Prelude
begin

text \<open>
  \<open>internal/fraud/compact_filter.go\<close>: the cuckoo filter that blocks revoked accounts at the edge.

  \<^item> A bucket is a list of four \<open>uint16\<close> slots, zero for a free one. Indexing the bucket slice out of
    range panics in Go: the operations return \<open>None\<close> then.
  \<^item> \<open>rand.Intn(m)\<close> is \<open>rnd k mod m\<close> for the \<open>k\<close>-th draw of the call; every theorem is for all \<open>rnd\<close>.
  \<^item> The loop that sizes the filter may run forever, so \<open>grow\<close> is a partial function.
\<close>

section \<open>Data\<close>

definition BucketSize :: nat where
  "BucketSize = 4"

definition MaxKicks :: nat where
  "MaxKicks = 500"

datatype filter_error = ErrFilterFull | ErrInvalidFilterData | ErrEOF | ErrUnexpectedEOF

type_synonym Bucket = "uint16 list"
type_synonym draws = "nat \<Rightarrow> nat"

record CompactFilter =
  buckets :: "Bucket list"
  numBuckets :: uint32
  cf_count :: uint32

section \<open>Sizing and hashing\<close>

partial_function (option) grow :: "uint32 \<Rightarrow> uint32 \<Rightarrow> uint32 option" where
  "grow n target = (if n < target then grow (push_bit 1 n) target else Some n)"

definition NewCompactFilter :: "int64 \<Rightarrow> CompactFilter option" where
  "NewCompactFilter expectedCapacity =
     (let cap = (if sint expectedCapacity < 256 then 256 else expectedCapacity);
          target = ucast (cap div of_nat BucketSize) :: uint32
      in case grow 1 target of
           None \<Rightarrow> None
         | Some n \<Rightarrow>
             let n2 = push_bit 1 n in
             Some \<lparr>buckets = replicate (unat n2) (replicate BucketSize 0), numBuckets = n2, cf_count = 0\<rparr>)"

text \<open>FNV-1a, as \<open>hash/fnv\<close> computes it.\<close>

definition hash64 :: "string \<Rightarrow> uint64" where
  "hash64 s = foldl (\<lambda>h b. (h XOR ucast b) * 0x100000001b3) 0xcbf29ce484222325 (bytes_of s)"

definition fingerprint :: "uint64 \<Rightarrow> uint16" where
  "fingerprint hashVal = (let fp = ucast (hashVal AND 0xFFFF) :: uint16 in if fp = 0 then 1 else fp)"

definition hashFingerprint :: "uint16 \<Rightarrow> uint32" where
  "hashFingerprint fp =
     (let x = (ucast fp :: uint32) * 0x85ebca6b;
          x = x XOR drop_bit 13 x;
          x = x * 0xc2b2ae35
      in x XOR drop_bit 16 x)"

text \<open>The two candidate bucket indices of the code: \<open>i1\<close> from the hash, \<open>alt\<close> of an index.\<close>

definition index1 :: "uint32 \<Rightarrow> uint64 \<Rightarrow> uint32" where
  "index1 n h = ucast (drop_bit 16 h) AND (n - 1)"

definition alt :: "uint32 \<Rightarrow> uint32 \<Rightarrow> uint16 \<Rightarrow> uint32" where
  "alt n i fp = (i XOR hashFingerprint fp) AND (n - 1)"

section \<open>Insertion and lookup\<close>

fun put_slot :: "uint16 \<Rightarrow> Bucket \<Rightarrow> Bucket option" where
  "put_slot fp [] = None"
| "put_slot fp (x # xs) = (if x = 0 then Some (fp # xs) else map_option ((#) x) (put_slot fp xs))"

definition insertIntoBucket :: "uint32 \<Rightarrow> uint16 \<Rightarrow> CompactFilter \<Rightarrow> (bool \<times> CompactFilter) option" where
  "insertIntoBucket bucketIdx fp cf =
     (if unat bucketIdx < length (buckets cf) then
        (case put_slot fp (buckets cf ! unat bucketIdx) of
           None \<Rightarrow> Some (False, cf)
         | Some b \<Rightarrow> Some (True, cf\<lparr>buckets := (buckets cf)[unat bucketIdx := b]\<rparr>))
      else None)"

text \<open>One swap of the displacement loop: the fingerprint that leaves and the filter after.\<close>

definition swap_slot :: "uint32 \<Rightarrow> nat \<Rightarrow> uint16 \<Rightarrow> CompactFilter \<Rightarrow> uint16 \<times> CompactFilter" where
  "swap_slot i slot fp cf =
     (let b = buckets cf ! unat i in
      (b ! slot, cf\<lparr>buckets := (buckets cf)[unat i := b[slot := fp]]\<rparr>))"

text \<open>The displacement loop: \<open>n\<close> kicks left, \<open>k\<close> draws made.\<close>

fun kick_loop :: "nat \<Rightarrow> draws \<Rightarrow> nat \<Rightarrow> uint32 \<Rightarrow> uint16 \<Rightarrow> CompactFilter
    \<Rightarrow> (bool \<times> CompactFilter) option" where
  "kick_loop 0 rnd k currIdx currFP cf = Some (False, cf)"
| "kick_loop (Suc n) rnd k currIdx currFP cf =
     (if unat currIdx < length (buckets cf) then
        (case swap_slot currIdx (rnd k mod BucketSize) currFP cf of
           (currFP', cf1) \<Rightarrow>
             let currIdx' = alt (numBuckets cf) currIdx currFP' in
             case insertIntoBucket currIdx' currFP' cf1 of
               None \<Rightarrow> None
             | Some (True, cf2) \<Rightarrow> Some (True, cf2\<lparr>cf_count := cf_count cf2 + 1\<rparr>)
             | Some (False, cf2) \<Rightarrow> kick_loop n rnd (Suc k) currIdx' currFP' cf2)
      else None)"

definition Insert :: "draws \<Rightarrow> string \<Rightarrow> CompactFilter \<Rightarrow> (bool \<times> CompactFilter) option" where
  "Insert rnd key cf =
     (let h = hash64 key;
          fp = fingerprint h;
          i1 = index1 (numBuckets cf) h;
          i2 = alt (numBuckets cf) i1 fp
      in case insertIntoBucket i1 fp cf of
           None \<Rightarrow> None
         | Some (True, cf1) \<Rightarrow> Some (True, cf1\<lparr>cf_count := cf_count cf1 + 1\<rparr>)
         | Some (False, cf1) \<Rightarrow>
             (case insertIntoBucket i2 fp cf1 of
                None \<Rightarrow> None
              | Some (True, cf2) \<Rightarrow> Some (True, cf2\<lparr>cf_count := cf_count cf2 + 1\<rparr>)
              | Some (False, cf2) \<Rightarrow>
                  kick_loop MaxKicks rnd 1 (if rnd 0 mod 2 = 1 then i2 else i1) fp cf2))"

definition slot_at :: "CompactFilter \<Rightarrow> uint32 \<Rightarrow> nat \<Rightarrow> uint16 option" where
  "slot_at cf i s = (if unat i < length (buckets cf) then Some (buckets cf ! unat i ! s) else None)"

text \<open>The lookup loop with the short-circuit of \<open>||\<close>.\<close>

fun scan_slots :: "CompactFilter \<Rightarrow> uint32 \<Rightarrow> uint32 \<Rightarrow> uint16 \<Rightarrow> nat list \<Rightarrow> bool option" where
  "scan_slots cf i1 i2 fp [] = Some False"
| "scan_slots cf i1 i2 fp (s # ss) =
     (case slot_at cf i1 s of
        None \<Rightarrow> None
      | Some x \<Rightarrow>
          if x = fp then Some True
          else (case slot_at cf i2 s of
                  None \<Rightarrow> None
                | Some y \<Rightarrow> if y = fp then Some True else scan_slots cf i1 i2 fp ss))"

definition Contains :: "string \<Rightarrow> CompactFilter \<Rightarrow> bool option" where
  "Contains key cf =
     (let h = hash64 key;
          fp = fingerprint h;
          i1 = index1 (numBuckets cf) h;
          i2 = alt (numBuckets cf) i1 fp
      in scan_slots cf i1 i2 fp [0..<BucketSize])"

definition Count :: "CompactFilter \<Rightarrow> uint32" where
  "Count cf = cf_count cf"

section \<open>Serialization\<close>

definition Serialize :: "CompactFilter \<Rightarrow> byte list" where
  "Serialize cf =
     be32 (numBuckets cf) @ be32 (cf_count cf) @
     concat (map (\<lambda>b. concat (map (\<lambda>s. be16 (b ! s)) [0..<BucketSize])) (buckets cf))"

fun read_slots :: "nat \<Rightarrow> byte list \<Rightarrow> filter_error + (Bucket \<times> byte list)" where
  "read_slots 0 bs = Inr ([], bs)"
| "read_slots (Suc n) bs =
     (case bs of
        [] \<Rightarrow> Inl ErrEOF
      | [b] \<Rightarrow> Inl ErrUnexpectedEOF
      | b # c # rest \<Rightarrow>
          (case read_slots n rest of
             Inl e \<Rightarrow> Inl e
           | Inr (xs, rest') \<Rightarrow> Inr (un_be [b, c] # xs, rest')))"

fun read_buckets :: "nat \<Rightarrow> byte list \<Rightarrow> filter_error + Bucket list" where
  "read_buckets 0 bs = Inr []"
| "read_buckets (Suc n) bs =
     (case read_slots BucketSize bs of
        Inl e \<Rightarrow> Inl e
      | Inr (b, rest) \<Rightarrow>
          (case read_buckets n rest of Inl e \<Rightarrow> Inl e | Inr bs' \<Rightarrow> Inr (b # bs')))"

text \<open>The expected length is computed in \<open>uint32\<close>.\<close>

definition Deserialize :: "byte list \<Rightarrow> CompactFilter \<Rightarrow> filter_error option \<times> CompactFilter" where
  "Deserialize data cf =
     (if length data < 8 then (Some ErrInvalidFilterData, cf)
      else
        let n = un_be (take 4 data) :: uint32;
            count = un_be (take 4 (drop 4 data)) :: uint32
        in if length data \<noteq> unat (8 + n * of_nat BucketSize * 2 :: uint32)
           then (Some ErrInvalidFilterData, cf)
           else (case read_buckets (unat n) (drop 8 data) of
                   Inl e \<Rightarrow> (Some e, cf)
                 | Inr bs \<Rightarrow> (None, cf\<lparr>buckets := bs, numBuckets := n, cf_count := count\<rparr>)))"

definition DeserializeCompactFilter :: "byte list \<Rightarrow> filter_error + CompactFilter" where
  "DeserializeCompactFilter data =
     (case Deserialize data \<lparr>buckets = [], numBuckets = 0, cf_count = 0\<rparr> of
        (Some e, _) \<Rightarrow> Inl e
      | (None, cf) \<Rightarrow> Inr cf)"

section \<open>The contract of a membership filter\<close>

text \<open>
  What the edge authorizer relies on: on well-formed filters the operations do not panic, a
  successful insertion makes its key found, and no successful insertion loses a key.
\<close>

locale membership_filter =
  fixes wf :: "'f \<Rightarrow> bool"
    and contains :: "'k \<Rightarrow> 'f \<Rightarrow> bool option"
    and insert_key :: "'r \<Rightarrow> 'k \<Rightarrow> 'f \<Rightarrow> (bool \<times> 'f) option"
  assumes contains_total: "wf f \<Longrightarrow> contains k f \<noteq> None"
    and insert_total: "wf f \<Longrightarrow> \<exists>ok f'. insert_key r k f = Some (ok, f') \<and> wf f'"
    and insert_finds: "wf f \<Longrightarrow> insert_key r k f = Some (True, f') \<Longrightarrow> contains k f' = Some True"
    and insert_keeps: "wf f \<Longrightarrow> insert_key r k f = Some (True, f') \<Longrightarrow> contains j f = Some True
      \<Longrightarrow> contains j f' = Some True"
begin

text \<open>Insert all keys; \<open>None\<close> when one of the insertions fails.\<close>

definition insert_all :: "('r \<times> 'k) list \<Rightarrow> 'f \<Rightarrow> 'f option" where
  "insert_all rks f = foldl (\<lambda>acc (r, k). case acc of None \<Rightarrow> None
     | Some g \<Rightarrow> (case insert_key r k g of Some (True, g') \<Rightarrow> Some g' | _ \<Rightarrow> None)) (Some f) rks"

lemma insert_wf: "wf f \<Longrightarrow> insert_key r k f = Some (ok, f') \<Longrightarrow> wf f'"
  using insert_total[of f r k] by auto

lemma insert_all_snoc:
  "insert_all (rks @ [(r, k)]) f = Some g' \<longleftrightarrow>
     (\<exists>g. insert_all rks f = Some g \<and> insert_key r k g = Some (True, g'))"
  by (auto simp: insert_all_def split: option.splits bool.splits)

lemma insert_all_finds:
  assumes "wf f" and "insert_all rks f = Some g"
  shows "wf g \<and> (\<forall>k \<in> snd ` set rks. contains k g = Some True)"
  using assms(2)
proof (induction rks arbitrary: g rule: rev_induct)
  case Nil
  then show ?case using assms(1) by (simp add: insert_all_def)
next
  case (snoc rk rks)
  obtain r k where rk: "rk = (r, k)" by (cases rk)
  with snoc.prems obtain g1 where g1: "insert_all rks f = Some g1" "insert_key r k g1 = Some (True, g)"
    by (auto simp: insert_all_snoc)
  with snoc.IH show ?case
    using insert_finds[OF _ g1(2)] insert_keeps[OF _ g1(2)] insert_wf[OF _ g1(2)] rk by auto
qed

end

end
