(* ===== verification/Offline_Auth.thy ===== *)
theory Offline_Auth
  imports Telemetry Crypto Compact_Filter
begin

text \<open>
  \<open>internal/edge/m4_offline_auth.go\<close>: offline authorization tokens, the authority that issues them and
  the edge authorizer that accepts them against a floor limit and a cumulative ceiling per token.

  \<^item> The revocation filter may be absent (\<open>nil\<close>); a lookup in a malformed one panics, so
    \<open>AuthorizeOffline\<close> returns an option (\<open>None\<close> is the panic).
  \<^item> A missing key of the map \<open>spentByToken\<close> reads as zero, as in Go.
  \<^item> \<open>ed25519.GenerateKey\<close> is \<open>NewKeyPair\<close> on the random seed it reads (\<open>None\<close> when reading fails).
\<close>

section \<open>Data\<close>

definition MaxOfflineFloorLimitCents :: int64 where
  "MaxOfflineFloorLimitCents = 5000"

record OfflineAuthorizationToken =
  TokenID :: string
  tok_AccountID :: string
  MaxFloorAmount :: int64
  ExpirationTime :: int64
  tok_TerminalID :: string
  SequenceCounter :: int64
  tok_Signature :: string

record TokenAuthority =
  ta_publicKey :: "byte list"
  ta_privateKey :: "byte list"
  ta_counter :: int64

record EdgeAuthorizer =
  ea_publicKey :: "byte list"
  ea_terminalID :: string
  spentByToken :: "string \<rightharpoonup> int64"
  sequenceNum :: int64
  revocationFilter :: "CompactFilter option"

record OfflineAuthDecision =
  dec_Approved :: bool
  dec_ReasonCode :: ReasonCode
  dec_ISO8583 :: string
  dec_SequenceNum :: int64
  RemainingFloor :: int64
  dec_Message :: string

section \<open>Tokens\<close>

definition Digest :: "OfflineAuthorizationToken \<Rightarrow> byte list" where
  "Digest t =
     sha256 (bytes_of (TokenID t @ '':'' @ tok_AccountID t @ '':'' @ show_int64 (MaxFloorAmount t) @ '':''
       @ show_int64 (ExpirationTime t) @ '':'' @ tok_TerminalID t @ '':'' @ show_int64 (SequenceCounter t)))"

definition NewTokenAuthority :: "ed25519 \<Rightarrow> byte list option \<Rightarrow> string + TokenAuthority" where
  "NewTokenAuthority ed seed =
     (case seed of
        None \<Rightarrow> Inl ''failed to generate ed25519 keypair''
      | Some s \<Rightarrow> (case NewKeyPair ed s of (pub, priv) \<Rightarrow>
          Inr \<lparr>ta_publicKey = pub, ta_privateKey = priv, ta_counter = 0\<rparr>))"

definition PublicKey :: "TokenAuthority \<Rightarrow> byte list" where
  "PublicKey ta = ta_publicKey ta"

definition IssueToken ::
  "ed25519 \<Rightarrow> clock \<Rightarrow> string \<Rightarrow> int64 \<Rightarrow> int64 \<Rightarrow> string \<Rightarrow> TokenAuthority
    \<Rightarrow> OfflineAuthorizationToken \<times> TokenAuthority" where
  "IssueToken ed clk accountID floorAmount duration terminalID ta =
     (let floorAmount = (if sint floorAmount > sint MaxOfflineFloorLimitCents
                         then MaxOfflineFloorLimitCents else floorAmount);
          seq = ta_counter ta + 1;
          tokenID = ''TOK-'' @ accountID @ ''-'' @ show_int64 (UnixNano (clk 0)) @ ''-'' @ show_int64 seq;
          tok = \<lparr>TokenID = tokenID, tok_AccountID = accountID, MaxFloorAmount = floorAmount,
                 ExpirationTime = Unix (clk 1 + sint duration), tok_TerminalID = terminalID,
                 SequenceCounter = seq, tok_Signature = ''''\<rparr>;
          sig = Sign ed (ta_privateKey ta) (Digest tok)
      in (tok\<lparr>tok_Signature := hex_encode sig\<rparr>, ta\<lparr>ta_counter := seq\<rparr>))"

section \<open>The edge authorizer\<close>

definition NewEdgeAuthorizer :: "byte list \<Rightarrow> string \<Rightarrow> EdgeAuthorizer" where
  "NewEdgeAuthorizer pubKey terminalID =
     \<lparr>ea_publicKey = pubKey, ea_terminalID = terminalID, spentByToken = Map.empty, sequenceNum = 0,
      revocationFilter = None\<rparr>"

definition SetRevocationFilter :: "CompactFilter option \<Rightarrow> EdgeAuthorizer \<Rightarrow> EdgeAuthorizer" where
  "SetRevocationFilter flt ea = ea\<lparr>revocationFilter := flt\<rparr>"

definition ResetSpentCache :: "EdgeAuthorizer \<Rightarrow> EdgeAuthorizer" where
  "ResetSpentCache ea = ea\<lparr>spentByToken := Map.empty\<rparr>"

definition spent_on :: "EdgeAuthorizer \<Rightarrow> string \<Rightarrow> int64" where
  "spent_on ea k = (case spentByToken ea k of None \<Rightarrow> 0 | Some v \<Rightarrow> v)"

definition decline :: "ReasonCode \<Rightarrow> string \<Rightarrow> OfflineAuthDecision" where
  "decline code msg =
     \<lparr>dec_Approved = False, dec_ReasonCode = code, dec_ISO8583 = MapReasonToISO8583 code,
      dec_SequenceNum = 0, RemainingFloor = 0, dec_Message = msg\<rparr>"

text \<open>The revocation test, with the short-circuit of \<open>||\<close>; \<open>None\<close> is a panic of the filter.\<close>

definition revoked :: "OfflineAuthorizationToken \<Rightarrow> EdgeAuthorizer \<Rightarrow> bool option" where
  "revoked tok ea =
     (case revocationFilter ea of
        None \<Rightarrow> Some False
      | Some f \<Rightarrow>
          (case Contains (tok_AccountID tok) f of
             None \<Rightarrow> None
           | Some True \<Rightarrow> Some True
           | Some False \<Rightarrow> Contains (TokenID tok) f))"

definition AuthorizeOffline ::
  "ed25519 \<Rightarrow> time \<Rightarrow> OfflineAuthorizationToken \<Rightarrow> int64 \<Rightarrow> EdgeAuthorizer
    \<Rightarrow> (OfflineAuthDecision \<times> EdgeAuthorizer) option" where
  "AuthorizeOffline ed t tok amount ea =
     (case revoked tok ea of
        None \<Rightarrow> None
      | Some True \<Rightarrow>
          Some (decline CodeRevokedAccountEdge ''Account or card token revoked at edge (Lost/Stolen Card).'', ea)
      | Some False \<Rightarrow>
          if sint (Unix t) > sint (ExpirationTime tok) then
            Some (decline CodeOfflineTokenInvalid ''Offline authorization token has expired.'', ea)
          else if tok_TerminalID tok \<noteq> ''*'' \<and> tok_TerminalID tok \<noteq> ea_terminalID ea then
            Some (decline CodeOfflineTokenInvalid
              (''Token restricted to terminal '' @ tok_TerminalID tok @ '' (current: '' @ ea_terminalID ea @ '')''), ea)
          else (case sig_bytes (tok_Signature tok) of
             None \<Rightarrow> Some (decline CodeOfflineTokenInvalid ''Malformed or tampered token signature.'', ea)
           | Some sigBytes \<Rightarrow>
               if \<not> Verify ed (ea_publicKey ea) (Digest tok) sigBytes then
                 Some (decline CodeOfflineTokenInvalid ''Cryptographic token verification failed.'', ea)
               else if sint amount > sint (MaxFloorAmount tok) \<or> sint amount > sint MaxOfflineFloorLimitCents then
                 Some (decline CodeFloorLimitExceeded
                   (''Transaction amount '' @ show_int64 amount @ '' cents exceeds floor ceiling ''
                     @ show_int64 (MaxFloorAmount tok) @ '' cents ($50 max)''), ea)
               else
                 let spent = spent_on ea (TokenID tok) in
                 if sint (spent + amount) > sint (MaxFloorAmount tok) then
                   Some (decline CodeFloorLimitExceeded
                     (''Cumulative spent '' @ show_int64 spent @ '' + '' @ show_int64 amount
                       @ '' exceeds token allowance '' @ show_int64 (MaxFloorAmount tok)), ea)
                 else
                   let ea' = ea\<lparr>spentByToken := (spentByToken ea)(TokenID tok \<mapsto> spent + amount),
                                sequenceNum := sequenceNum ea + 1\<rparr>
                   in Some (\<lparr>dec_Approved = True, dec_ReasonCode = CodeApproved,
                             dec_ISO8583 = MapReasonToISO8583 CodeApproved,
                             dec_SequenceNum = sequenceNum ea',
                             RemainingFloor = MaxFloorAmount tok - spent_on ea' (TokenID tok),
                             dec_Message = ''Offline authorization granted under cryptographic floor limit.''\<rparr>, ea')))"

interpretation token_doc: signed_document Digest tok_Signature "\<lambda>s t. t\<lparr>tok_Signature := s\<rparr>"
  by unfold_locales (simp_all add: Digest_def)

end
