(* ===== verification/QR.thy ===== *)
theory QR
  imports Crypto Float64 "HOL-Library.Signed_Division"
begin

text \<open>
  \<open>internal/fraud/qr_verifier.go\<close>: dynamic QR codes with a rotating epoch and an Ed25519 signature.

  \<^item> The skew is computed through \<open>float64\<close>: \<open>int64(math.Abs(float64(now - EpochSalt)))\<close>. The
    conversion of a float that does not fit an \<open>int64\<close> (here only \<open>2 ^ 63\<close>) is implementation
    specific in Go: its result is the parameter \<open>f2i\<close>.
  \<^item> \<open>rand.Read\<close> returns the parameter \<open>nonceBytes\<close>, or an error when it is \<open>None\<close>.
\<close>

definition EpochIntervalSeconds :: int64 where
  "EpochIntervalSeconds = 30"

definition MaxEpochSkewSeconds :: int64 where
  "MaxEpochSkewSeconds = 60"

record DynamicQRPayload =
  qr_MerchantID :: string
  qr_TerminalID :: string
  EpochSalt :: int64
  qr_Nonce :: string
  qr_Signature :: string

text \<open>Go's division of \<open>int64\<close> truncates toward zero.\<close>

definition quo64 :: "int64 \<Rightarrow> int64 \<Rightarrow> int64" where
  "quo64 a b = word_of_int (sint a sdiv sint b)"

definition CurrentEpochSalt :: "time \<Rightarrow> int64" where
  "CurrentEpochSalt t = quo64 (Unix t) EpochIntervalSeconds * EpochIntervalSeconds"

definition ComputeQRDigest :: "string \<Rightarrow> string \<Rightarrow> int64 \<Rightarrow> string \<Rightarrow> byte list" where
  "ComputeQRDigest merchantID terminalID epochSalt nonce =
     sha256 (bytes_of (merchantID @ ''||'' @ terminalID @ ''||'' @ show_int64 epochSalt @ ''||'' @ nonce))"

definition SignDynamicQR ::
  "ed25519 \<Rightarrow> time \<Rightarrow> byte list option \<Rightarrow> byte list \<Rightarrow> string \<Rightarrow> string \<Rightarrow> string + DynamicQRPayload" where
  "SignDynamicQR ed now nonceBytes terminalPrivKey merchantID terminalID =
     (let epoch = CurrentEpochSalt now in
      case nonceBytes of
        None \<Rightarrow> Inl ''failed to generate nonce''
      | Some bs \<Rightarrow>
          let nonce = hex_encode bs;
              digest = ComputeQRDigest merchantID terminalID epoch nonce;
              sig = Sign ed terminalPrivKey digest
          in Inr \<lparr>qr_MerchantID = merchantID, qr_TerminalID = terminalID, EpochSalt = epoch,
                  qr_Nonce = nonce, qr_Signature = hex_encode sig\<rparr>)"

definition epoch_skew :: "int64 \<Rightarrow> int64 \<Rightarrow> int64 \<Rightarrow> int64" where
  "epoch_skew f2i now salt =
     (let a = \<bar>f64_of_int (sint (now - salt))\<bar> in if a < 2 ^ 63 then word_of_int a else f2i)"

definition VerifyDynamicQR ::
  "ed25519 \<Rightarrow> int64 \<Rightarrow> time \<Rightarrow> DynamicQRPayload \<Rightarrow> byte list \<Rightarrow> bool \<times> string" where
  "VerifyDynamicQR ed f2i t payload terminalPubKey =
     (let now = Unix t; skew = epoch_skew f2i now (EpochSalt payload) in
      if sint skew > sint MaxEpochSkewSeconds then
        (False, ''Dynamic QR epoch expired (skew '' @ show_int64 skew @ '' seconds > ''
           @ show_int64 MaxEpochSkewSeconds @ '' seconds max)'')
      else
        (case sig_bytes (qr_Signature payload) of
           None \<Rightarrow> (False, ''Malformed or invalid signature format'')
         | Some sigBytes \<Rightarrow>
             let digest = ComputeQRDigest (qr_MerchantID payload) (qr_TerminalID payload)
                            (EpochSalt payload) (qr_Nonce payload)
             in if \<not> Verify ed terminalPubKey digest sigBytes then
                  (False, ''Ed25519 signature mismatch: physical QR overlay sticker tampering detected'')
                else (True, '''')))"

section \<open>Signed payloads\<close>

definition qr_digest :: "DynamicQRPayload \<Rightarrow> byte list" where
  "qr_digest p = ComputeQRDigest (qr_MerchantID p) (qr_TerminalID p) (EpochSalt p) (qr_Nonce p)"

interpretation qr_doc: signed_document qr_digest qr_Signature "\<lambda>s p. p\<lparr>qr_Signature := s\<rparr>"
  by unfold_locales (simp_all add: qr_digest_def)

lemma epoch_skew_le:
  assumes "\<bar>sint (now - salt)\<bar> < 2 ^ 62"
  shows "sint (epoch_skew f2i now salt) \<le> 60 \<longleftrightarrow> \<bar>sint (now - salt)\<bar> \<le> 60"
proof -
  let ?a = "\<bar>f64_of_int (sint (now - salt))\<bar>"
  have a: "?a \<le> 60 \<longleftrightarrow> \<bar>sint (now - salt)\<bar> \<le> 60" "?a \<le> 2 ^ 62"
    using abs_f64_of_int_le[OF assms, of 60] by simp_all
  then have "sint (word_of_int ?a :: int64) = ?a"
    by (intro sint_of_int64) simp_all
  with a show ?thesis by (simp add: epoch_skew_def Let_def)
qed

lemma sint_diff_abs:
  assumes "\<bar>sint (x :: int64)\<bar> < 2 ^ 61" "\<bar>sint y\<bar> < 2 ^ 61"
  shows "sint (x - y) = sint x - sint y" "\<bar>sint (x - y)\<bar> < 2 ^ 62"
  using assms sint_diff_no_overflow[of x y] by simp_all

lemma CurrentEpochSalt_bounds:
  assumes "0 \<le> sint (Unix t)"
  shows "sint (CurrentEpochSalt t) \<le> sint (Unix t)" "sint (Unix t) - 30 < sint (CurrentEpochSalt t)"
    "30 dvd sint (CurrentEpochSalt t)"
proof -
  let ?n = "sint (Unix t)" let ?q = "?n div 30"
  have n: "?n < 2 ^ 63" using sint64_bounds[of "Unix t"] by simp
  have "?n sdiv 30 = ?q" using assms by (auto simp: signed_divide_int_def sgn_if)
  then have "CurrentEpochSalt t = word_of_int (?q * 30)"
    by (simp add: CurrentEpochSalt_def EpochIntervalSeconds_def quo64_def)
  moreover have "0 \<le> ?q * 30" "?q * 30 \<le> ?n" "?n - 30 < ?q * 30" using assms by auto
  moreover have "sint (word_of_int (?q * 30) :: int64) = ?q * 30"
    using calculation(2,3) n by (intro sint_of_int64) simp_all
  ultimately show "sint (CurrentEpochSalt t) \<le> ?n" "?n - 30 < sint (CurrentEpochSalt t)"
    "30 dvd sint (CurrentEpochSalt t)" by simp_all
qed

lemma signed_payload_verifies:
  assumes "ed25519_correct ed" and "key_pair ed pub priv"
    and "0 \<le> sint (Unix t)" and "sint (Unix t) < 2 ^ 60"
    and "sint (Unix t) - 60 \<le> sint (Unix t')" and "sint (Unix t') \<le> sint (Unix t) + 31"
  shows "\<exists>p. SignDynamicQR ed t (Some nonce) priv merchantID terminalID = Inr p
    \<and> qr_MerchantID p = merchantID \<and> qr_TerminalID p = terminalID \<and> 30 dvd sint (EpochSalt p) \<and> VerifyDynamicQR ed f2i t' p pub = (True, '''')"
proof -
  let ?salt = "CurrentEpochSalt t"
  let ?raw = "\<lparr>qr_MerchantID = merchantID, qr_TerminalID = terminalID, EpochSalt = ?salt,
    qr_Nonce = hex_encode nonce, qr_Signature = ''''\<rparr>"
  let ?p = "qr_doc.signed ed priv ?raw"
  note salt = CurrentEpochSalt_bounds[OF assms(3)]
  have sgn: "SignDynamicQR ed t (Some nonce) priv merchantID terminalID = Inr ?p"
    by (simp add: SignDynamicQR_def Let_def qr_doc.signed_def qr_digest_def)
  have p: "EpochSalt ?p = ?salt" by (simp add: qr_doc.signed_def)
  have "\<bar>sint (Unix t')\<bar> < 2 ^ 61" "\<bar>sint ?salt\<bar> < 2 ^ 61" using assms(3-6) salt by simp_all
  note d = sint_diff_abs[OF this]
  have fresh: "sint (epoch_skew f2i (Unix t') ?salt) \<le> 60"
    using epoch_skew_le[OF d(2)] d(1) salt assms(5,6) by auto
  obtain b where b: "hex_decode (qr_Signature ?p) = Some b" "length b = SignatureSize" "Verify ed pub (qr_digest ?p) b"
    using qr_doc.authenticE[OF qr_doc.signed_authentic[OF assms(1,2), of ?raw]] .
  have "VerifyDynamicQR ed f2i t' ?p pub = (True, '''')"
    using fresh b unfolding VerifyDynamicQR_def Let_def p
    by (simp add: MaxEpochSkewSeconds_def sig_bytes_def qr_digest_def p)
  with sgn salt(3) p show ?thesis by (intro exI[of _ ?p]) (simp add: qr_doc.signed_def)
qed

section \<open>Properties\<close>

text \<open>
  QR verification decides freshness and authenticity. For timestamps of plausible size (below
  \<open>2 ^ 61\<close> seconds), whatever the platform's out-of-range conversion, the payload is accepted exactly
  when the epoch is at most 60 seconds away from the clock and the hexadecimal signature decodes to
  64 bytes that verify over merchant, terminal, epoch and nonce; a rejection carries a message.
\<close>

theorem VerifyDynamicQR_spec:
  assumes "\<bar>sint (Unix t)\<bar> < 2 ^ 61" and "\<bar>sint (EpochSalt p)\<bar> < 2 ^ 61"
  shows "(fst (VerifyDynamicQR ed f2i t p pub) \<longleftrightarrow>
      \<bar>sint (Unix t) - sint (EpochSalt p)\<bar> \<le> 60 \<and>
      (\<exists>b. hex_decode (qr_Signature p) = Some b \<and> length b = 64 \<and>
        Verify ed pub (ComputeQRDigest (qr_MerchantID p) (qr_TerminalID p) (EpochSalt p) (qr_Nonce p)) b))
    \<and> (fst (VerifyDynamicQR ed f2i t p pub) \<longleftrightarrow> snd (VerifyDynamicQR ed f2i t p pub) = '''')"
proof -
  note d = sint_diff_abs[OF assms]
  have "sint (epoch_skew f2i (Unix t) (EpochSalt p)) \<le> 60 \<longleftrightarrow> \<bar>sint (Unix t) - sint (EpochSalt p)\<bar> \<le> 60"
    using epoch_skew_le[OF d(2)] by (simp add: d(1))
  then show ?thesis
    by (auto simp: VerifyDynamicQR_def Let_def MaxEpochSkewSeconds_def sig_bytes_def SignatureSize_def
        not_less split: option.splits)
qed

theorem VerifyDynamicQR_spec_witness:
  "fst (VerifyDynamicQR demo_ed25519 0 (1000 * Second)
     \<lparr>qr_MerchantID = ''M'', qr_TerminalID = ''T'', EpochSalt = 930, qr_Nonce = '''', qr_Signature = ''''\<rparr> []) = False"
proof -
  let ?p = "\<lparr>qr_MerchantID = ''M'', qr_TerminalID = ''T'', EpochSalt = 930, qr_Nonce = '''', qr_Signature = ''''\<rparr>"
  have u: "Unix (1000 * Second) = 1000" by (simp add: Unix_def Second_def)
  show ?thesis
    using VerifyDynamicQR_spec[of "1000 * Second" ?p demo_ed25519 0 "[]"] by (simp add: u)
qed

text \<open>
  QR round trip. A payload that a terminal signs with a generated key verifies under its public
  key, for every nonce, as long as the verifier's clock is between 60 seconds before and 31 seconds
  after the signer's; the epoch it carries is the signer's time rounded down to 30 seconds.
\<close>

theorem SignDynamicQR_verifies:
  assumes "ed25519_correct ed" and "key_pair ed pub priv"
    and "0 \<le> sint (Unix t)" and "sint (Unix t) < 2 ^ 60"
    and "sint (Unix t) - 60 \<le> sint (Unix t')" and "sint (Unix t') \<le> sint (Unix t) + 31"
  shows "\<exists>p. SignDynamicQR ed t (Some nonce) priv merchantID terminalID = Inr p
    \<and> 30 dvd sint (EpochSalt p) \<and> VerifyDynamicQR ed f2i t' p pub = (True, '''')"
  using signed_payload_verifies[OF assms] by blast

theorem SignDynamicQR_verifies_witness:
  "\<exists>p. SignDynamicQR demo_ed25519 (1000 * Second) (Some [1, 2]) [7] ''MER-1'' ''TERM-1'' = Inr p
    \<and> 30 dvd sint (EpochSalt p) \<and> VerifyDynamicQR demo_ed25519 5 (1010 * Second) p [7] = (True, '''')"
  by (rule SignDynamicQR_verifies) (simp_all add: Unix_def Second_def)

text \<open>
  A conversion gap in the freshness check. On a platform whose out-of-range conversion gives the
  least \<open>int64\<close> (as amd64 does), an epoch that lies \<open>2 ^ 63\<close> seconds from the clock passes the
  freshness test: the payload is accepted whenever its signature verifies.
\<close>

theorem far_epoch_passes:
  assumes "EpochSalt p = Unix t - 2 ^ 63"
    and "hex_decode (qr_Signature p) = Some b" and "length b = 64"
    and "Verify ed pub (ComputeQRDigest (qr_MerchantID p) (qr_TerminalID p) (EpochSalt p) (qr_Nonce p)) b"
  shows "VerifyDynamicQR ed (- (2 ^ 63)) t p pub = (True, '''')"
proof -
  have "Unix t - EpochSalt p = 2 ^ 63" by (simp add: assms(1))
  moreover have "f64_of_int (- (2 ^ 63)) = - (2 ^ 63)" by code_simp
  ultimately have "epoch_skew (- (2 ^ 63)) (Unix t) (EpochSalt p) = - (2 ^ 63)"
    by (simp add: epoch_skew_def)
  then show ?thesis
    using assms(2-4) by (simp add: VerifyDynamicQR_def Let_def MaxEpochSkewSeconds_def sig_bytes_def SignatureSize_def)
qed

theorem far_epoch_passes_witness:
  "let p = \<lparr>qr_MerchantID = ''M'', qr_TerminalID = ''T'', EpochSalt = 2 ^ 63 + 1, qr_Nonce = '''',
      qr_Signature = hex_encode (replicate 64 0)\<rparr>
   in VerifyDynamicQR \<lparr>NewKeyPair = \<lambda>s. (s, s), Sign = \<lambda>k m. replicate 64 0,
       Verify = \<lambda>k m s. s = replicate 64 0\<rparr> (- (2 ^ 63)) (1 * Second) p [] = (True, '''')"
  unfolding Let_def
  by (rule far_epoch_passes) (simp_all add: hex_decode_encode Unix_def Second_def)

end
