(* ===== verification/Fraud_Graph.thy ===== *)
theory Fraud_Graph
  imports QR Telemetry "HOL-Library.AList"
begin

text \<open>
  \<open>internal/fraud/m3_graph_fraud.go\<close>: the in-memory graph of recent transfers and the inline risk score.

  \<^item> The outer maps are partial functions; reading a missing account gives an empty slice or map. The
    inner maps from devices and addresses to the time last seen are association lists.
  \<^item> Times are nanoseconds; \<open>After\<close> and \<open>Before\<close> are strict comparisons. The monotonic reading that Go
    keeps beside the wall clock is not modelled: one clock is used throughout.
  \<^item> The score is a \<open>float64\<close>: every constant and every sum is rounded (\<open>fl\<close>).
\<close>

section \<open>Data\<close>

definition SlidingWindowDuration :: int where
  "SlidingWindowDuration = 60 * Second"

definition FraudScoreThreshold :: float64 where
  "FraudScoreThreshold = fl (75 / 100)"

record TransactionEvent =
  ev_TxID :: string
  FromAcc :: string
  ToAcc :: string
  ev_DeviceID :: string
  ev_MerchantID :: string
  ev_IPAddress :: string
  ev_Amount :: int64
  ev_Timestamp :: time

record QRPayload =
  qp_TerminalID :: string
  qp_MerchantID :: string
  DynamicNonce :: string
  qp_Amount :: int64
  qp_Signature :: string

record FraudDecision =
  fd_Approved :: bool
  fd_ReasonCode :: ReasonCode
  fd_ISO8583 :: string
  fd_FraudScore :: float64
  Explanation :: string

type_synonym sightings = "(string \<times> time) list"

record InMemGraphFraudEngine =
  secretKey :: "byte list"
  terminalToMerch :: "string \<rightharpoonup> string"
  terminalPubKeys :: "string \<rightharpoonup> byte list"
  accountTransfers :: "string \<rightharpoonup> TransactionEvent list"
  accountDevices :: "string \<rightharpoonup> sightings"
  accountIPs :: "string \<rightharpoonup> sightings"
  lastPruneTime :: time
  velocityWarnThreshold :: int
  velocityRejectThreshold :: int

section \<open>Configuration\<close>

definition NewInMemGraphFraudEngine :: "time \<Rightarrow> string \<Rightarrow> InMemGraphFraudEngine" where
  "NewInMemGraphFraudEngine now key =
     \<lparr>secretKey = bytes_of key, terminalToMerch = Map.empty, terminalPubKeys = Map.empty,
      accountTransfers = Map.empty, accountDevices = Map.empty, accountIPs = Map.empty,
      lastPruneTime = now, velocityWarnThreshold = 15, velocityRejectThreshold = 25\<rparr>"

definition SetVelocityThresholds :: "int \<Rightarrow> int \<Rightarrow> InMemGraphFraudEngine \<Rightarrow> InMemGraphFraudEngine" where
  "SetVelocityThresholds warn reject g = g\<lparr>velocityWarnThreshold := warn, velocityRejectThreshold := reject\<rparr>"

definition RegisterTerminal :: "string \<Rightarrow> string \<Rightarrow> InMemGraphFraudEngine \<Rightarrow> InMemGraphFraudEngine" where
  "RegisterTerminal terminalID merchantID g =
     g\<lparr>terminalToMerch := (terminalToMerch g)(terminalID \<mapsto> merchantID)\<rparr>"

definition RegisterTerminalPubKey :: "string \<Rightarrow> byte list \<Rightarrow> InMemGraphFraudEngine \<Rightarrow> InMemGraphFraudEngine" where
  "RegisterTerminalPubKey terminalID pubKey g =
     g\<lparr>terminalPubKeys := (terminalPubKeys g)(terminalID \<mapsto> pubKey)\<rparr>"

section \<open>QR validation\<close>

definition VerifyDynamicQRPayload ::
  "ed25519 \<Rightarrow> int64 \<Rightarrow> time \<Rightarrow> DynamicQRPayload option \<Rightarrow> string \<Rightarrow> InMemGraphFraudEngine \<Rightarrow> bool \<times> string" where
  "VerifyDynamicQRPayload ed f2i now qr expectedMerchantID g =
     (case qr of
        None \<Rightarrow> (True, '''')
      | Some p \<Rightarrow>
          if expectedMerchantID \<noteq> '''' \<and> qr_MerchantID p \<noteq> expectedMerchantID then
            (False, ''Merchant ID mismatch: expected '' @ expectedMerchantID @ '', got '' @ qr_MerchantID p)
          else (case terminalPubKeys g (qr_TerminalID p) of
             None \<Rightarrow> (False, ''Terminal '' @ qr_TerminalID p @ '' is not registered with an Ed25519 public key'')
           | Some pubKey \<Rightarrow> VerifyDynamicQR ed f2i now p pubKey))"

definition GenerateQRSignature :: "string \<Rightarrow> string \<Rightarrow> string \<Rightarrow> int64 \<Rightarrow> InMemGraphFraudEngine \<Rightarrow> string" where
  "GenerateQRSignature terminalID merchantID nonce amount g =
     hex_encode (hmac_sha256 (secretKey g)
       (bytes_of (terminalID @ '':'' @ merchantID @ '':'' @ nonce @ '':'' @ show_int64 amount)))"

definition wrong_terminal :: "QRPayload \<Rightarrow> InMemGraphFraudEngine \<Rightarrow> bool" where
  "wrong_terminal p g =
     (case terminalToMerch g (qp_TerminalID p) of
        None \<Rightarrow> False
      | Some expectedMerch \<Rightarrow> expectedMerch \<noteq> qp_MerchantID p)"

definition VerifyQR :: "QRPayload option \<Rightarrow> InMemGraphFraudEngine \<Rightarrow> bool \<times> string" where
  "VerifyQR qr g =
     (case qr of
        None \<Rightarrow> (True, '''')
      | Some p \<Rightarrow>
          if wrong_terminal p g then
            (False, ''Terminal '' @ qp_TerminalID p @ '' is not registered to Merchant '' @ qp_MerchantID p)
          else if qp_Signature p \<noteq>
              GenerateQRSignature (qp_TerminalID p) (qp_MerchantID p) (DynamicNonce p) (qp_Amount p) g then
            (False, ''QR dynamic hash signature mismatch: tampered sticker or spoofed terminal'')
          else (True, ''''))"

section \<open>The graph\<close>

definition events_of :: "InMemGraphFraudEngine \<Rightarrow> string \<Rightarrow> TransactionEvent list" where
  "events_of g acc = (case accountTransfers g acc of None \<Rightarrow> [] | Some es \<Rightarrow> es)"

definition devices_of :: "InMemGraphFraudEngine \<Rightarrow> string \<Rightarrow> sightings" where
  "devices_of g acc = (case accountDevices g acc of None \<Rightarrow> [] | Some ds \<Rightarrow> ds)"


text \<open>The inner loop: the events of the account one hop further.\<close>

fun scan_hop2 :: "string \<Rightarrow> time \<Rightarrow> TransactionEvent list \<Rightarrow> bool" where
  "scan_hop2 fromAcc cutoff [] = False"
| "scan_hop2 fromAcc cutoff (ev2 # evs) =
     (if ev_Timestamp ev2 > cutoff \<and> ToAcc ev2 = fromAcc then True else scan_hop2 fromAcc cutoff evs)"

fun scan_hop1 :: "InMemGraphFraudEngine \<Rightarrow> string \<Rightarrow> string \<Rightarrow> time \<Rightarrow> TransactionEvent list \<Rightarrow> bool \<times> string" where
  "scan_hop1 g fromAcc toAcc cutoff [] = (False, '''')"
| "scan_hop1 g fromAcc toAcc cutoff (ev1 # evs) =
     (if ev_Timestamp ev1 > cutoff then
        if ToAcc ev1 = fromAcc then
          (True, fromAcc @ '' -> '' @ toAcc @ '' -> '' @ fromAcc @ '' (Direct Cycle)'')
        else if scan_hop2 fromAcc cutoff (events_of g (ToAcc ev1)) then
          (True, fromAcc @ '' -> '' @ toAcc @ '' -> '' @ ToAcc ev1 @ '' -> '' @ fromAcc @ '' (2-Hop Mule Cycle)'')
        else scan_hop1 g fromAcc toAcc cutoff evs
      else scan_hop1 g fromAcc toAcc cutoff evs)"

definition detectCycleBFS :: "string \<Rightarrow> string \<Rightarrow> time \<Rightarrow> InMemGraphFraudEngine \<Rightarrow> bool \<times> string" where
  "detectCycleBFS fromAcc toAcc now g =
     (if toAcc = '''' \<or> fromAcc = toAcc then (False, '''')
      else scan_hop1 g fromAcc toAcc (now - SlidingWindowDuration) (events_of g toAcc))"

definition getRecentTransferCount :: "string \<Rightarrow> time \<Rightarrow> InMemGraphFraudEngine \<Rightarrow> nat" where
  "getRecentTransferCount accountID now g =
     (let cutoff = now - SlidingWindowDuration in
      length (filter (\<lambda>ev. ev_Timestamp ev > cutoff) (events_of g accountID)))"

definition getDistinctDeviceCount :: "string \<Rightarrow> time \<Rightarrow> InMemGraphFraudEngine \<Rightarrow> nat" where
  "getDistinctDeviceCount accountID now g =
     (let cutoff = now - SlidingWindowDuration in
      length (filter (\<lambda>(dev, lastSeen). lastSeen > cutoff) (devices_of g accountID)))"

text \<open>Pruning deletes an account whose slice or map becomes empty.\<close>

definition prune_map :: "('v \<Rightarrow> bool) \<Rightarrow> (string \<rightharpoonup> 'v list) \<Rightarrow> (string \<rightharpoonup> 'v list)" where
  "prune_map keep m =
     (\<lambda>acc. case m acc of
        None \<Rightarrow> None
      | Some xs \<Rightarrow> (let valid = filter keep xs in if valid = [] then None else Some valid))"

definition pruneExpiredEvents :: "time \<Rightarrow> InMemGraphFraudEngine \<Rightarrow> InMemGraphFraudEngine" where
  "pruneExpiredEvents now g =
     (let cutoff = now - SlidingWindowDuration in
      g\<lparr>accountTransfers := prune_map (\<lambda>ev. ev_Timestamp ev > cutoff) (accountTransfers g),
        accountDevices := prune_map (\<lambda>(dev, lastSeen). \<not> lastSeen < cutoff) (accountDevices g),
        accountIPs := prune_map (\<lambda>(ip, lastSeen). \<not> lastSeen < cutoff) (accountIPs g)\<rparr>)"

definition ClearAccountHistory :: "string \<Rightarrow> InMemGraphFraudEngine \<Rightarrow> InMemGraphFraudEngine" where
  "ClearAccountHistory accountID g =
     g\<lparr>accountTransfers := (accountTransfers g)(accountID := None),
       accountDevices := (accountDevices g)(accountID := None),
       accountIPs := (accountIPs g)(accountID := None)\<rparr>"

definition Reset :: "time \<Rightarrow> InMemGraphFraudEngine \<Rightarrow> InMemGraphFraudEngine" where
  "Reset now g =
     g\<lparr>accountTransfers := Map.empty, accountDevices := Map.empty, accountIPs := Map.empty, lastPruneTime := now\<rparr>"

section \<open>Screening\<close>

text \<open>The increment of the velocity rule, zero when no branch is taken.\<close>

definition velocity_risk :: "int \<Rightarrow> int \<Rightarrow> int \<Rightarrow> float64 option" where
  "velocity_risk warn reject n =
     (if reject > 0 \<and> n \<ge> reject then Some (fl (80 / 100))
      else if warn > 0 \<and> n \<ge> warn then Some (fl (50 / 100))
      else if warn > 1 \<and> n \<ge> warn div 2 then Some (fl (20 / 100))
      else None)"

definition add_risk :: "float64 option \<Rightarrow> float64 \<Rightarrow> float64" where
  "add_risk inc score = (case inc of None \<Rightarrow> score | Some x \<Rightarrow> fl (score + x))"

definition fraud_score :: "float64 option \<Rightarrow> nat \<Rightarrow> int64 \<Rightarrow> float64" where
  "fraud_score velocity deviceCount amount =
     (let score = fl (5 / 100);
          score = add_risk velocity score;
          score = add_risk (if deviceCount \<ge> 3 then Some (fl (35 / 100)) else None) score;
          score = add_risk (if sint amount > 500000 then Some (fl (15 / 100)) else None) score
      in if score > 1 then 1 else score)"

definition record_sighting :: "string \<Rightarrow> string \<Rightarrow> time \<Rightarrow> (string \<rightharpoonup> sightings) \<Rightarrow> (string \<rightharpoonup> sightings)" where
  "record_sighting acc what now m =
     (if what = '''' then m
      else m(acc \<mapsto> AList.update what now (case m acc of None \<Rightarrow> [] | Some ds \<Rightarrow> ds)))"

definition record_event :: "TransactionEvent \<Rightarrow> InMemGraphFraudEngine \<Rightarrow> InMemGraphFraudEngine" where
  "record_event ev g =
     g\<lparr>accountTransfers := (accountTransfers g)(FromAcc ev \<mapsto> events_of g (FromAcc ev) @ [ev]),
       accountDevices := record_sighting (FromAcc ev) (ev_DeviceID ev) (ev_Timestamp ev) (accountDevices g),
       accountIPs := record_sighting (FromAcc ev) (ev_IPAddress ev) (ev_Timestamp ev) (accountIPs g)\<rparr>"

definition fraud_decline :: "ReasonCode \<Rightarrow> float64 \<Rightarrow> string \<Rightarrow> FraudDecision" where
  "fraud_decline code score msg =
     \<lparr>fd_Approved = False, fd_ReasonCode = code, fd_ISO8583 = MapReasonToISO8583 code,
      fd_FraudScore = score, Explanation = msg\<rparr>"

definition periodic_prune :: "time \<Rightarrow> InMemGraphFraudEngine \<Rightarrow> InMemGraphFraudEngine" where
  "periodic_prune now g =
     (if now - lastPruneTime g > 30 * Second then (pruneExpiredEvents now g)\<lparr>lastPruneTime := now\<rparr> else g)"

text \<open>The part of the screening after the QR gate and the pruning.\<close>

definition assess :: "time \<Rightarrow> TransactionEvent \<Rightarrow> InMemGraphFraudEngine \<Rightarrow> FraudDecision \<times> InMemGraphFraudEngine" where
  "assess now ev g =
     (let (isCycle, cyclePath) = detectCycleBFS (FromAcc ev) (ToAcc ev) now g in
      if isCycle then
        (fraud_decline CodeMuleRingDetected (fl (95 / 100)) (''Cyclic mule transfer pattern detected: '' @ cyclePath), g)
      else
        let velocityCount = getRecentTransferCount (FromAcc ev) now g;
            deviceCount = getDistinctDeviceCount (FromAcc ev) now g;
            score = fraud_score (velocity_risk (velocityWarnThreshold g) (velocityRejectThreshold g) (int velocityCount))
              deviceCount (ev_Amount ev)
        in if score \<ge> FraudScoreThreshold then
             (fraud_decline CodeMuleRingDetected score
                (''High velocity cyclic transfer suspected: '' @ show_nat velocityCount @ '' transfers in 60s''), g)
           else
             (\<lparr>fd_Approved = True, fd_ReasonCode = CodeApproved, fd_ISO8583 = MapReasonToISO8583 CodeApproved,
               fd_FraudScore = score, Explanation = ''Inline screening passed.''\<rparr>, record_event ev g))"

definition ScreenTransaction ::
  "time \<Rightarrow> string \<Rightarrow> string \<Rightarrow> string \<Rightarrow> string \<Rightarrow> string \<Rightarrow> string \<Rightarrow> int64 \<Rightarrow> QRPayload option
    \<Rightarrow> InMemGraphFraudEngine \<Rightarrow> FraudDecision \<times> InMemGraphFraudEngine" where
  "ScreenTransaction now txID fromAcc toAcc deviceID merchantID ipAddress amount qr g =
     (let (valid, msg) = VerifyQR qr g in
      if \<not> valid then
        (fraud_decline CodeQRMismatch 1 (''QR Tampering Detected: '' @ msg), g)
      else
        assess now
          \<lparr>ev_TxID = txID, FromAcc = fromAcc, ToAcc = toAcc, ev_DeviceID = deviceID,
           ev_MerchantID = merchantID, ev_IPAddress = ipAddress, ev_Amount = amount, ev_Timestamp = now\<rparr>
          (periodic_prune now g))"

end
