(* ===== verification/Gateway.thy ===== *)
theory Gateway
  imports Reconcile Offline_Auth Fraud_Graph
begin

text \<open>
  \<open>internal/gateway/m1_api.go\<close>: the payment gateway, which joins the fraud engine, the ledger, the edge
  authorizer, the write-ahead log and the reconciler.

  \<^item> The gateway holds pointers to its components; they are fields of its record. The ledger that
    the reconciler settles on is the gateway's ledger (\<open>cmd/server/main.go\<close> builds them so).
  \<^item> What a call reads from outside is an \<open>env\<close>: the readings of the clock at each call site, the
    random bytes for a missing transaction id, the outcome of the writes to the log, the JSON coder
    of the log and the Ed25519 package.
  \<^item> Each handler runs to its end before the next one starts. \<open>None\<close> is a panic (a lookup in a
    malformed revocation filter) or, for a reconciliation, a call that blocks.
\<close>

section \<open>Data\<close>

type_synonym NetworkStatus = string

definition NetworkOnline :: NetworkStatus where "NetworkOnline = ''ONLINE''"

definition NetworkDisconnected :: NetworkStatus where "NetworkDisconnected = ''DISCONNECTED''"

definition NetworkReconnected :: NetworkStatus where "NetworkReconnected = ''RECONNECTED''"

record PaymentRequest =
  IdempotencyKey :: string
  req_TxID :: string
  req_AccountID :: string
  req_MerchantID :: string
  req_TerminalID :: string
  req_Amount :: int64
  req_DeviceID :: string
  req_IPAddress :: string
  req_ClientTimestamp :: int64
  req_QRPayload :: "QRPayload option"
  DynamicQR :: "DynamicQRPayload option"
  OfflineToken :: "OfflineAuthorizationToken option"
  req_VectorClock :: vclock
  req_SeqNo :: uint64

record PaymentGateway =
  networkStatus :: NetworkStatus
  idempotency :: "string \<rightharpoonup> PaymentResponse"
  terminalKeys :: "string \<rightharpoonup> byte list"
  gw_ledger :: ConservingLedger
  fraudEngine :: "InMemGraphFraudEngine option"
  edgeAuthorizer :: EdgeAuthorizer
  edgeWAL :: WALStore
  gw_reconciler :: Reconciler
  fraudScreeningEnabled :: bool
  requestCounter :: int64

record env =
  env_ed :: ed25519
  env_codec :: tx_codec
  env_f2i :: int64
  env_random :: "byte list"
  env_request_time :: time
  env_qr_time :: time
  env_auth_time :: time
  env_screen_time :: time
  env_reserve_clk :: clock
  env_commit_clk :: clock
  env_release_clk :: clock
  env_io :: append_io

section \<open>Error texts\<close>

fun ledger_error_text :: "ledger_error \<Rightarrow> string" where
  "ledger_error_text ErrAccountNotFound = ''account not found''"
| "ledger_error_text ErrInsufficientFunds = ''insufficient available balance''"
| "ledger_error_text ErrInvalidAmount = ''amount must be strictly positive''"
| "ledger_error_text ErrReservationNotFound = ''reservation not found''"
| "ledger_error_text ErrHoldMismatch = ''reserved balance less than hold commit amount''"

section \<open>Configuration\<close>

definition NewPaymentGateway ::
  "ConservingLedger \<Rightarrow> InMemGraphFraudEngine option \<Rightarrow> EdgeAuthorizer \<Rightarrow> WALStore \<Rightarrow> Reconciler \<Rightarrow> PaymentGateway" where
  "NewPaymentGateway led fra edg wal rec =
     \<lparr>networkStatus = NetworkOnline, idempotency = Map.empty, terminalKeys = Map.empty, gw_ledger = led,
      fraudEngine = fra, edgeAuthorizer = edg, edgeWAL = wal, gw_reconciler = rec,
      fraudScreeningEnabled = True, requestCounter = 0\<rparr>"

definition SetFraudScreeningEnabled :: "bool \<Rightarrow> PaymentGateway \<Rightarrow> PaymentGateway" where
  "SetFraudScreeningEnabled enabled gw = gw\<lparr>fraudScreeningEnabled := enabled\<rparr>"

definition SetNetworkStatus :: "NetworkStatus \<Rightarrow> PaymentGateway \<Rightarrow> PaymentGateway" where
  "SetNetworkStatus status gw = gw\<lparr>networkStatus := status\<rparr>"

definition GetNetworkStatus :: "PaymentGateway \<Rightarrow> NetworkStatus" where
  "GetNetworkStatus gw = networkStatus gw"

definition RegisterTerminalKey :: "string \<Rightarrow> byte list \<Rightarrow> PaymentGateway \<Rightarrow> PaymentGateway" where
  "RegisterTerminalKey terminalID pubKey gw =
     gw\<lparr>terminalKeys := (terminalKeys gw)(terminalID \<mapsto> pubKey),
        fraudEngine := map_option (RegisterTerminalPubKey terminalID pubKey) (fraudEngine gw)\<rparr>"

section \<open>Offline payments\<close>

definition queued_tx :: "PaymentRequest \<Rightarrow> OfflineAuthorizationToken \<Rightarrow> int64 \<Rightarrow> QueuedTransaction" where
  "queued_tx req tok seqNum =
     (let tx = \<lparr>TxID = req_TxID req, ClientTimestamp = req_ClientTimestamp req, SequenceNum = seqNum,
                SeqNo = req_SeqNo req, VectorClock = req_VectorClock req, tx_TokenID = TokenID tok,
                tx_AccountID = req_AccountID req, tx_MerchantID = req_MerchantID req,
                tx_TerminalID = req_TerminalID req, tx_Amount = req_Amount req,
                tx_Signature = tok_Signature tok, tx_Status = ''PENDING'', PayloadHash = ''''\<rparr>
      in tx\<lparr>PayloadHash := ComputeHash tx\<rparr>)"

definition handleOfflinePayment ::
  "env \<Rightarrow> PaymentRequest \<Rightarrow> PaymentGateway \<Rightarrow> (PaymentResponse \<times> PaymentGateway) option" where
  "handleOfflinePayment ev req gw =
     (case OfflineToken req of
        None \<Rightarrow> Some (NewDeclineResponse CodeOfflineTokenInvalid
                  ''Network partition active: Offline authorization token is required.'' 0, gw)
      | Some tok \<Rightarrow>
          (case AuthorizeOffline (env_ed ev) (env_auth_time ev) tok (req_Amount req) (edgeAuthorizer gw) of
             None \<Rightarrow> None
           | Some (decision, ea) \<Rightarrow>
               let gw1 = gw\<lparr>edgeAuthorizer := ea\<rparr> in
               if \<not> dec_Approved decision then
                 Some (NewDeclineResponse (dec_ReasonCode decision) (dec_Message decision) 0, gw1)
               else
                 (case Append (env_codec ev) (env_io ev) (queued_tx req tok (dec_SequenceNum decision)) (edgeWAL gw1) of
                    (err, wal) \<Rightarrow>
                      let gw2 = gw1\<lparr>edgeWAL := wal\<rparr> in
                      (case err of
                         Some e \<Rightarrow> Some (NewDeclineResponse CodeSystemError
                           (''Failed to commit to local edge storage: '' @ wal_error_text e) 0, gw2)
                       | None \<Rightarrow> Some (NewOfflineApprovalResponse (req_TxID req) (req_AccountID req)
                           (req_Amount req) (TokenID tok), gw2)))))"

section \<open>Online payments\<close>

text \<open>The screening step: the fraud score, or the response that declines.\<close>

definition screen_request :: "env \<Rightarrow> PaymentRequest \<Rightarrow> PaymentGateway \<Rightarrow> (PaymentResponse + float64) \<times> PaymentGateway" where
  "screen_request ev req gw =
     (if fraudScreeningEnabled gw then
        (case fraudEngine gw of
           None \<Rightarrow> (Inr 0, gw)
         | Some g \<Rightarrow>
             (case ScreenTransaction (env_screen_time ev) (req_TxID req) (req_AccountID req) (req_MerchantID req)
                (req_DeviceID req) (req_MerchantID req) (req_IPAddress req) (req_Amount req) (req_QRPayload req) g of
                (d, g') \<Rightarrow>
                  let gw1 = gw\<lparr>fraudEngine := Some g'\<rparr> in
                  if \<not> fd_Approved d then
                    (Inl (NewDeclineResponse (fd_ReasonCode d) (Explanation d) (fd_FraudScore d)), gw1)
                  else (Inr (fd_FraudScore d), gw1)))
      else (Inr 0, gw))"

text \<open>Reservation, commit and, when the commit fails, the release of the hold.\<close>

definition pay_from_ledger ::
  "env \<Rightarrow> PaymentRequest \<Rightarrow> float64 \<Rightarrow> ConservingLedger \<Rightarrow> PaymentResponse \<times> ConservingLedger" where
  "pay_from_ledger ev req fraudScore l =
     (case ReserveFunds (env_reserve_clk ev) (req_AccountID req) (req_Amount req) (req_TxID req) l of
        (Inl err, l1) \<Rightarrow>
          if err = ErrInsufficientFunds then
            (NewDeclineResponse CodeInsufficientFunds ''Account has insufficient available funds.'' fraudScore, l1)
          else
            (NewDeclineResponse CodeSystemError (''Ledger reservation failure: '' @ ledger_error_text err) fraudScore, l1)
      | (Inr resID, l1) \<Rightarrow>
          (case CommitHold (env_commit_clk ev) (req_AccountID req) (req_MerchantID req) (req_Amount req) (req_TxID req) l1 of
             (Some err, l2) \<Rightarrow>
               (NewDeclineResponse CodeSystemError (''Ledger commit failure: '' @ ledger_error_text err) fraudScore,
                snd (ReleaseHold (env_release_clk ev) (req_AccountID req) (req_Amount req) (req_TxID req) l2))
           | (None, l2) \<Rightarrow>
               (NewApprovalResponse (req_TxID req) (req_AccountID req) (req_Amount req) fraudScore, l2)))"

definition handleOnlinePayment :: "env \<Rightarrow> PaymentRequest \<Rightarrow> PaymentGateway \<Rightarrow> PaymentResponse \<times> PaymentGateway" where
  "handleOnlinePayment ev req gw =
     (case screen_request ev req gw of
        (Inl resp, gw1) \<Rightarrow> (resp, gw1)
      | (Inr fraudScore, gw1) \<Rightarrow>
          (case pay_from_ledger ev req fraudScore (gw_ledger gw1) of
             (resp, l) \<Rightarrow> (resp, gw1\<lparr>gw_ledger := l\<rparr>)))"

section \<open>The entry point\<close>

definition fill_defaults :: "env \<Rightarrow> PaymentRequest \<Rightarrow> PaymentRequest" where
  "fill_defaults ev req =
     (let req = (if req_TxID req = '''' then req\<lparr>req_TxID := ''TX-'' @ hex_encode (env_random ev)\<rparr> else req)
      in if req_ClientTimestamp req = 0 then req\<lparr>req_ClientTimestamp := Unix (env_request_time ev)\<rparr> else req)"

definition remember :: "string \<Rightarrow> PaymentResponse \<Rightarrow> PaymentGateway \<Rightarrow> PaymentGateway" where
  "remember key resp gw =
     (if key \<noteq> '''' then gw\<lparr>idempotency := (idempotency gw)(key \<mapsto> resp)\<rparr> else gw)"

text \<open>The dynamic QR gate: the response that declines, if any.\<close>

definition check_dynamic_qr :: "env \<Rightarrow> PaymentRequest \<Rightarrow> PaymentGateway \<Rightarrow> PaymentResponse option" where
  "check_dynamic_qr ev req gw =
     (case DynamicQR req of
        None \<Rightarrow> None
      | Some qr \<Rightarrow>
          if qr_MerchantID qr \<noteq> req_MerchantID req then
            Some (NewDeclineResponse CodeQRTampering
              (''Merchant ID mismatch in dynamic QR: expected '' @ req_MerchantID req @ '', got '' @ qr_MerchantID qr) 1)
          else (case terminalKeys gw (qr_TerminalID qr) of
             None \<Rightarrow> Some (NewDeclineResponse CodeQRTampering
               (''Terminal '' @ qr_TerminalID qr @ '' is not registered with an Ed25519 public key'') 1)
           | Some pubKey \<Rightarrow>
               (case VerifyDynamicQR (env_ed ev) (env_f2i ev) (env_qr_time ev) qr pubKey of
                  (valid, reason) \<Rightarrow>
                    if \<not> valid then
                      Some (NewDeclineResponse CodeQRTampering (''Dynamic QR verification failed: '' @ reason) 1)
                    else None)))"

definition route_payment ::
  "env \<Rightarrow> PaymentRequest \<Rightarrow> PaymentGateway \<Rightarrow> (PaymentResponse \<times> PaymentGateway) option" where
  "route_payment ev req gw =
     (if networkStatus gw = NetworkDisconnected then handleOfflinePayment ev req gw
      else Some (handleOnlinePayment ev req gw))"

definition cached_response :: "PaymentRequest \<Rightarrow> PaymentGateway \<Rightarrow> PaymentResponse option" where
  "cached_response req gw = (if IdempotencyKey req \<noteq> '''' then idempotency gw (IdempotencyKey req) else None)"

definition ProcessPayment ::
  "env \<Rightarrow> PaymentRequest \<Rightarrow> PaymentGateway \<Rightarrow> (PaymentResponse \<times> PaymentGateway) option" where
  "ProcessPayment ev req0 gw0 =
     (let gw = gw0\<lparr>requestCounter := requestCounter gw0 + 1\<rparr>;
          req = fill_defaults ev req0
      in case cached_response req gw of
           Some cached \<Rightarrow> Some (cached, gw)
         | None \<Rightarrow>
             (case check_dynamic_qr ev req gw of
                Some resp \<Rightarrow> Some (resp, remember (IdempotencyKey req) resp gw)
              | None \<Rightarrow>
                  (case route_payment ev req gw of
                     None \<Rightarrow> None
                   | Some (resp, gw1) \<Rightarrow> Some (resp, remember (IdempotencyKey req) resp gw1))))"

definition TriggerReconciliation ::
  "time \<Rightarrow> (nat \<Rightarrow> nat \<Rightarrow> clock) \<Rightarrow> time \<Rightarrow> PaymentGateway \<Rightarrow> (ReconciliationReport \<times> PaymentGateway) option" where
  "TriggerReconciliation startTime clk endTime gw =
     (case Replay startTime clk endTime (gw_ledger gw) (edgeWAL gw) (gw_reconciler gw) of
        None \<Rightarrow> None
      | Some (l, s, r, rep) \<Rightarrow>
          Some (rep, gw\<lparr>gw_ledger := l, edgeWAL := s, gw_reconciler := r\<rparr>))"

end
