(* ===== verification/Reconcile_Order.thy ===== *)
theory Reconcile_Order
  imports Reconcile "HOL-Library.Product_Lexorder"
begin

text \<open>
  The order of a replay: the vector-clock comparison is the causal order, and the sort of a batch does not
  depend on the order of arrival exactly when the tie-breakers close no cycle with it.
\<close>

section \<open>Vector clocks\<close>

lemma foldl_flags:
  "foldl (\<lambda>(le, ge) k. (le \<and> P k, ge \<and> Q k)) (u, v) ks = (u \<and> (\<forall>k\<in>set ks. P k), v \<and> (\<forall>k\<in>set ks. Q k))"
  by (induction ks arbitrary: u v) auto

lemma vc_at_outside: "k \<notin> fst ` set v \<Longrightarrow> vc_at v k = 0"
  by (simp add: vc_at_def map_of_eq_None_iff[THEN iffD2])

lemma vc_keys:
  assumes "fst ` set va \<union> fst ` set vb \<subseteq> K"
  shows "(\<forall>k\<in>K. \<not> vc_at vb k < vc_at va k) \<longleftrightarrow> (\<forall>k. vc_at va k \<le> vc_at vb k)"
proof -
  have "vc_at va k \<le> vc_at vb k" if "k \<notin> K" for k
  proof -
    have "k \<notin> fst ` set va" using that assms by blast
    then show ?thesis by (simp add: vc_at_outside)
  qed
  then show ?thesis by (auto simp: not_less)
qed

lemma CompareVectorClocks_iff:
  "CompareVectorClocks va vb =
    (if (\<forall>k. vc_at va k \<le> vc_at vb k) \<and> \<not> (\<forall>k. vc_at vb k \<le> vc_at va k) then - 1
     else if (\<forall>k. vc_at vb k \<le> vc_at va k) \<and> \<not> (\<forall>k. vc_at va k \<le> vc_at vb k) then 1 else 0)"
proof (cases "va = [] \<and> vb = []")
  case True
  then show ?thesis by (simp add: CompareVectorClocks_def vc_at_def)
next
  case False
  let ?K = "set (map fst va @ map fst vb)"
  have K: "fst ` set va \<union> fst ` set vb \<subseteq> ?K" "fst ` set vb \<union> fst ` set va \<subseteq> ?K" by auto
  have "foldl (\<lambda>(le, ge) k. (le \<and> \<not> vc_at vb k < vc_at va k, ge \<and> \<not> vc_at va k < vc_at vb k))
      (True, True) (map fst va @ map fst vb)
    = ((\<forall>k. vc_at va k \<le> vc_at vb k), (\<forall>k. vc_at vb k \<le> vc_at va k))"
    by (simp only: foldl_flags vc_keys[OF K(1)] vc_keys[OF K(2)] simp_thms)
  then show ?thesis using False unfolding CompareVectorClocks_def Let_def by auto
qed

section \<open>The order of the tie-breakers\<close>

text \<open>The tie-breakers compare a key lexicographically.\<close>

definition tie_key :: "QueuedTransaction \<Rightarrow> uint64 \<times> int \<times> string \<times> int \<times> string" where
  "tie_key x = (SeqNo x, sint (SequenceNum x), tx_TerminalID x, sint (ClientTimestamp x), TxID x)"

lemma tie_less_key: "tie_less x y \<longleftrightarrow> tie_key x < tie_key y"
  by (auto simp: tie_less_def tie_key_def order_le_less sint64_inject)

interpretation tie: strict_weak_order tie_less UNIV
  by unfold_locales (auto simp: tie_less_key)

lemma tie_less_linear: "TxID x \<noteq> TxID y \<Longrightarrow> tie_less x y \<or> tie_less y x"
  by (auto simp: tie_less_key tie_key_def dest: neq_iff[THEN iffD1])

lemma CompareVectorClocks_swap: "CompareVectorClocks vb va = - CompareVectorClocks va vb"
  by (auto simp: CompareVectorClocks_iff)

section \<open>When the comparison is an order\<close>

definition clock_before :: "QueuedTransaction \<Rightarrow> QueuedTransaction \<Rightarrow> bool" where
  "clock_before x y \<longleftrightarrow> CompareVectorClocks (VectorClock x) (VectorClock y) < 0"

definition clock_concurrent :: "QueuedTransaction \<Rightarrow> QueuedTransaction \<Rightarrow> bool" where
  "clock_concurrent x y \<longleftrightarrow> CompareVectorClocks (VectorClock x) (VectorClock y) = 0"

text \<open>
  A batch has a tie cycle when one transaction causally precedes a second, a third is concurrent with
  both, and the tie-breakers put the third after the second and before the first.
\<close>

definition tie_cycle :: "QueuedTransaction list \<Rightarrow> bool" where
  "tie_cycle txs \<longleftrightarrow> list_ex (\<lambda>x. list_ex (\<lambda>y. list_ex (\<lambda>z.
     clock_before x y \<and> clock_concurrent y z \<and> clock_concurrent z x \<and> tie_less y z \<and> tie_less z x) txs) txs) txs"

lemma tie_cycle_iff:
  "tie_cycle txs \<longleftrightarrow> (\<exists>x\<in>set txs. \<exists>y\<in>set txs. \<exists>z\<in>set txs.
     clock_before x y \<and> clock_concurrent y z \<and> clock_concurrent z x \<and> tie_less y z \<and> tie_less z x)"
  by (simp add: tie_cycle_def list_ex_iff)

lemma tie_cycle_set: "set ys = set xs \<Longrightarrow> tie_cycle ys \<longleftrightarrow> tie_cycle xs"
  by (simp add: tie_cycle_iff)

lemma clock_cases: "clock_before x y \<or> clock_concurrent x y \<or> clock_before y x"
  unfolding clock_before_def clock_concurrent_def
  using CompareVectorClocks_swap[of "VectorClock x" "VectorClock y"] by linarith

lemma clock_exclusive:
  "clock_before x y \<Longrightarrow> \<not> clock_before y x" "clock_before x y \<Longrightarrow> \<not> clock_concurrent x y"
  "clock_concurrent x y \<longleftrightarrow> clock_concurrent y x"
  unfolding clock_before_def clock_concurrent_def
  using CompareVectorClocks_swap[of "VectorClock x" "VectorClock y"] by linarith+

lemma clock_before_iff:
  "clock_before x y \<longleftrightarrow> (\<forall>k. vc_at (VectorClock x) k \<le> vc_at (VectorClock y) k) \<and>
     \<not> (\<forall>k. vc_at (VectorClock y) k \<le> vc_at (VectorClock x) k)"
  by (simp add: clock_before_def CompareVectorClocks_iff)

lemma clock_before_trans: "clock_before x y \<Longrightarrow> clock_before y z \<Longrightarrow> clock_before x z"
  unfolding clock_before_iff by (meson order_trans)

lemma tx_less_iff: "tx_less x y \<longleftrightarrow> clock_before x y \<or> clock_concurrent x y \<and> tie_less x y"
  by (auto simp: tx_less_def clock_before_def clock_concurrent_def Let_def)

lemma not_tx_less:
  assumes "\<not> tx_less y x"
  shows "\<not> CompareVectorClocks (VectorClock y) (VectorClock x) < 0
    \<and> (CompareVectorClocks (VectorClock x) (VectorClock y) = 0 \<longrightarrow> \<not> tie_less y x)"
  using assms clock_exclusive(3)[of x y] by (simp add: tx_less_iff clock_before_def clock_concurrent_def)

lemma tx_less_asym: "tx_less x y \<Longrightarrow> \<not> tx_less y x"
  unfolding tx_less_iff using clock_exclusive[of x y] clock_exclusive[of y x] tie.lt_asym[of x y] by blast

lemma tx_less_linear: "TxID x \<noteq> TxID y \<Longrightarrow> tx_less x y \<or> tx_less y x"
  using clock_cases[of x y] clock_exclusive(3)[of x y] tie_less_linear[of x y] by (auto simp: tx_less_iff)

text \<open>The comparison has a cycle of three exactly when there is a tie cycle.\<close>

lemma three_cycle:
  assumes "tx_less x y" and "tx_less y z" and "tx_less z x" and "{x, y, z} \<subseteq> set txs"
  shows "tie_cycle txs"
proof -
  note excl = clock_exclusive clock_before_trans[of x y z] clock_before_trans[of y z x] clock_before_trans[of z x y]
  have "\<not> (tie_less x y \<and> tie_less y z \<and> tie_less z x)"
    using tie.lt_trans[of x y z] tie.lt_asym[of x z] by blast
  then consider "clock_before x y" "clock_concurrent y z" "clock_concurrent z x" "tie_less y z" "tie_less z x"
    | "clock_before y z" "clock_concurrent z x" "clock_concurrent x y" "tie_less z x" "tie_less x y"
    | "clock_before z x" "clock_concurrent x y" "clock_concurrent y z" "tie_less x y" "tie_less y z"
    using assms(1-3) excl unfolding tx_less_iff by metis
  then show ?thesis using assms(4) unfolding tie_cycle_iff by cases blast+
qed

lemma acyclic_order:
  assumes "\<not> tie_cycle txs" and "distinct (map TxID txs)"
  shows "strict_weak_order tx_less (set txs)"
proof
  have eq: "x = y \<or> tx_less x y \<or> tx_less y x" if "x \<in> set txs" "y \<in> set txs" for x y
    using that tx_less_linear[of x y] assms(2) by (auto simp: distinct_map inj_on_def)
  note cycle = three_cycle[where txs = txs] assms(1)
  fix x y z
  assume xyz: "x \<in> set txs" "y \<in> set txs" "z \<in> set txs"
  show "tx_less x z" if "tx_less x y" "tx_less y z"
    using eq[OF xyz(1,3)] cycle(1)[of x y z] assms(1) that xyz tx_less_asym[of x y] by blast
  show "\<not> tx_less x z" if "\<not> tx_less x y" "\<not> tx_less y z"
    using eq[OF xyz(1,2)] eq[OF xyz(2,3)] cycle(1)[of x z y] assms(1) that xyz by blast
qed (use tx_less_asym in blast)

section \<open>What arrival decides\<close>

text \<open>Insertion sort does not exchange two elements that it has placed.\<close>

lemma filter_sift: "\<not> P x \<Longrightarrow> filter P (sift lt x ys) = filter P ys"
  by (induction ys) auto

lemma filter_insertion_loop:
  "\<forall>x\<in>set xs. \<not> P x \<Longrightarrow> filter P (insertion_loop lt acc xs) = rev (filter P acc)"
  by (induction lt acc xs rule: insertion_loop.induct) (simp_all add: filter_sift rev_filter)

lemma sort_first_three:
  assumes "\<not> tx_less y x" and "\<not> tx_less z y" and "distinct (x # y # z # rest)" and "length rest \<le> 17"
  shows "filter (\<lambda>u. u \<in> {x, y, z}) (SortTransactionsVectorClock (x # y # z # rest)) = [x, y, z]"
proof -
  have "SortTransactionsVectorClock (x # y # z # rest) = insertion_loop tx_less [z, y, x] rest"
    using assms by (simp add: SortTransactionsVectorClock_def SliceStable_small insertionSort_def)
  then show ?thesis using assms(3) by (subst \<open>_ = _\<close>) (subst filter_insertion_loop, auto)
qed

lemma cycle_depends_on_arrival:
  assumes "tie_cycle xs" and "distinct (map TxID xs)" and "length xs \<le> 20"
  shows "\<exists>ys zs. mset ys = mset xs \<and> mset zs = mset xs \<and> SortTransactionsVectorClock ys \<noteq> SortTransactionsVectorClock zs"
proof -
  obtain x y z where in_xs: "x \<in> set xs" "y \<in> set xs" "z \<in> set xs"
    and c: "clock_before x y" "clock_concurrent y z" "clock_concurrent z x" "tie_less y z" "tie_less z x"
    using assms(1) unfolding tie_cycle_iff by blast
  then have lt: "tx_less x y" "tx_less y z" "tx_less z x" by (simp_all add: tx_less_iff)
  have ne: "x \<noteq> y" "y \<noteq> z" "x \<noteq> z" using lt tx_less_asym by blast+
  have dist: "distinct xs" using assms(2) by (simp add: distinct_map)
  have take_out: "add_mset u (mset (remove1 u us)) = mset us" if "u \<in> set us" for u and us :: "QueuedTransaction list"
    using that by simp
  define rest where "rest = remove1 z (remove1 y (remove1 x xs))"
  have rest: "mset (x # y # z # rest) = mset xs" "mset (y # z # x # rest) = mset xs"
    using take_out[of x xs] take_out[of y "remove1 x xs"] take_out[of z "remove1 y (remove1 x xs)"] in_xs ne
    by (simp_all add: rest_def add_mset_commute)
  have d: "distinct (x # y # z # rest)" "distinct (y # z # x # rest)"
    using rest dist mset_eq_imp_distinct_iff by blast+
  have "length (x # y # z # rest) = length xs" by (rule mset_eq_length[OF rest(1)])
  then have len: "length rest \<le> 17" using assms(3) by simp
  have "filter (\<lambda>u. u \<in> {x, y, z}) (SortTransactionsVectorClock (x # y # z # rest)) = [x, y, z]"
    "filter (\<lambda>u. u \<in> {y, z, x}) (SortTransactionsVectorClock (y # z # x # rest)) = [y, z, x]"
    using lt tx_less_asym by (intro sort_first_three d len; blast)+
  moreover have "{y, z, x} = {x, y, z}" by blast
  ultimately have "SortTransactionsVectorClock (x # y # z # rest) \<noteq> SortTransactionsVectorClock (y # z # x # rest)"
    using ne(1) by (metis list.inject)
  with rest show ?thesis by blast
qed

lemma set_Sort [simp]: "set (SortTransactionsVectorClock xs) = set xs" "length (SortTransactionsVectorClock xs) = length xs"
  by (simp_all add: SortTransactionsVectorClock_def)

lemma acyclic_sorted:
  assumes "\<not> tie_cycle xs" and "distinct (map TxID xs)" and "length xs \<le> 20" and "mset ys = mset xs"
  shows "sorted_wrt (\<lambda>x y. \<not> tx_less y x) (SortTransactionsVectorClock ys)"
  using strict_weak_order.SliceStable_sorted[OF acyclic_order[OF assms(1,2)], of ys] assms(3)
    mset_eq_length[OF assms(4)] mset_eq_setD[OF assms(4)] by (simp add: SortTransactionsVectorClock_def)

lemma acyclic_unique:
  assumes "\<not> tie_cycle xs" and "distinct (map TxID xs)" and "length xs \<le> 20" and "mset ys = mset xs"
  shows "SortTransactionsVectorClock ys = SortTransactionsVectorClock xs"
proof (rule strict_weak_order.in_order_unique[OF acyclic_order[OF assms(1,2)]])
  show "sorted_wrt (\<lambda>x y. \<not> tx_less y x) (SortTransactionsVectorClock ys)"
    "sorted_wrt (\<lambda>x y. \<not> tx_less y x) (SortTransactionsVectorClock xs)"
    using acyclic_sorted[OF assms(1-3)] assms(4) by blast+
  show "mset (SortTransactionsVectorClock ys) = mset (SortTransactionsVectorClock xs)"
    using assms(4) by (simp add: SortTransactionsVectorClock_def)
  have ys: "set (SortTransactionsVectorClock ys) = set xs" using mset_eq_setD[OF assms(4)] by simp
  then show "set (SortTransactionsVectorClock ys) \<subseteq> set xs" by simp
  show "x = y" if "x \<in> set (SortTransactionsVectorClock ys)" "y \<in> set (SortTransactionsVectorClock ys)"
    "\<not> tx_less x y" "\<not> tx_less y x" for x y
    using that tx_less_linear[of x y] assms(2) unfolding ys by (auto simp: distinct_map inj_on_def)
qed

text \<open>Two ways in which a batch has no tie cycle: its terminals number causally, or concurrency is transitive on it.\<close>

lemma numbered_acyclic:
  assumes "\<And>x y. x \<in> set txs \<Longrightarrow> y \<in> set txs \<Longrightarrow> clock_before x y \<Longrightarrow> tie_less x y"
  shows "\<not> tie_cycle txs"
  using assms tie.lt_asym tie.lt_trans unfolding tie_cycle_iff by (metis UNIV_I)

lemma layered_acyclic:
  assumes "\<And>x y z. {x, y, z} \<subseteq> set txs \<Longrightarrow> clock_concurrent x y \<Longrightarrow> clock_concurrent y z \<Longrightarrow> clock_concurrent x z"
  shows "\<not> tie_cycle txs"
proof
  assume "tie_cycle txs"
  then obtain x y z where "{x, y, z} \<subseteq> set txs" "clock_before x y" "clock_concurrent y z" "clock_concurrent z x"
    unfolding tie_cycle_iff by blast
  moreover have "clock_concurrent x y"
    using calculation clock_exclusive(3)[of x z] clock_exclusive(3)[of y z] by (intro assms[of x z y]) auto
  ultimately show False using clock_exclusive(2) by blast
qed

section \<open>Transactions for evaluation\<close>

definition clocked_tx :: "string \<Rightarrow> vclock \<Rightarrow> uint64 \<Rightarrow> QueuedTransaction" where
  "clocked_tx k v n = zero_tx\<lparr>TxID := k, VectorClock := v, SeqNo := n\<rparr>"

section \<open>Properties\<close>

text \<open>
  The vector-clock comparison is the causal order: -1 exactly when every component of the first
  clock is at most that of the second and one is smaller, 1 the other way round, and 0 when the
  clocks are equal or concurrent; missing components count as zero.
\<close>

theorem CompareVectorClocks_spec:
  "CompareVectorClocks va vb =
    (if (\<forall>k. vc_at va k \<le> vc_at vb k) \<and> (\<exists>k. vc_at va k < vc_at vb k) then - 1
     else if (\<forall>k. vc_at vb k \<le> vc_at va k) \<and> (\<exists>k. vc_at vb k < vc_at va k) then 1 else 0)"
proof -
  have "(\<exists>k. vc_at va k < vc_at vb k) \<longleftrightarrow> \<not> (\<forall>k. vc_at vb k \<le> vc_at va k)"
    "(\<exists>k. vc_at vb k < vc_at va k) \<longleftrightarrow> \<not> (\<forall>k. vc_at va k \<le> vc_at vb k)" by (auto simp: not_le)
  then show ?thesis by (simp only: CompareVectorClocks_iff)
qed

text \<open>
  C24. When the replay order is deterministic. A batch of at most twenty transactions with distinct
  identifiers is sorted into one order, whatever the order of arrival, exactly when it has no tie cycle. The
  order is then causal: no transaction comes after one that its vector clock precedes, and of two
  concurrent transactions the tie-breakers put the earlier one first.
\<close>

theorem sort_deterministic:
  assumes "distinct (map TxID xs)" and "length xs \<le> 20"
  shows "((\<forall>ys. mset ys = mset xs \<longrightarrow> SortTransactionsVectorClock ys = SortTransactionsVectorClock xs) \<longleftrightarrow> \<not> tie_cycle xs)
    \<and> (\<not> tie_cycle xs \<longrightarrow> sorted_wrt (\<lambda>x y.
        \<not> CompareVectorClocks (VectorClock y) (VectorClock x) < 0
        \<and> (CompareVectorClocks (VectorClock x) (VectorClock y) = 0 \<longrightarrow> \<not> tie_less y x)) (SortTransactionsVectorClock xs))"
proof -
  have "\<exists>ys. mset ys = mset xs \<and> SortTransactionsVectorClock ys \<noteq> SortTransactionsVectorClock xs" if "tie_cycle xs"
    using cycle_depends_on_arrival[OF that assms] by metis
  then have "(\<forall>ys. mset ys = mset xs \<longrightarrow> SortTransactionsVectorClock ys = SortTransactionsVectorClock xs) \<longleftrightarrow> \<not> tie_cycle xs"
    using acyclic_unique[OF _ assms] by meson
  moreover have "sorted_wrt (\<lambda>x y. \<not> CompareVectorClocks (VectorClock y) (VectorClock x) < 0
      \<and> (CompareVectorClocks (VectorClock x) (VectorClock y) = 0 \<longrightarrow> \<not> tie_less y x)) (SortTransactionsVectorClock xs)"
    if "\<not> tie_cycle xs"
    by (rule sorted_wrt_mono_rel[OF _ acyclic_sorted[OF that assms refl]]) (rule not_tx_less)
  ultimately show ?thesis by (intro conjI impI)
qed

theorem sort_deterministic_witness:
  "let a = clocked_tx ''A'' [(''T1'', 1)] 9; b = clocked_tx ''B'' [(''T2'', 1)] 5; c = clocked_tx ''C'' [(''T1'', 2)] 7 in
   SortTransactionsVectorClock [c, a, b] = SortTransactionsVectorClock [a, b, c]"
proof -
  let ?a = "clocked_tx ''A'' [(''T1'', 1)] 9" and ?b = "clocked_tx ''B'' [(''T2'', 1)] 5"
    and ?c = "clocked_tx ''C'' [(''T1'', 2)] 7"
  have "\<not> tie_cycle [?a, ?b, ?c]"
    by (simp add: tie_cycle_def clock_before_def clock_concurrent_def clocked_tx_def CompareVectorClocks_def vc_at_def tie_less_def)
  moreover have "distinct (map TxID [?a, ?b, ?c])" by (simp add: clocked_tx_def)
  moreover have "length [?a, ?b, ?c] \<le> 20" by simp
  ultimately have "\<forall>ys. mset ys = mset [?a, ?b, ?c] \<longrightarrow> SortTransactionsVectorClock ys = SortTransactionsVectorClock [?a, ?b, ?c]"
    using sort_deterministic[of "[?a, ?b, ?c]"] by blast
  moreover have "mset [?c, ?a, ?b] = mset [?a, ?b, ?c]" by (simp add: add_mset_commute)
  ultimately have "SortTransactionsVectorClock [?c, ?a, ?b] = SortTransactionsVectorClock [?a, ?b, ?c]" by blast
  then show ?thesis by (simp only: Let_def)
qed

text \<open>
  The replay order depends on arrival in general. There are three transactions with distinct
  identifiers whose comparison is cyclic (two are causally ordered, the third is concurrent with both
  and its sequence number lies between theirs the other way round): two orders of arrival give two
  different replay orders.
\<close>

theorem sort_depends_on_arrival:
  "\<exists>xs ys. mset ys = mset xs \<and> distinct (map TxID xs) \<and> length xs = 3
    \<and> SortTransactionsVectorClock xs \<noteq> SortTransactionsVectorClock ys"
proof -
  let ?a = "clocked_tx ''A'' [(''T1'', 1)] 9" and ?b = "clocked_tx ''B'' [(''T2'', 1)] 5"
    and ?c = "clocked_tx ''C'' [(''T1'', 2)] 1"
  have cmp: "tx_less ?b ?a" "\<not> tx_less ?c ?a" "\<not> tx_less ?b ?c"
    by (simp_all add: tx_less_def clocked_tx_def CompareVectorClocks_def vc_at_def tie_less_def)
  have "SortTransactionsVectorClock [?a, ?b, ?c] = [?b, ?a, ?c]" "SortTransactionsVectorClock [?a, ?c, ?b] = [?a, ?c, ?b]"
    using cmp by (simp_all add: SortTransactionsVectorClock_def SliceStable_small insertionSort_def)
  moreover have "TxID ?a \<noteq> TxID ?b" by (simp add: clocked_tx_def)
  then have "?a \<noteq> ?b" by metis
  moreover have "distinct (map TxID [?a, ?b, ?c])" by (simp add: clocked_tx_def)
  ultimately show ?thesis
    by (intro exI[of _ "[?a, ?b, ?c]"] exI[of _ "[?a, ?c, ?b]"]) simp
qed

end
