(* ===== verification/WAL_Props.thy ===== *)
theory WAL_Props
  imports WAL_Store
begin

text \<open>
  Crash safety of the write-ahead log: a log cut at any byte is recovered to the store that a prefix
  of the appends gave; duplicates are refused; the order and the map of the store agree; and the
  loss of later records after a failed write.
\<close>

section \<open>The frames form a framing\<close>

definition frame_ok :: "uint64 \<times> byte list \<Rightarrow> bool" where
  "frame_ok r \<longleftrightarrow> length (snd r) < 2 ^ 32 - 20"

definition frame_bytes :: "uint64 \<times> byte list \<Rightarrow> byte list" where
  "frame_bytes r = frame_header (fst r) (snd r) @ snd r"

lemma length_frame_header [simp]: "length (frame_header seq payload) = 20"
  by (simp add: frame_header_def WALMagicBytes_def)

lemma frame_header_fields:
  "take 4 (frame_header seq payload) = WALMagicBytes"
  "take 8 (drop 4 (frame_header seq payload)) = be64 seq"
  "take 4 (drop 12 (frame_header seq payload)) = be32 (of_nat (length payload))"
  "drop 16 (frame_header seq payload) = be32 (crc32 payload)"
  by (simp_all add: frame_header_def WALMagicBytes_def)

lemma unat_length: "length payload < 2 ^ 32 \<Longrightarrow> unat (of_nat (length payload) :: uint32) = length payload"
  by (simp add: unat_of_nat)

lemma read_frame_header:
  assumes "length payload < 2 ^ 32"
  shows "read_frame (frame_header seq payload @ body) =
    (if length body < length payload then None
     else if crc32 (take (length payload) body) \<noteq> crc32 payload then None
     else Some ((seq, take (length payload) body), drop (length payload) body))"
  by (simp add: read_frame_def frame_header_fields Let_def unat_length[OF assms])

lemma read_frame_short: "length bs < 20 \<Longrightarrow> read_frame bs = None"
  by (simp add: read_frame_def)

interpretation wal: framing frame_ok frame_bytes read_frame
proof
  fix r :: "uint64 \<times> byte list" and rest n
  assume ok: "frame_ok r"
  then have len: "length (snd r) < 2 ^ 32" by (simp add: frame_ok_def)
  show "read_frame (frame_bytes r @ rest) = Some (r, rest)"
    by (simp add: frame_bytes_def read_frame_header[OF len])
  show "read_frame (take n (frame_bytes r)) = None" if "n < length (frame_bytes r)"
    using that read_frame_header[OF len, of "fst r" "take (n - 20) (snd r)"]
    by (cases "n < 20") (auto simp: frame_bytes_def read_frame_short)
qed (rule read_frame_shorter)

section \<open>The store that a sequence of appends gives\<close>

definition hashed :: "QueuedTransaction \<Rightarrow> QueuedTransaction" where
  "hashed tx = (if PayloadHash tx = '''' then tx\<lparr>PayloadHash := ComputeHash tx\<rparr> else tx)"

definition records :: "tx_codec \<Rightarrow> QueuedTransaction list \<Rightarrow> (uint64 \<times> byte list) list" where
  "records c txs = map (\<lambda>i. (of_nat (Suc i), Marshal c (hashed (txs ! i)))) [0..<length txs]"

definition tx_index :: "QueuedTransaction list \<Rightarrow> string \<rightharpoonup> QueuedTransaction" where
  "tx_index txs = foldl (\<lambda>m tx. m(TxID tx \<mapsto> hashed tx)) Map.empty txs"

definition store_of :: "tx_codec \<Rightarrow> string \<Rightarrow> QueuedTransaction list \<Rightarrow> WALStore" where
  "store_of c path txs =
     \<lparr>filePath = path, wal_file = wal.put_all (records c txs), file_open = True, txMap = tx_index txs,
      order = map TxID txs, seqNumber = of_nat (length txs)\<rparr>"

text \<open>Append the transactions one after the other; \<open>None\<close> when one is refused.\<close>

fun append_all :: "tx_codec \<Rightarrow> QueuedTransaction list \<Rightarrow> WALStore \<Rightarrow> WALStore option" where
  "append_all c [] s = Some s"
| "append_all c (tx # txs) s =
     (case Append c io_ok tx s of (None, s') \<Rightarrow> append_all c txs s' | (Some _, _) \<Rightarrow> None)"

text \<open>The codec decodes what it encoded for these transactions, and their payloads fit a frame.\<close>

definition codec_ok :: "tx_codec \<Rightarrow> QueuedTransaction list \<Rightarrow> bool" where
  "codec_ok c txs \<longleftrightarrow> list_all (\<lambda>tx. Unmarshal c (Marshal c (hashed tx)) = Some (hashed tx)
     \<and> length (Marshal c (hashed tx)) < 2 ^ 32 - 20) txs"

lemma TxID_hashed [simp]: "TxID (hashed tx) = TxID tx"
  by (simp add: hashed_def)

lemma records_snoc:
  "records c (txs @ [tx]) = records c txs @ [(of_nat (Suc (length txs)), Marshal c (hashed tx))]"
  by (simp add: records_def nth_append)

lemma length_records [simp]: "length (records c txs) = length txs"
  by (simp add: records_def)

lemma records_take: "records c (take k txs) = take k (records c txs)"
  by (simp add: records_def take_map min_def)

lemma tx_index_snoc [simp]: "tx_index (txs @ [tx]) = (tx_index txs)(TxID tx \<mapsto> hashed tx)"
  by (simp add: tx_index_def)

lemma dom_tx_index: "dom (tx_index txs) = TxID ` set txs"
  by (induction txs rule: rev_induct) (simp_all add: tx_index_snoc del: fun_upd_apply, simp add: tx_index_def)

lemma put_all_append [simp]: "wal.put_all (rs @ rs') = wal.put_all rs @ wal.put_all rs'"
  "wal.put_all [r] = frame_bytes r" "wal.put_all [] = []"
  by (simp_all add: wal.put_all_def)

lemma Append_store_of:
  "Append c io_ok tx (store_of c path txs) =
    (if TxID tx \<in> TxID ` set txs then (Some ErrTxAlreadyExists, store_of c path txs)
     else (None, store_of c path (txs @ [tx])))"
proof -
  have d: "tx_index txs (TxID tx) \<noteq> None \<longleftrightarrow> TxID tx \<in> TxID ` set txs"
    using dom_tx_index[of txs] by (auto simp: dom_def)
  have h: "(if PayloadHash tx = '''' then tx\<lparr>PayloadHash := ComputeHash tx\<rparr> else tx) = hashed tx"
    by (simp add: hashed_def)
  show ?thesis
    unfolding Append_def Let_def h using d
    by (simp add: store_of_def io_ok_def write_bytes_def records_snoc frame_bytes_def add.commute)
qed

lemma append_all_store_of:
  "append_all c txs (store_of c path pre) = Some s \<longleftrightarrow>
    s = store_of c path (pre @ txs) \<and> distinct (map TxID txs) \<and> TxID ` set txs \<inter> TxID ` set pre = {}"
proof (induction txs arbitrary: pre)
  case (Cons tx txs)
  then show ?case by (auto simp: Append_store_of)
qed auto

section \<open>Recovery of a cut log\<close>

lemma restore_store_of:
  assumes "length txs + 1 < 2 ^ 64"
  shows "restore_tx (of_nat (Suc (length txs))) (hashed tx) (store_of c path txs\<lparr>wal_file := bs\<rparr>)
    = store_of c path (txs @ [tx])\<lparr>wal_file := bs\<rparr>"
proof -
  have "unat (of_nat (length txs) :: uint64) = length txs" "unat (of_nat (Suc (length txs)) :: uint64) = Suc (length txs)"
    using assms by (simp_all add: unat_of_nat del: of_nat_Suc)
  then have "(of_nat (length txs) :: uint64) < of_nat (Suc (length txs))"
    by (simp add: word_less_nat_alt del: of_nat_Suc)
  then show ?thesis by (simp add: restore_tx_def store_of_def del: of_nat_Suc)
qed

lemma uint32_frame_length:
  "length payload < 2 ^ 32 - 20 \<Longrightarrow> unat (20 + of_nat (length payload) :: uint32) = 20 + length payload"
proof -
  assume "length payload < 2 ^ 32 - 20"
  moreover have "(20 + of_nat (length payload) :: uint32) = of_nat (20 + length payload)" by simp
  ultimately show ?thesis by (simp only: unat_of_nat) simp
qed

lemma records_drop_Cons:
  "drop (length pre) (records c (pre @ tx # txs)) =
    (of_nat (Suc (length pre)), Marshal c (hashed tx)) # drop (length (pre @ [tx])) (records c ((pre @ [tx]) @ txs))"
proof -
  have "length pre < length (records c (pre @ tx # txs))" by simp
  from Cons_nth_drop_Suc[OF this, symmetric] show ?thesis
    by (simp add: records_def nth_append del: of_nat_Suc upt_Suc)
qed

lemma recover_loop_frames:
  assumes "codec_ok c (pre @ txs)" and "length (pre @ txs) < 2 ^ 64"
  shows "recover_loop healthy_disk c i ro ro (wal.put_all (drop (length pre) (records c (pre @ txs))) @ rest)
      (store_of c path pre\<lparr>wal_file := bs\<rparr>)
    = (let ro' = ro + length (wal.put_all (drop (length pre) (records c (pre @ txs)))) in
       recover_loop healthy_disk c (i + length txs) ro' ro' rest (store_of c path (pre @ txs)\<lparr>wal_file := bs\<rparr>))"
  using assms
proof (induction txs arbitrary: pre i ro)
  case (Cons tx txs)
  let ?r = "(of_nat (Suc (length pre)), Marshal c (hashed tx)) :: uint64 \<times> byte list"
  let ?rs = "drop (length (pre @ [tx])) (records c ((pre @ [tx]) @ txs))"
  let ?len = "length (frame_bytes ?r)"
  have pa: "wal.put_all (?r # ?rs) = frame_bytes ?r @ wal.put_all ?rs" by (simp add: wal.put_all_def)
  have tx: "Unmarshal c (Marshal c (hashed tx)) = Some (hashed tx)" "length (Marshal c (hashed tx)) < 2 ^ 32 - 20"
    using Cons.prems(1) by (simp_all add: codec_ok_def)
  then have "frame_ok ?r" by (simp add: frame_ok_def)
  note get = wal.get_put[OF this, of "wal.put_all ?rs @ rest"]
  have "recover_loop healthy_disk c i ro ro (frame_bytes ?r @ wal.put_all ?rs @ rest) (store_of c path pre\<lparr>wal_file := bs\<rparr>)
    = recover_loop healthy_disk c (Suc i) (ro + ?len) (ro + ?len) (wal.put_all ?rs @ rest)
      (store_of c path (pre @ [tx])\<lparr>wal_file := bs\<rparr>)"
    using get tx(1) Cons.prems(2) restore_store_of[of pre tx bs c path] frame_bytes_def
    by (subst recover_loop.simps)
      (simp add: healthy_disk_def uint32_frame_length[OF tx(2)] add.assoc del: of_nat_Suc)
  moreover have "recover_loop healthy_disk c (Suc i) (ro + ?len) (ro + ?len) (wal.put_all ?rs @ rest)
      (store_of c path (pre @ [tx])\<lparr>wal_file := bs\<rparr>)
    = (let ro' = ro + ?len + length (wal.put_all ?rs) in
       recover_loop healthy_disk c (Suc i + length txs) ro' ro' rest (store_of c path ((pre @ [tx]) @ txs)\<lparr>wal_file := bs\<rparr>))"
    using Cons.prems by (intro Cons.IH) simp_all
  ultimately show ?case
    unfolding records_drop_Cons pa by (simp add: Let_def add.assoc del: of_nat_Suc)
qed simp

text \<open>A log of whole records followed by bytes that are no frame is recovered to those records.\<close>

lemma recover_records:
  assumes "codec_ok c txs" and "length txs < 2 ^ 64" and "read_frame rest = None"
  shows "NewWALStore healthy_disk c path (Some (wal.put_all (records c txs) @ rest)) = Inr (store_of c path txs)"
proof -
  let ?bs = "wal.put_all (records c txs) @ rest"
  have empty: "\<lparr>filePath = path, wal_file = ?bs, file_open = True, txMap = Map.empty, order = [], seqNumber = 0\<rparr>
      = store_of c path []\<lparr>wal_file := ?bs\<rparr>"
    by (simp add: store_of_def records_def tx_index_def)
  have "recover_loop healthy_disk c 0 0 0 ?bs (store_of c path []\<lparr>wal_file := ?bs\<rparr>)
      = Some (store_of c path txs\<lparr>wal_file := ?bs\<rparr>, length (wal.put_all (records c txs)))"
    using recover_loop_frames[of c "[]" txs 0 0 rest] assms
    by (simp add: Let_def recover_loop.simps[of _ _ _ _ _ rest] healthy_disk_def)
  then show ?thesis
    unfolding NewWALStore_def option.case empty recover_def by (simp add: healthy_disk_def store_of_def)
qed

lemma codec_ok_records: "codec_ok c txs \<Longrightarrow> list_all frame_ok (records c txs)"
  by (auto simp: codec_ok_def records_def frame_ok_def list_all_length)

lemma codec_ok_take: "codec_ok c txs \<Longrightarrow> codec_ok c (take k txs)"
  by (auto simp: codec_ok_def list_all_iff dest: in_set_takeD)

lemma fitting_records: "wal.fitting n (records c txs) = records c (take (length (wal.fitting n (records c txs))) txs)"
  using wal.fitting_prefix[of "records c txs" n] unfolding records_take by (metis append_eq_conv_conj)

lemma recover_cut:
  assumes "codec_ok c txs" and "length txs < 2 ^ 64"
  shows "NewWALStore healthy_disk c path (Some (take n (wal.put_all (records c txs))))
    = Inr (store_of c path (take (length (wal.fitting n (records c txs))) txs))"
proof -
  let ?k = "length (wal.fitting n (records c txs))"
  obtain rest where rest: "take n (wal.put_all (records c txs)) = wal.put_all (records c (take ?k txs)) @ rest"
      "read_frame rest = None"
    using wal.cut_split[OF codec_ok_records[OF assms(1)], of n] fitting_records[of n c txs] by auto
  show ?thesis unfolding rest(1) by (rule recover_records[OF codec_ok_take[OF assms(1)] _ rest(2)]) (use assms(2) in simp)
qed

section \<open>Well-formed stores\<close>

definition wal_wf :: "WALStore \<Rightarrow> bool" where
  "wal_wf s \<longleftrightarrow> distinct (order s) \<and> set (order s) = dom (txMap s) \<and> (\<forall>k tx. txMap s k = Some tx \<longrightarrow> TxID tx = k)"

lemma Append_error_keeps:
  "Append c io tx s = (Some e, s') \<Longrightarrow> txMap s' = txMap s \<and> order s' = order s"
  by (auto simp: Append_def write_bytes_def Let_def split: if_splits option.splits write_outcome.splits)

lemma Append_success:
  "Append c io tx s = (None, s') \<Longrightarrow> txMap s (TxID tx) = None
    \<and> txMap s' = (txMap s)(TxID tx \<mapsto> hashed tx) \<and> order s' = order s @ [TxID tx]"
  by (auto simp: Append_def write_bytes_def Let_def hashed_def
      split: if_splits option.splits write_outcome.splits prod.splits)

lemma Append_wf: "wal_wf s \<Longrightarrow> Append c io tx s = (e, s') \<Longrightarrow> wal_wf s'"
proof (cases e)
  case None
  assume "wal_wf s" "Append c io tx s = (e, s')"
  with None Append_success[of c io tx s s'] show ?thesis by (auto simp: wal_wf_def domIff)
next
  case (Some err)
  assume "wal_wf s" "Append c io tx s = (e, s')"
  with Some Append_error_keeps[of c io tx s err s'] show ?thesis by (simp add: wal_wf_def)
qed

lemma UpdateStatus_wf: "wal_wf s \<Longrightarrow> wal_wf (UpdateStatus k st s)"
  by (auto simp: wal_wf_def UpdateStatus_def split: option.splits if_splits)

lemma store_of_wf: "distinct (map TxID txs) \<Longrightarrow> wal_wf (store_of c path txs)"
proof -
  have "tx_index txs k = Some tx \<Longrightarrow> TxID tx = k" for k tx
    by (induction txs rule: rev_induct) (auto simp: tx_index_def split: if_splits)
  then show "distinct (map TxID txs) \<Longrightarrow> ?thesis" by (simp add: wal_wf_def store_of_def dom_tx_index)
qed

section \<open>A codec and transactions for evaluation\<close>

text \<open>A codec that writes only the transaction identifier; it is enough for transactions like \<open>demo_tx\<close>.\<close>

definition demo_tx :: "string \<Rightarrow> QueuedTransaction" where
  "demo_tx k = zero_tx\<lparr>TxID := k, PayloadHash := ''h''\<rparr>"

definition demo_codec :: tx_codec where
  "demo_codec = \<lparr>Marshal = \<lambda>tx. bytes_of (TxID tx), Unmarshal = \<lambda>bs. Some (demo_tx (map (\<lambda>b. char_of (unat b)) bs))\<rparr>"

lemma char_of_byte: "char_of (unat (of_char ch :: byte)) = ch"
proof -
  have "unat (of_char ch :: byte) = of_char ch mod 256"
    using unat_of_nat[of "of_char ch", where ?'a = 8] by (simp add: of_nat_of_char)
  then show ?thesis by simp
qed

lemma demo_codec_ok: "list_all (\<lambda>k. length k < 1000) ks \<Longrightarrow> codec_ok demo_codec (map demo_tx ks)"
  by (induction ks)
    (auto simp: codec_ok_def demo_codec_def hashed_def demo_tx_def bytes_of_def comp_def char_of_byte)

section \<open>Properties\<close>

text \<open>
  C22. Crash recovery. After any sequence of accepted appends to a new log, cut the file at any byte
  \<open>n\<close> (a crash during a write, or none when \<open>n\<close> is the whole length) and open it again: the
  store is exactly the one that the first \<open>k\<close> appends gave (map, order, sequence number, and the
  file cut back to those records), where \<open>k\<close> is the largest number of appends whose records lie
  completely before the cut. The transactions decode to what was encoded and fit a frame.
\<close>

theorem crash_recovers_prefix:
  assumes "NewWALStore healthy_disk c path (Some []) = Inr s0" and "append_all c txs s0 = Some s"
    and "codec_ok c txs" and "length txs < 2 ^ 64"
  shows "\<exists>k sk. k \<le> length txs \<and> append_all c (take k txs) s0 = Some sk
    \<and> NewWALStore healthy_disk c path (Some (take n (wal_file s))) = Inr sk \<and> length (wal_file sk) \<le> n
    \<and> (k < length txs \<longrightarrow> (\<exists>s'. append_all c (take (Suc k) txs) s0 = Some s' \<and> n < length (wal_file s')))"
proof -
  have s0: "s0 = store_of c path []"
    using assms(1) recover_cut[of c "[]" path 0] by (simp add: codec_ok_def records_def)
  have s: "s = store_of c path txs" and dist: "distinct (map TxID txs)"
    using assms(2) append_all_store_of[of c txs path "[]" s] by (auto simp: s0)
  let ?rs = "records c txs"
  define k where "k = length (wal.fitting n ?rs)"
  obtain rs' where rs': "?rs = wal.fitting n ?rs @ rs'" using wal.fitting_prefix by blast
  then have kle: "k \<le> length txs" unfolding k_def by (metis length_append length_records le_add1)
  have app: "append_all c (take j txs) s0 = Some (store_of c path (take j txs))" for j
    using append_all_store_of[of c "take j txs" path "[]"] dist by (simp add: s0 take_map[symmetric])
  have bytes: "wal_file (store_of c path (take j txs)) = wal.put_all (take j ?rs)" for j
    by (simp add: store_of_def records_take)
  have fit: "take k ?rs = wal.fitting n ?rs" using rs' unfolding k_def by (metis append_eq_conv_conj)
  have "NewWALStore healthy_disk c path (Some (take n (wal_file s))) = Inr (store_of c path (take k txs))"
    using recover_cut[OF assms(3,4), of path n] by (simp add: s k_def store_of_def)
  moreover have "length (wal_file (store_of c path (take k txs))) \<le> n"
    unfolding bytes fit by (rule wal.fitting_length)
  moreover have "n < length (wal_file (store_of c path (take (Suc k) txs)))" if "k < length txs"
    using wal.fitting_maximal[of n ?rs] that unfolding bytes by (simp add: k_def)
  ultimately show ?thesis using kle app by blast
qed

theorem crash_recovers_prefix_witness:
  "\<exists>s0 s k sk. NewWALStore healthy_disk demo_codec ''wal'' (Some []) = Inr s0
    \<and> append_all demo_codec [demo_tx ''A'', demo_tx ''B''] s0 = Some s
    \<and> append_all demo_codec (take k [demo_tx ''A'', demo_tx ''B'']) s0 = Some sk
    \<and> NewWALStore healthy_disk demo_codec ''wal'' (Some (take 30 (wal_file s))) = Inr sk"
proof -
  let ?txs = "[demo_tx ''A'', demo_tx ''B'']"
  have ok: "codec_ok demo_codec ?txs" using demo_codec_ok[of "[''A'', ''B'']"] by simp
  have new: "NewWALStore healthy_disk demo_codec ''wal'' (Some []) = Inr (store_of demo_codec ''wal'' [])"
    using recover_cut[of demo_codec "[]" "''wal''" 0] by (simp add: codec_ok_def records_def)
  have app: "append_all demo_codec ?txs (store_of demo_codec ''wal'' []) = Some (store_of demo_codec ''wal'' ?txs)"
    using append_all_store_of[of demo_codec ?txs "''wal''" "[]"] by (simp add: demo_tx_def)
  show ?thesis using crash_recovers_prefix[OF new app ok, of 30] new app by auto
qed

lemma wal_wf_at:
  assumes "wal_wf s" and "j \<in> set (order s)"
  shows "txMap s j = Some (tx_at s j)" "TxID (tx_at s j) = j"
proof -
  have "j \<in> dom (txMap s)" using assms by (simp add: wal_wf_def)
  then show "txMap s j = Some (tx_at s j)" by (auto simp: tx_at_def)
  then show "TxID (tx_at s j) = j" using assms(1) by (simp add: wal_wf_def)
qed

lemma ReadAll_IDs:
  assumes "wal_wf s"
  shows "TxID ` set (ReadAll s) = dom (txMap s)"
proof -
  have "(\<lambda>j. TxID (tx_at s j)) ` set (order s) = set (order s)" by (simp add: wal_wf_at(2)[OF assms])
  then show ?thesis using assms by (simp add: ReadAll_def image_image wal_wf_def)
qed

lemma Append_ReadAll:
  assumes "wal_wf s" and "Append c io tx s = (None, s')"
  shows "ReadAll s' = ReadAll s @ [hashed tx]"
proof -
  note ok = Append_success[OF assms(2)]
  then have "TxID tx \<notin> set (order s)" using assms(1) by (auto simp: wal_wf_def)
  then have "map (tx_at s') (order s) = map (tx_at s) (order s)" using ok by (auto simp: tx_at_def)
  then show ?thesis using ok by (simp add: ReadAll_def tx_at_def)
qed

lemma UpdateStatus_ReadAll:
  assumes "wal_wf s"
  shows "ReadAll (UpdateStatus k st s) = map (\<lambda>tx. if TxID tx = k then tx\<lparr>tx_Status := st\<rparr> else tx) (ReadAll s)"
proof -
  have "order (UpdateStatus k st s) = order s" by (simp add: UpdateStatus_def split: option.split)
  moreover have "tx_at (UpdateStatus k st s) j = (if TxID (tx_at s j) = k then (tx_at s j)\<lparr>tx_Status := st\<rparr> else tx_at s j)"
    if "j \<in> set (order s)" for j
  proof -
    note at = wal_wf_at[OF assms that]
    then obtain tx where "txMap s j = Some tx" "TxID tx = j" by blast
    then show ?thesis by (cases "j = k") (simp_all add: UpdateStatus_def tx_at_def split: option.split)
  qed
  ultimately show ?thesis by (simp add: ReadAll_def)
qed

text \<open>
  C23. The store is a queue without duplicates. On a well-formed store, for every codec and every
  outcome of the writes: an append of a transaction whose identifier is queued is refused with
  \<open>ErrTxAlreadyExists\<close> and changes nothing; an accepted one puts the transaction (with its payload
  hash filled in) at the end of the queue; a failed one leaves the queue as it was; a status update
  changes the status of that transaction only; and the store stays well formed.
\<close>

theorem wal_is_a_queue:
  assumes "wal_wf s" and "Append c io tx s = (e, s')"
  shows "wal_wf s' \<and> wal_wf (UpdateStatus k st s)
    \<and> (TxID tx \<in> TxID ` set (ReadAll s) \<longrightarrow> e = Some ErrTxAlreadyExists \<and> s' = s)
    \<and> ReadAll s' = (if e = None then ReadAll s @ [hashed tx] else ReadAll s)
    \<and> ReadAllPending s' = filter is_pending (ReadAll s')
    \<and> ReadAll (UpdateStatus k st s) = map (\<lambda>q. if TxID q = k then q\<lparr>tx_Status := st\<rparr> else q) (ReadAll s)"
proof -
  have dup: "TxID tx \<in> TxID ` set (ReadAll s) \<Longrightarrow> e = Some ErrTxAlreadyExists \<and> s' = s"
    unfolding ReadAll_IDs[OF assms(1)] using assms(2) by (auto simp: Append_def)
  have "ReadAll s' = (if e = None then ReadAll s @ [hashed tx] else ReadAll s)"
  proof (cases e)
    case None
    then show ?thesis using Append_ReadAll[OF assms(1)] assms(2) by simp
  next
    case (Some err)
    then show ?thesis using Append_error_keeps[of c io tx s err s'] assms(2)
      by (simp add: ReadAll_def tx_at_def fun_eq_iff)
  qed
  moreover have "ReadAllPending s' = filter is_pending (ReadAll s')" by (simp add: ReadAllPending_def ReadAll_def)
  ultimately show ?thesis
    using dup Append_wf[OF assms] UpdateStatus_wf[OF assms(1)] UpdateStatus_ReadAll[OF assms(1)] by blast
qed

theorem wal_is_a_queue_witness:
  "wal_wf (store_of demo_codec ''wal'' [demo_tx ''A''])
    \<and> ReadAll (snd (Append demo_codec io_ok (demo_tx ''B'') (store_of demo_codec ''wal'' [demo_tx ''A''])))
      = [demo_tx ''A'', demo_tx ''B'']"
proof -
  let ?s = "store_of demo_codec ''wal'' [demo_tx ''A'']"
  have wf: "wal_wf ?s" by (rule store_of_wf) simp
  have app: "Append demo_codec io_ok (demo_tx ''B'') ?s = (None, store_of demo_codec ''wal'' [demo_tx ''A'', demo_tx ''B''])"
    by (simp add: Append_store_of) (simp add: demo_tx_def)
  have "ReadAll ?s = [demo_tx ''A'']"
    by (simp add: ReadAll_def store_of_def tx_at_def tx_index_def) (simp add: hashed_def demo_tx_def)
  then show ?thesis
    using wal_is_a_queue[OF wf app, of "''A''" "''RECONCILED''"] wf app by (simp add: hashed_def demo_tx_def)
qed

text \<open>
  Acknowledged transactions are lost after a failed write. When the header write of an append
  fails after one to three bytes, those bytes stay in the file. The next append is acknowledged as
  durable, but when the log is opened again recovery stops at the stray bytes: the store is the one
  from before the failed append, without the acknowledged transaction.
\<close>

theorem append_after_short_write_is_lost:
  assumes "codec_ok c txs" and "length txs < 2 ^ 64" and "0 < j" and "j < 4"
    and "TxID bad \<notin> TxID ` set txs" and "TxID tx \<notin> TxID ` set txs"
    and "Append c \<lparr>header_write = ShortWrite j err, payload_write = w, sync_error = se\<rparr> bad (store_of c path txs) = (e1, s1)"
    and "Append c io_ok tx s1 = (e2, s2)"
  shows "e1 = Some (ErrWriteHeader err) \<and> e2 = None \<and> ReadAll s2 = ReadAll (store_of c path txs) @ [hashed tx]
    \<and> NewWALStore healthy_disk c path (Some (wal_file s2)) = Inr (store_of c path txs)"
proof -
  let ?s = "store_of c path txs"
  have free: "txMap ?s (TxID bad) = None" "txMap ?s (TxID tx) = None" "file_open ?s"
    using assms(5,6) dom_tx_index[of txs] by (auto simp: store_of_def)
  obtain h1 where s1: "e1 = Some (ErrWriteHeader err)"
      "s1 = ?s\<lparr>seqNumber := seqNumber ?s + 1, wal_file := wal_file ?s @ take j (frame_header (seqNumber ?s + 1) h1)\<rparr>"
    using assms(7) free by (auto simp: Append_def Let_def write_bytes_def)
  let ?f2 = "frame_bytes (seqNumber s1 + 1, Marshal c (hashed tx))"
  have s2: "e2 = None" "wal_file s2 = wal_file s1 @ ?f2"
    using assms(8) free s1 by (auto simp: Append_def Let_def write_bytes_def io_ok_def frame_bytes_def hashed_def)
  have mg: "take j (frame_header q h) = take j WALMagicBytes" for q h
    using assms(4) by (simp add: frame_header_def) (simp add: WALMagicBytes_def)
  have "take 4 (take j WALMagicBytes @ ?f2) = take j WALMagicBytes @ take (4 - j) WALMagicBytes"
    using assms(4) by (simp add: frame_bytes_def frame_header_def min_def) (simp add: WALMagicBytes_def)
  also have "\<dots> \<noteq> WALMagicBytes"
  proof -
    consider "j = 1" | "j = 2" | "j = 3" using assms(3,4) by linarith
    then show ?thesis by cases (simp_all add: WALMagicBytes_def)
  qed
  finally have stray: "read_frame (take j WALMagicBytes @ ?f2) = None" by (simp add: read_frame_def)
  have "wal_file s2 = wal.put_all (records c txs) @ take j WALMagicBytes @ ?f2"
    by (simp add: s2 s1(2) mg) (simp add: store_of_def)
  then have "NewWALStore healthy_disk c path (Some (wal_file s2)) = Inr ?s"
    using recover_records[OF assms(1,2) stray] by simp
  moreover have "ReadAll s2 = ReadAll ?s @ [hashed tx]"
  proof -
    have same: "txMap s1 = txMap ?s" "order s1 = order ?s" by (simp_all add: s1(2))
    note ok = Append_success[OF assms(8)[unfolded s2(1)]]
    have "TxID tx \<notin> set (order ?s)" using assms(6) by (auto simp: store_of_def)
    then have "map (tx_at s2) (order ?s) = map (tx_at ?s) (order ?s)" using ok same by (auto simp: tx_at_def)
    then show ?thesis using ok same by (simp add: ReadAll_def tx_at_def)
  qed
  ultimately show ?thesis using s1(1) s2(1) by simp
qed

theorem append_after_short_write_is_lost_witness:
  "let s = store_of demo_codec ''wal'' [demo_tx ''A''];
       s1 = snd (Append demo_codec \<lparr>header_write = ShortWrite 2 ''disk full'', payload_write = WriteOK, sync_error = None\<rparr>
              (demo_tx ''B'') s);
       s2 = snd (Append demo_codec io_ok (demo_tx ''C'') s1)
   in fst (Append demo_codec io_ok (demo_tx ''C'') s1) = None
      \<and> NewWALStore healthy_disk demo_codec ''wal'' (Some (wal_file s2)) = Inr s"
proof -
  let ?s = "store_of demo_codec ''wal'' [demo_tx ''A'']"
  let ?io = "\<lparr>header_write = ShortWrite 2 ''disk full'', payload_write = WriteOK, sync_error = None\<rparr>"
  obtain e1 s1 where a1: "Append demo_codec ?io (demo_tx ''B'') ?s = (e1, s1)" by (cases "Append demo_codec ?io (demo_tx ''B'') ?s")
  obtain e2 s2 where a2: "Append demo_codec io_ok (demo_tx ''C'') s1 = (e2, s2)" by (cases "Append demo_codec io_ok (demo_tx ''C'') s1")
  have ids: "TxID (demo_tx k) = k" for k by (simp add: demo_tx_def)
  have ok: "codec_ok demo_codec [demo_tx ''A'']" using demo_codec_ok[of "[''A'']"] by simp
  show ?thesis
    using append_after_short_write_is_lost[OF ok _ _ _ _ _ a1 a2] a1 a2 by (simp add: ids Let_def)
qed

end
