(* ===== verification/Reconcile_Props.thy ===== *)
theory Reconcile_Props
  imports Reconcile_Order WAL_Props Ledger_Props
begin

text \<open>
  Lemmas on the reconciliation: the ledger calls of a replay bring no money in, the invariants of its loop, what settling
  one transaction does to the book, the status and the report in every case, and when a replay returns.
\<close>

section \<open>The ledger calls of a replay\<close>

lemma run_ops_append:
  "run_ops (ops @ ops') l = (case run_ops ops l of None \<Rightarrow> None | Some l' \<Rightarrow> run_ops ops' l')"
  by (induction ops l rule: run_ops.induct) (auto split: option.splits)

lemma run_ops_ledger_steps:
  "list_all (\<lambda>op. \<not> mints op) ops \<Longrightarrow> run_ops ops l = Some l' \<Longrightarrow> ledger_step\<^sup>*\<^sup>* l l'"
proof (induction ops arbitrary: l)
  case (Cons op ops)
  obtain l1 where "exec_op op l = Some l1" "run_ops ops l1 = Some l'"
    using Cons.prems(2) by (rule run_ops_ConsE)
  with Cons show ?case by (auto intro: converse_rtranclp_into_rtranclp ledger_step.intros)
qed simp

text \<open>The ledger after settling one transaction comes from calls that bring no money in.\<close>

definition ledger_reaches :: "ConservingLedger \<Rightarrow> ConservingLedger \<Rightarrow> bool" where
  "ledger_reaches l l' \<longleftrightarrow> ledger_step\<^sup>*\<^sup>* l l'"

lemma reaches_refl [simp]: "ledger_reaches l l"
  by (simp add: ledger_reaches_def)

lemma reaches_trans: "ledger_reaches l l1 \<Longrightarrow> ledger_reaches l1 l2 \<Longrightarrow> ledger_reaches l l2"
  by (auto simp: ledger_reaches_def)

lemma reaches_op: "\<not> mints op \<Longrightarrow> exec_op op l = Some l' \<Longrightarrow> ledger_reaches l l'"
  by (auto simp: ledger_reaches_def intro: ledger_step.intros)

lemma reaches_calls:
  "ledger_reaches l (snd (CommitOfflineAllowance clk a d x t l))"
  "ledger_reaches l (snd (DirectCommit clk a d x t l))"
  "DebitDeficitReserve clk d x t l = Some (e, l') \<Longrightarrow> ledger_reaches l l'"
  "RecordDeficit clk a d x t l = Some (e, l') \<Longrightarrow> ledger_reaches l l'"
  by (rule reaches_op[of "Op_CommitOffline clk a d x t"]; simp)
    (rule reaches_op[of "Op_Direct clk a d x t"] reaches_op[of "Op_DebitDeficit clk d x t"]
      reaches_op[of "Op_RecordDeficit clk a d x t"]; simp)+

text \<open>
  What settling a transaction does to everything but the balances: it counts as a success or as a
  deficit, in the report and as the status of the transaction.
\<close>

definition tx_outcome :: "QueuedTransaction \<Rightarrow> replay_state \<Rightarrow> replay_state \<Rightarrow> bool" where
  "tx_outcome tx st st' \<longleftrightarrow> ledger_reaches (fst st) (fst st') \<and>
     (\<exists>entry. st' = settled tx (fst st') st \<or> st' = in_deficit tx entry (fst st') st)"

lemma outcome_settled: "ledger_reaches (fst st) l \<Longrightarrow> tx_outcome tx st (settled tx l st)"
  by (auto simp: tx_outcome_def settled_def split: prod.splits)

lemma outcome_deficit: "ledger_reaches (fst st) l \<Longrightarrow> tx_outcome tx st (in_deficit tx e l st)"
  by (auto simp: tx_outcome_def in_deficit_def split: prod.splits)

lemma in_deficit_ledger [simp]: "in_deficit tx e l (l0, s) = in_deficit tx e l (l1, s)"
  by (simp add: in_deficit_def)

lemma charge_reserve_outcome:
  assumes "charge_reserve clk tx snap (l, snd st) = Some st'" and "ledger_reaches (fst st) l"
  shows "tx_outcome tx st st'"
proof -
  define l1 where "l1 = (if sint (customer_covered tx snap) > 0
    then snd (DirectCommit (clk 2) (tx_AccountID tx) (tx_MerchantID tx) (customer_covered tx snap) (TxID tx @ ''-USER'') l)
    else l)"
  have r1: "ledger_reaches (fst st) l1"
    using assms(2) reaches_calls(2) reaches_trans by (auto simp: l1_def)
  let ?u = "tx_Amount tx - customer_covered tx snap"
  have eq: "charge_reserve clk tx snap (l, snd st) =
      (case (if sint ?u > 0
             then map_option snd (DebitDeficitReserve (clk 3) (tx_MerchantID tx) ?u (TxID tx @ ''-RESERVE'') l1)
             else Some l1) of
         None \<Rightarrow> None
       | Some l2 \<Rightarrow> Some (in_deficit tx (deficit_entry tx (snap_OnlineAvailable snap) ?u (clk 4 0)
           ''RECON_DEFICIT_CHARGED_TO_RESERVE'') l2 (l, snd st)))"
    by (simp add: charge_reserve_def Let_def l1_def)
  obtain l2 where l2: "(if sint ?u > 0
      then map_option snd (DebitDeficitReserve (clk 3) (tx_MerchantID tx) ?u (TxID tx @ ''-RESERVE'') l1)
      else Some l1) = Some l2"
    and st': "st' = in_deficit tx (deficit_entry tx (snap_OnlineAvailable snap) ?u (clk 4 0)
      ''RECON_DEFICIT_CHARGED_TO_RESERVE'') l2 (l, snd st)" (is "_ = in_deficit tx ?e _ _")
    using assms(1) unfolding eq by (auto split: option.splits)
  have "ledger_reaches l1 l2" using l2 reaches_calls(3) by (auto split: if_splits)
  then have "ledger_reaches (fst st) l2" using r1 reaches_trans by blast
  moreover have "st' = in_deficit tx ?e l2 st" using st' by (cases st) (simp add: in_deficit_def)
  ultimately show ?thesis by (simp add: outcome_deficit)
qed

lemma overdraw_outcome:
  assumes "overdraw clk tx snap (l, snd st) = Some st'" and "ledger_reaches (fst st) l"
  shows "tx_outcome tx st st'"
proof -
  obtain l2 e err where st': "st' = in_deficit tx e l2 (l, snd st)"
    and l2: "RecordDeficit (clk 3) (tx_AccountID tx) (tx_MerchantID tx) (tx_Amount tx) (TxID tx) l = Some (err, l2)"
    using assms(1) by (auto simp: overdraw_def Let_def split: option.splits)
  have "ledger_reaches (fst st) l2" using assms(2) reaches_calls(4)[OF l2] reaches_trans by blast
  moreover have "st' = in_deficit tx e l2 st" using st' by (cases st) (simp add: in_deficit_def)
  ultimately show ?thesis by (simp add: outcome_deficit)
qed

lemma settle_tx_outcome:
  assumes "settle_tx clk tx st = Some st'"
  shows "tx_outcome tx st st'"
proof -
  define snap where "snap = core_snapshot (tx_AccountID tx) (fst st)"
  obtain e1 l1 where c1: "(if sint (snap_OfflineAllowance snap) \<ge> sint (tx_Amount tx)
      then CommitOfflineAllowance (clk 0) (tx_AccountID tx) (tx_MerchantID tx) (tx_Amount tx) (TxID tx) (fst st)
      else (Some ErrInsufficientFunds, fst st)) = (e1, l1)" by fastforce
  obtain e2 l2 where c2: "(if sint (snap_OnlineAvailable snap) \<ge> sint (tx_Amount tx)
      then DirectCommit (clk 1) (tx_AccountID tx) (tx_MerchantID tx) (tx_Amount tx) (TxID tx) l1
      else (Some ErrInsufficientFunds, l1)) = (e2, l2)" by fastforce
  have r1: "ledger_reaches (fst st) l1"
    using c1 reaches_calls(1)[of "fst st" "clk 0" "tx_AccountID tx" "tx_MerchantID tx" "tx_Amount tx" "TxID tx"]
    by (auto split: if_splits)
  have r2: "ledger_reaches (fst st) l2"
    using c2 r1 reaches_calls(2)[of l1 "clk 1" "tx_AccountID tx" "tx_MerchantID tx" "tx_Amount tx" "TxID tx"]
    by (auto split: if_splits intro: reaches_trans)
  have eq: "settle_tx clk tx st =
      (if e1 = None then Some (settled tx l1 st) else if e2 = None then Some (settled tx l2 st)
       else if useDeficitReserve (fst (snd (snd st))) then charge_reserve clk tx snap (l2, snd st)
       else overdraw clk tx snap (l2, snd st))"
    unfolding settle_tx_def Let_def snap_def[symmetric] c1 prod.case c2 by (rule refl)
  consider "e1 = None" | "e1 \<noteq> None" "e2 = None" | "e1 \<noteq> None" "e2 \<noteq> None" "useDeficitReserve (fst (snd (snd st)))"
    | "e1 \<noteq> None" "e2 \<noteq> None" "\<not> useDeficitReserve (fst (snd (snd st)))" by blast
  then show ?thesis
  proof cases
    case 1 with assms eq outcome_settled[OF r1, of tx] show ?thesis by simp
  next
    case 2 with assms eq outcome_settled[OF r2, of tx] show ?thesis by simp
  next
    case 3 with assms eq charge_reserve_outcome[OF _ r2] show ?thesis by simp
  next
    case 4 with assms eq overdraw_outcome[OF _ r2] show ?thesis by simp
  qed
qed

section \<open>Invariants of the replay loop\<close>

definition final_status :: "string \<Rightarrow> bool" where
  "final_status st \<longleftrightarrow> st = ''RECONCILED'' \<or> st = ''DEFICIT'' \<or> st = ''DUPLICATE''"

text \<open>The effect of one transaction on the ledger, the store, the reconciler and the counters.\<close>

definition tx_effect :: "QueuedTransaction \<Rightarrow> replay_state \<Rightarrow> replay_state \<Rightarrow> bool" where
  "tx_effect tx st st' \<longleftrightarrow> (case (st, st') of ((l, s, r, rep), (l', s', r', rep')) \<Rightarrow>
     ledger_reaches l l' \<and> (\<exists>v. final_status v \<and> s' = UpdateStatus (TxID tx) v s)
     \<and> seenHashes r' = insert (tx_hash tx) (seenHashes r) \<and> useDeficitReserve r' = useDeficitReserve r
     \<and> TotalProcessed rep' = TotalProcessed rep
     \<and> (\<exists>es. deficitLogs r' = deficitLogs r @ es \<and> DeficitRecords rep' = DeficitRecords rep @ es
          \<and> DeficitCount rep' = DeficitCount rep + length es)
     \<and> SuccessfulCount rep' + DeficitCount rep' + DuplicateCount rep'
         = Suc (SuccessfulCount rep + DeficitCount rep + DuplicateCount rep)
     \<and> (tx_hash tx \<in> seenHashes r \<longrightarrow> l' = l \<and> DuplicateCount rep' = Suc (DuplicateCount rep)
          \<and> SuccessfulCount rep' = SuccessfulCount rep \<and> DeficitCount rep' = DeficitCount rep))"

lemma replay_tx_effect:
  assumes "replay_tx clk tx st = Some st'"
  shows "tx_effect tx st st'"
proof -
  obtain l s r rep where st: "st = (l, s, r, rep)" by (metis surj_pair)
  obtain l' s' r' rep' where st': "st' = (l', s', r', rep')" by (metis surj_pair)
  show ?thesis
  proof (cases "tx_hash tx \<in> seenHashes r")
    case True
    with assms show ?thesis by (auto simp: st st' replay_tx_def tx_effect_def final_status_def)
  next
    case False
    let ?st1 = "(l, s, r\<lparr>seenHashes := insert (tx_hash tx) (seenHashes r)\<rparr>, rep)"
    have out: "tx_outcome tx ?st1 st'"
      using assms False by (intro settle_tx_outcome[where clk = clk]) (simp add: st replay_tx_def)
    then obtain e where "st' = settled tx l' ?st1 \<or> st' = in_deficit tx e l' ?st1" and "ledger_reaches l l'"
      by (auto simp: tx_outcome_def st')
    with False show ?thesis
      by (auto simp: st st' settled_def in_deficit_def tx_effect_def final_status_def)
  qed
qed

definition loop_effect :: "QueuedTransaction list \<Rightarrow> replay_state \<Rightarrow> replay_state \<Rightarrow> bool" where
  "loop_effect txs st st' \<longleftrightarrow> (case (st, st') of ((l, s, r, rep), (l', s', r', rep')) \<Rightarrow>
     ledger_reaches l l' \<and> seenHashes r' = tx_hash ` set txs \<union> seenHashes r
     \<and> TotalProcessed rep' = TotalProcessed rep
     \<and> (\<exists>es. deficitLogs r' = deficitLogs r @ es \<and> DeficitRecords rep' = DeficitRecords rep @ es
          \<and> DeficitCount rep' = DeficitCount rep + length es)
     \<and> SuccessfulCount rep' + DeficitCount rep' + DuplicateCount rep'
         = SuccessfulCount rep + DeficitCount rep + DuplicateCount rep + length txs
     \<and> (tx_hash ` set txs \<subseteq> seenHashes r \<longrightarrow> l' = l \<and> DuplicateCount rep' = DuplicateCount rep + length txs
          \<and> SuccessfulCount rep' = SuccessfulCount rep \<and> DeficitCount rep' = DeficitCount rep))"

lemma loop_effect_step:
  assumes "tx_effect tx st st1" and "loop_effect txs st1 st'"
  shows "loop_effect (tx # txs) st st'"
proof -
  obtain l s r rep where st: "st = (l, s, r, rep)" by (metis surj_pair)
  obtain l1 s1 r1 rep1 where st1: "st1 = (l1, s1, r1, rep1)" by (metis surj_pair)
  obtain l' s' r' rep' where st': "st' = (l', s', r', rep')" by (metis surj_pair)
  note e = assms(1)[unfolded tx_effect_def st st1 prod.case] assms(2)[unfolded loop_effect_def st1 st' prod.case]
  have "\<exists>es. deficitLogs r' = deficitLogs r @ es \<and> DeficitRecords rep' = DeficitRecords rep @ es
      \<and> DeficitCount rep' = DeficitCount rep + length es"
  proof -
    obtain es where 1: "deficitLogs r1 = deficitLogs r @ es" "DeficitRecords rep1 = DeficitRecords rep @ es"
      "DeficitCount rep1 = DeficitCount rep + length es" using e(1) by blast
    obtain es' where 2: "deficitLogs r' = deficitLogs r1 @ es'" "DeficitRecords rep' = DeficitRecords rep1 @ es'"
      "DeficitCount rep' = DeficitCount rep1 + length es'" using e(2) by blast
    from 1 2 show ?thesis by (intro exI[of _ "es @ es'"]) simp
  qed
  moreover have "ledger_reaches l l'" using e reaches_trans by blast
  ultimately show ?thesis using e unfolding loop_effect_def st st' prod.case by auto
qed

lemma replay_loop_effect:
  "replay_loop clk i txs st = Some st' \<Longrightarrow> loop_effect txs st st'"
proof (induction clk i txs st rule: replay_loop.induct)
  case (1 clk i st)
  then show ?case by (cases st) (auto simp: loop_effect_def)
next
  case (2 clk i tx txs st)
  then obtain st1 where "replay_tx (clk i) tx st = Some st1" "replay_loop clk (Suc i) txs st1 = Some st'"
    by (auto split: option.splits)
  with "2.IH" show ?case using loop_effect_step[OF replay_tx_effect] by blast
qed

text \<open>The store: no transaction of the batch stays pending, and the others keep their status.\<close>

definition done_ids :: "WALStore \<Rightarrow> string set" where
  "done_ids s = {k. \<exists>tx. txMap s k = Some tx \<and> \<not> is_pending tx}"

lemma UpdateStatus_done:
  assumes "final_status v"
  shows "done_ids (UpdateStatus k v s) = done_ids s \<union> ({k} \<inter> dom (txMap s))"
    and "dom (txMap (UpdateStatus k v s)) = dom (txMap s)" and "order (UpdateStatus k v s) = order s"
proof -
  have "\<not> is_pending (tx\<lparr>tx_Status := v\<rparr>)" for tx
    using assms by (auto simp: is_pending_def final_status_def)
  then show "done_ids (UpdateStatus k v s) = done_ids s \<union> ({k} \<inter> dom (txMap s))"
    by (auto simp: done_ids_def UpdateStatus_def split: option.splits if_splits)
qed (auto simp: UpdateStatus_def split: option.splits)

lemma replay_loop_store:
  assumes "replay_loop clk i txs (l, s, r, rep) = Some (l', s', r', rep')" and "wal_wf s"
  shows "wal_wf s' \<and> order s' = order s \<and> done_ids s' = done_ids s \<union> (TxID ` set txs \<inter> dom (txMap s))"
  using assms
proof (induction txs arbitrary: i l s r rep)
  case (Cons tx txs)
  then obtain l1 s1 r1 rep1 where one: "replay_tx (clk i) tx (l, s, r, rep) = Some (l1, s1, r1, rep1)"
    and rest: "replay_loop clk (Suc i) txs (l1, s1, r1, rep1) = Some (l', s', r', rep')"
    by (auto split: option.splits)
  obtain v where v: "final_status v" "s1 = UpdateStatus (TxID tx) v s"
    using replay_tx_effect[OF one] by (auto simp: tx_effect_def)
  with Cons.IH[OF rest] UpdateStatus_wf[OF Cons.prems(2)] UpdateStatus_done[OF v(1), of "TxID tx" s]
  show ?case by auto
qed auto

lemma no_pending_iff:
  assumes "wal_wf s"
  shows "ReadAllPending s = [] \<longleftrightarrow> set (order s) \<subseteq> done_ids s"
proof -
  have "j \<in> done_ids s \<longleftrightarrow> \<not> is_pending (tx_at s j)" if "j \<in> set (order s)" for j
    using wal_wf_at(1)[OF assms that] by (auto simp: done_ids_def)
  then show ?thesis by (auto simp: ReadAllPending_def filter_empty_conv)
qed

lemma Replay_unfold:
  "Replay t0 clk t1 l s r = Some (l', s', r', rep) \<longleftrightarrow>
    (\<exists>rep0. replay_loop clk 0 (SortTransactionsVectorClock (ReadAllPending s))
        (l, s, r, empty_report (length (ReadAllPending s)) t0) = Some (l', s', r', rep0)
      \<and> rep = rep0\<lparr>CompletedAt := t1\<rparr>)"
  by (auto simp: Replay_def Let_def SortTransactionsVectorClock_def split: option.splits)

lemma Replay_effect:
  assumes "Replay t0 clk t1 l s r = Some (l', s', r', rep)"
  shows "loop_effect (SortTransactionsVectorClock (ReadAllPending s))
    (l, s, r, empty_report (length (ReadAllPending s)) t0) (l', s', r', rep)"
  using assms replay_loop_effect unfolding Replay_unfold by (fastforce simp: loop_effect_def)

lemma Replay_drains:
  assumes "wal_wf s" and "Replay t0 clk t1 l s r = Some (l', s', r', rep)"
  shows "wal_wf s' \<and> order s' = order s \<and> ReadAllPending s' = []"
proof -
  have st: "wal_wf s'" "order s' = order s"
      "done_ids s' = done_ids s \<union> (TxID ` set (ReadAllPending s) \<inter> dom (txMap s))"
    using assms(2) replay_loop_store[OF _ assms(1)] unfolding Replay_unfold by fastforce+
  have "j \<in> done_ids s'" if j: "j \<in> set (order s)" for j
  proof (cases "is_pending (tx_at s j)")
    case True
    then have "tx_at s j \<in> set (ReadAllPending s)" using j by (auto simp: ReadAllPending_def)
    moreover have "TxID (tx_at s j) = j" "j \<in> dom (txMap s)" using wal_wf_at[OF assms(1) j] by auto
    ultimately show ?thesis unfolding st(3) by force
  next
    case False
    with wal_wf_at(1)[OF assms(1) j] show ?thesis unfolding st(3) by (auto simp: done_ids_def)
  qed
  with st no_pending_iff[OF st(1)] show ?thesis by auto
qed

section \<open>Settlement of one transaction\<close>

lemma core_snapshot_book:
  "snap_OnlineAvailable (core_snapshot k l) = book l (k, Online)"
  "snap_OfflineAllowance (core_snapshot k l) = book l (k, Offline)"
  by (auto simp: core_snapshot_def GetAccount_def snapshot_of_def empty_snapshot_def book_def split: option.splits)

text \<open>
  The specification of a settlement on the book, for every amount and any accounts. The offline allowance pays if
  it covers the amount, else the online balance does. Otherwise, in legacy mode the whole amount is debited; with the
  reserve the customer pays what there is, nothing when the balance is negative, and the reserve the rest, and an
  amount that is not positive moves nothing. The last calls of the two modes lock two accounts one after the
  other, and never return when these are one.
\<close>

definition pays :: "QueuedTransaction \<Rightarrow> book \<Rightarrow> bool" where
  "pays tx b \<longleftrightarrow> covered (tx_Amount tx) (tx_AccountID tx, Offline) b \<or> covered (tx_Amount tx) (tx_AccountID tx, Online) b"

definition customer_share :: "string \<Rightarrow> book \<Rightarrow> int64" where
  "customer_share a b = (if sint (b (a, Online)) < 0 then 0 else b (a, Online))"

definition settle_book :: "bool \<Rightarrow> string \<Rightarrow> QueuedTransaction \<Rightarrow> book \<Rightarrow> book" where
  "settle_book use_reserve r tx b =
     (let a = tx_AccountID tx; m = tx_MerchantID tx; x = tx_Amount tx in
      if covered x (a, Offline) b then transfer (a, Offline) (m, Online) x b
      else if covered x (a, Online) b then transfer (a, Online) (m, Online) x b
      else if \<not> use_reserve then transfer (a, Online) (m, Online) x b
      else if sint x \<le> 0 then b
      else transfer (r, Online) (m, Online) (x - customer_share a b)
             (transfer (a, Online) (m, Online) (customer_share a b) b))"

definition settle_blocks :: "bool \<Rightarrow> string \<Rightarrow> QueuedTransaction \<Rightarrow> book \<Rightarrow> bool" where
  "settle_blocks use_reserve r tx b \<longleftrightarrow> \<not> pays tx b \<and>
     (if use_reserve then 0 < sint (tx_Amount tx) \<and> tx_MerchantID tx = r else tx_AccountID tx = tx_MerchantID tx)"

lemma transfer_zero [simp]: "transfer p q 0 b = b"
  by (auto simp: transfer_apply fun_eq_iff)

lemma DirectCommit_reserve [simp]:
  "DeficitReserveAccountID (snd (DirectCommit clk a d x t l)) = DeficitReserveAccountID l"
  "DeficitReserveAccountID (snd (CommitOfflineAllowance clk a d x t l)) = DeficitReserveAccountID l"
  by (auto simp: DirectCommit_def CommitOfflineAllowance_def Let_def appendEntry_def upd_acc_def split: option.splits)

lemma customer_covered_share:
  assumes "\<not> covered (tx_Amount tx) (a, Online) b" and "snap_OnlineAvailable snap = b (a, Online)"
  shows "customer_covered tx snap = (if sint (tx_Amount tx) \<le> 0 then tx_Amount tx else customer_share a b)"
proof -
  have "tx_Amount tx = 0" if "\<not> sint (tx_Amount tx) < 0" "\<not> 0 < sint (tx_Amount tx)"
    using that sint64_inject[of "tx_Amount tx" 0] by simp
  then show ?thesis
    using assms sint64_inject[of "b (a, Online)" 0] by (auto simp: customer_covered_def customer_share_def covered_def Let_def)
qed

lemma customer_share_bounds:
  assumes "\<not> covered x (a, Online) b" and "0 < sint x"
  shows "0 \<le> sint (customer_share a b)" "sint (customer_share a b) < sint x"
    "0 < sint (customer_share a b) \<longleftrightarrow> covered (customer_share a b) (a, Online) b" "0 < sint (x - customer_share a b)"
proof -
  show b: "0 \<le> sint (customer_share a b)" "sint (customer_share a b) < sint x"
    "0 < sint (customer_share a b) \<longleftrightarrow> covered (customer_share a b) (a, Online) b"
    using assms by (auto simp: customer_share_def covered_def)
  then show "0 < sint (x - customer_share a b)" using sint_guarded_debit[of "customer_share a b" x] by simp
qed

text \<open>The customer's part of the deficit branch: a guarded transfer that moves the share.\<close>

lemma share_transfer:
  assumes "\<not> covered x (a, Online) b" and "0 < sint x"
  shows "guarded_transfer (a, Online) q (customer_share a b) b = transfer (a, Online) q (customer_share a b) b"
proof (cases "covered (customer_share a b) (a, Online) b")
  case False
  then have "customer_share a b = 0"
    using customer_share_bounds[OF assms] sint64_inject[of "customer_share a b" 0] by auto
  then show ?thesis by (simp add: guarded_transfer_def)
qed (simp add: guarded_transfer_def)

lemma charge_reserve_spec:
  fixes tx l
  defines "a \<equiv> tx_AccountID tx" and "m \<equiv> tx_MerchantID tx" and "x \<equiv> tx_Amount tx" and "r \<equiv> DeficitReserveAccountID l"
  assumes un: "\<not> pays tx (book l)" and snap: "snap_OnlineAvailable snap = book l (a, Online)"
  shows "case charge_reserve clk tx snap (l, rest) of None \<Rightarrow> settle_blocks True r tx (book l)
    | Some st' \<Rightarrow> \<not> settle_blocks True r tx (book l) \<and>
        (\<exists>e l'. st' = in_deficit tx e l' (l, rest) \<and> book l' = settle_book True r tx (book l))"
proof (cases "0 < sint x")
  case False
  then have "customer_covered tx snap = x" and "\<not> 0 < sint (x - x)"
    using customer_covered_share[of tx a "book l" snap] un snap by (simp_all add: pays_def a_def x_def)
  then have "\<exists>e. charge_reserve clk tx snap (l, rest) = Some (in_deficit tx e l (l, rest))"
    using False by (auto simp: charge_reserve_def Let_def x_def)
  moreover have "\<not> settle_blocks True r tx (book l)" "settle_book True r tx (book l) = book l"
    using False un by (simp_all add: settle_blocks_def settle_book_def pays_def x_def a_def Let_def)
  ultimately show ?thesis by fastforce
next
  case True
  let ?c = "customer_share a (book l)"
  let ?l1 = "if 0 < sint ?c then snd (DirectCommit (clk 2) a m ?c (TxID tx @ ''-USER'') l) else l"
  have nc: "\<not> covered x (a, Online) (book l)" using un by (simp add: pays_def a_def x_def)
  note share = customer_share_bounds[OF nc True]
  have cov: "customer_covered tx snap = ?c"
    using customer_covered_share[of tx a "book l" snap] nc snap True by (simp add: x_def)
  have l1: "book ?l1 = transfer (a, Online) (m, Online) ?c (book l)" "DeficitReserveAccountID ?l1 = r"
    using share_transfer[OF nc True, of "(m, Online)"] share(3)
    by (cases "0 < sint ?c"; simp add: DirectCommit_book guarded_transfer_def r_def)+
  have eq: "charge_reserve clk tx snap (l, rest) =
      (case DebitDeficitReserve (clk 3) m (x - ?c) (TxID tx @ ''-RESERVE'') ?l1 of None \<Rightarrow> None
       | Some (e, l2) \<Rightarrow> Some (in_deficit tx (deficit_entry tx (snap_OnlineAvailable snap) (x - ?c) (clk 4 0)
           ''RECON_DEFICIT_CHARGED_TO_RESERVE'') l2 (l, rest)))"
    using share(4) unfolding charge_reserve_def Let_def cov fst_conv a_def[symmetric] m_def[symmetric] x_def[symmetric]
    by (simp split: option.split prod.split)
  have blocks: "settle_blocks True r tx (book l) \<longleftrightarrow> m = r" using un True by (simp add: settle_blocks_def x_def m_def)
  show ?thesis
  proof (cases "DebitDeficitReserve (clk 3) m (x - ?c) (TxID tx @ ''-RESERVE'') ?l1")
    case None
    then show ?thesis using DebitDeficitReserve_blocks[of "clk 3" m "x - ?c" "TxID tx @ ''-RESERVE''" ?l1] eq blocks l1(2) by simp
  next
    case (Some res)
    then obtain e l2 where d: "DebitDeficitReserve (clk 3) m (x - ?c) (TxID tx @ ''-RESERVE'') ?l1 = Some (e, l2)" by (cases res) auto
    have "book l2 = transfer (r, Online) (m, Online) (x - ?c) (transfer (a, Online) (m, Online) ?c (book l))"
      using DebitDeficitReserve_book(1)[OF d] share(4) unfolding l1 by simp
    then have "book l2 = settle_book True r tx (book l)"
      using un True by (simp add: settle_book_def pays_def Let_def a_def m_def x_def)
    moreover have "m \<noteq> r"
      using DebitDeficitReserve_blocks[of "clk 3" m "x - ?c" "TxID tx @ ''-RESERVE''" ?l1] d share(4) l1(2) by auto
    ultimately show ?thesis using eq d blocks by auto
  qed
qed

lemma overdraw_spec:
  assumes "\<not> pays tx (book l)"
  shows "case overdraw clk tx snap (l, rest) of None \<Rightarrow> settle_blocks False r tx (book l)
    | Some st' \<Rightarrow> \<not> settle_blocks False r tx (book l) \<and>
        (\<exists>e l'. st' = in_deficit tx e l' (l, rest) \<and> book l' = settle_book False r tx (book l))"
proof (cases "RecordDeficit (clk 3) (tx_AccountID tx) (tx_MerchantID tx) (tx_Amount tx) (TxID tx) l")
  case None
  then show ?thesis
    using assms RecordDeficit_blocks[of "clk 3" "tx_AccountID tx" "tx_MerchantID tx" "tx_Amount tx" "TxID tx" l]
    by (simp add: overdraw_def settle_blocks_def Let_def)
next
  case (Some res)
  then obtain e l2 where d: "RecordDeficit (clk 3) (tx_AccountID tx) (tx_MerchantID tx) (tx_Amount tx) (TxID tx) l = Some (e, l2)"
    by (cases res) auto
  then have "tx_AccountID tx \<noteq> tx_MerchantID tx"
    using RecordDeficit_blocks[of "clk 3" "tx_AccountID tx" "tx_MerchantID tx" "tx_Amount tx" "TxID tx" l] by auto
  then show ?thesis
    using assms d RecordDeficit_book(1)[OF d] by (auto simp: overdraw_def settle_blocks_def settle_book_def pays_def Let_def)
qed

lemma settle_tx_branches:
  fixes tx l
  defines "a \<equiv> tx_AccountID tx" and "m \<equiv> tx_MerchantID tx" and "x \<equiv> tx_Amount tx"
  shows "\<exists>l1. settle_tx clk tx (l, s, r, rep) =
      (if pays tx (book l) then Some (settled tx l1 (l, s, r, rep))
       else if useDeficitReserve r then charge_reserve clk tx (core_snapshot a l) (l1, s, r, rep)
       else overdraw clk tx (core_snapshot a l) (l1, s, r, rep)) \<and>
    DeficitReserveAccountID l1 = DeficitReserveAccountID l \<and>
    book l1 = (if pays tx (book l) then settle_book (useDeficitReserve r) (DeficitReserveAccountID l) tx (book l) else book l)"
proof -
  let ?snap = "core_snapshot a l"
  obtain e1 l1 where c1: "(if sint (snap_OfflineAllowance ?snap) \<ge> sint x then CommitOfflineAllowance (clk 0) a m x (TxID tx) l
      else (Some ErrInsufficientFunds, l)) = (e1, l1)" by fastforce
  obtain e2 l2 where c2: "(if sint (snap_OnlineAvailable ?snap) \<ge> sint x then DirectCommit (clk 1) a m x (TxID tx) l1
      else (Some ErrInsufficientFunds, l1)) = (e2, l2)" by fastforce
  have r1: "e1 = None \<longleftrightarrow> covered x (a, Offline) (book l)" "book l1 = guarded_transfer (a, Offline) (m, Online) x (book l)"
    using c1 CommitOfflineAllowance_ok[of "clk 0" a m x "TxID tx" l] CommitOfflineAllowance_book[of "clk 0" a m x "TxID tx" l]
    by (auto simp: core_snapshot_book guarded_transfer_def covered_def split: if_splits)
  have r2: "(e2 = None \<longleftrightarrow> covered x (a, Online) (book l)) \<and> book l2 = guarded_transfer (a, Online) (m, Online) x (book l)" if "e1 \<noteq> None"
    using c2 that r1 DirectCommit_ok[of "clk 1" a m x "TxID tx" l1] DirectCommit_book[of "clk 1" a m x "TxID tx" l1]
    by (auto simp: core_snapshot_book guarded_transfer_def covered_def split: if_splits)
  have "l1 = l \<or> l1 = snd (CommitOfflineAllowance (clk 0) a m x (TxID tx) l)" "l2 = l1 \<or> l2 = snd (DirectCommit (clk 1) a m x (TxID tx) l1)"
    using c1 c2 by (auto split: if_splits)
  then have res: "DeficitReserveAccountID l1 = DeficitReserveAccountID l" "DeficitReserveAccountID l2 = DeficitReserveAccountID l" by auto
  have eq: "settle_tx clk tx (l, s, r, rep) =
      (if e1 = None then Some (settled tx l1 (l, s, r, rep)) else if e2 = None then Some (settled tx l2 (l, s, r, rep))
       else if useDeficitReserve r then charge_reserve clk tx ?snap (l2, s, r, rep) else overdraw clk tx ?snap (l2, s, r, rep))"
    unfolding settle_tx_def Let_def fst_conv snd_conv a_def[symmetric] m_def[symmetric] x_def[symmetric] c1 prod.case c2 by (rule refl)
  show ?thesis
  proof (cases "e1 = None")
    case True
    then show ?thesis
      using eq r1 res by (intro exI[of _ l1]) (simp add: pays_def settle_book_def guarded_transfer_def a_def m_def x_def Let_def)
  next
    case False
    then show ?thesis
      using eq r1 r2 res by (intro exI[of _ l2]) (simp add: pays_def settle_book_def guarded_transfer_def a_def m_def x_def Let_def)
  qed
qed

text \<open>A settlement returns unless it blocks, and then does to the book, the status and the report what it should.\<close>

lemma settle_tx_spec:
  "case settle_tx clk tx (l, s, r, rep) of
     None \<Rightarrow> settle_blocks (useDeficitReserve r) (DeficitReserveAccountID l) tx (book l)
   | Some st' \<Rightarrow> \<not> settle_blocks (useDeficitReserve r) (DeficitReserveAccountID l) tx (book l) \<and>
       book (fst st') = settle_book (useDeficitReserve r) (DeficitReserveAccountID l) tx (book l) \<and>
       (if pays tx (book l) then st' = settled tx (fst st') (l, s, r, rep)
        else \<exists>entry. st' = in_deficit tx entry (fst st') (l, s, r, rep))"
proof -
  have st: "fst (settled tx l1 (l, s, r, rep)) = l1" "fst (in_deficit tx e l1 (l2, s, r, rep)) = l1" for l1 l2 e
    by (simp_all add: settled_def in_deficit_def)
  obtain l1 where l1: "settle_tx clk tx (l, s, r, rep) =
      (if pays tx (book l) then Some (settled tx l1 (l, s, r, rep))
       else if useDeficitReserve r then charge_reserve clk tx (core_snapshot (tx_AccountID tx) l) (l1, s, r, rep)
       else overdraw clk tx (core_snapshot (tx_AccountID tx) l) (l1, s, r, rep))"
    "DeficitReserveAccountID l1 = DeficitReserveAccountID l"
    "book l1 = (if pays tx (book l) then settle_book (useDeficitReserve r) (DeficitReserveAccountID l) tx (book l) else book l)"
    using settle_tx_branches by blast
  show ?thesis
  proof (cases "pays tx (book l)")
    case True
    then show ?thesis using l1 by (simp add: settle_blocks_def st)
  next
    case False
    then have eq: "book l1 = book l" "\<not> pays tx (book l1)" using l1(3) by simp_all
    have deficit: "case settle_tx clk tx (l, s, r, rep) of None \<Rightarrow> settle_blocks (useDeficitReserve r) (DeficitReserveAccountID l) tx (book l)
      | Some st' \<Rightarrow> \<not> settle_blocks (useDeficitReserve r) (DeficitReserveAccountID l) tx (book l) \<and>
          (\<exists>e l'. st' = in_deficit tx e l' (l1, s, r, rep) \<and>
             book l' = settle_book (useDeficitReserve r) (DeficitReserveAccountID l) tx (book l))"
      using charge_reserve_spec[OF eq(2), where clk = clk and snap = "core_snapshot (tx_AccountID tx) l" and rest = "(s, r, rep)"]
        overdraw_spec[OF eq(2), where clk = clk and snap = "core_snapshot (tx_AccountID tx) l" and rest = "(s, r, rep)"
          and r = "DeficitReserveAccountID l"] False l1(1,2) eq(1)
      by (cases "useDeficitReserve r") (simp_all add: core_snapshot_book cong: option.case_cong)
    show ?thesis
    proof (cases "settle_tx clk tx (l, s, r, rep)")
      case None
      with deficit show ?thesis by simp
    next
      case (Some st')
      with deficit obtain e l' where "st' = in_deficit tx e l' (l1, s, r, rep)"
        "\<not> settle_blocks (useDeficitReserve r) (DeficitReserveAccountID l) tx (book l)"
        "book l' = settle_book (useDeficitReserve r) (DeficitReserveAccountID l) tx (book l)" by auto
      moreover have "fst st' = l'" "st' = in_deficit tx e l' (l, s, r, rep)"
        using \<open>st' = _\<close> by (simp_all add: in_deficit_def)
      ultimately show ?thesis using False Some by auto
    qed
  qed
qed

lemma settle_tx_book:
  assumes "\<not> settle_blocks (useDeficitReserve r) (DeficitReserveAccountID l) tx (book l)"
  shows "\<exists>st'. settle_tx clk tx (l, s, r, rep) = Some st'
    \<and> book (fst st') = settle_book (useDeficitReserve r) (DeficitReserveAccountID l) tx (book l)"
  using settle_tx_spec[where clk = clk and tx = tx and l = l and s = s and r = r and rep = rep] assms by (auto split: option.splits)

lemma settle_book_merchant:
  assumes "\<not> settle_blocks mode r tx b" and "0 < sint (tx_Amount tx)" and "tx_AccountID tx \<noteq> tx_MerchantID tx"
  shows "settle_book mode r tx b (tx_MerchantID tx, Online) = b (tx_MerchantID tx, Online) + tx_Amount tx"
  using assms by (auto simp: settle_book_def settle_blocks_def pays_def Let_def transfer_apply)

section \<open>Replay returns\<close>

lemma CreateAccount_reserve: "DeficitReserveAccountID (upd_acc k f l) = DeficitReserveAccountID l"
  "DeficitReserveAccountID (appendEntry e l) = DeficitReserveAccountID l"
  by (simp_all add: upd_acc_def appendEntry_def Let_def)

lemma exec_op_reserve: "exec_op op l = Some l' \<Longrightarrow> DeficitReserveAccountID l' = DeficitReserveAccountID l"
  by (cases op) (auto simp: op_defs Let_def CreateAccount_reserve split: if_splits option.splits)

lemma reaches_reserve: "ledger_reaches l l' \<Longrightarrow> DeficitReserveAccountID l' = DeficitReserveAccountID l"
  unfolding ledger_reaches_def
  by (induction rule: rtranclp_induct) (auto elim!: ledger_step.cases dest: exec_op_reserve)

text \<open>A transaction on which no ledger call locks an account twice.\<close>

definition lock_safe :: "string \<Rightarrow> QueuedTransaction \<Rightarrow> bool" where
  "lock_safe r tx \<longleftrightarrow> tx_MerchantID tx \<noteq> r \<and> tx_AccountID tx \<noteq> tx_MerchantID tx"

lemma charge_reserve_returns:
  "charge_reserve clk tx snap st = None \<Longrightarrow> tx_MerchantID tx = DeficitReserveAccountID (fst st)"
  by (auto simp: charge_reserve_def Let_def DebitDeficitReserve_blocks split: option.splits if_splits)

lemma overdraw_returns: "overdraw clk tx snap st = None \<Longrightarrow> tx_AccountID tx = tx_MerchantID tx"
  by (auto simp: overdraw_def Let_def RecordDeficit_blocks split: option.splits)

lemma settle_tx_returns:
  assumes "lock_safe (DeficitReserveAccountID (fst st)) tx"
  shows "settle_tx clk tx st \<noteq> None"
proof -
  define snap where "snap = core_snapshot (tx_AccountID tx) (fst st)"
  obtain e1 l1 where c1: "(if sint (snap_OfflineAllowance snap) \<ge> sint (tx_Amount tx)
      then CommitOfflineAllowance (clk 0) (tx_AccountID tx) (tx_MerchantID tx) (tx_Amount tx) (TxID tx) (fst st)
      else (Some ErrInsufficientFunds, fst st)) = (e1, l1)" by fastforce
  obtain e2 l2 where c2: "(if sint (snap_OnlineAvailable snap) \<ge> sint (tx_Amount tx)
      then DirectCommit (clk 1) (tx_AccountID tx) (tx_MerchantID tx) (tx_Amount tx) (TxID tx) l1
      else (Some ErrInsufficientFunds, l1)) = (e2, l2)" by fastforce
  have "l1 = fst st \<or> l1 = snd (CommitOfflineAllowance (clk 0) (tx_AccountID tx) (tx_MerchantID tx) (tx_Amount tx) (TxID tx) (fst st))"
    "l2 = l1 \<or> l2 = snd (DirectCommit (clk 1) (tx_AccountID tx) (tx_MerchantID tx) (tx_Amount tx) (TxID tx) l1)"
    using c1 c2 by (auto split: if_splits)
  then have "DeficitReserveAccountID l2 = DeficitReserveAccountID (fst st)" by auto
  then have "charge_reserve clk tx snap (l2, snd st) \<noteq> None" "overdraw clk tx snap (l2, snd st) \<noteq> None"
    using assms charge_reserve_returns[of clk tx snap "(l2, snd st)"] overdraw_returns[of clk tx snap "(l2, snd st)"]
    unfolding lock_safe_def by (metis fst_conv)+
  then show ?thesis
    unfolding settle_tx_def Let_def snap_def[symmetric] c1 prod.case c2 by (metis option.distinct(1))
qed

lemma replay_loop_returns:
  assumes "list_all (lock_safe (DeficitReserveAccountID (fst st))) txs"
  shows "replay_loop clk i txs st \<noteq> None"
  using assms
proof (induction txs arbitrary: i st)
  case (Cons tx txs)
  obtain l s r rep where st: "st = (l, s, r, rep)" by (metis surj_pair)
  have "lock_safe (DeficitReserveAccountID l) tx" using Cons.prems by (simp add: st)
  then have "replay_tx (clk i) tx st \<noteq> None"
    using settle_tx_returns[of "(l, s, r\<lparr>seenHashes := insert (tx_hash tx) (seenHashes r)\<rparr>, rep)" tx "clk i"]
    unfolding st replay_tx_def prod.case fst_conv by (metis option.distinct(1))
  then obtain st1 where one: "replay_tx (clk i) tx st = Some st1" by blast
  then have "ledger_reaches (fst st) (fst st1)"
    using replay_tx_effect[OF one] by (auto simp: tx_effect_def split: prod.splits)
  then have "replay_loop clk (Suc i) txs st1 \<noteq> None"
    using Cons.prems reaches_reserve by (intro Cons.IH) simp
  with one show ?case by simp
qed simp

section \<open>Transactions for evaluation\<close>

definition offline_tx :: "string \<Rightarrow> string \<Rightarrow> string \<Rightarrow> int64 \<Rightarrow> QueuedTransaction" where
  "offline_tx k a m x = zero_tx\<lparr>TxID := k, tx_AccountID := a, tx_MerchantID := m, tx_Amount := x,
     tx_Status := ''PENDING'', PayloadHash := k\<rparr>"

definition queued_store :: WALStore where
  "queued_store = store_of demo_codec ''wal'' [offline_tx ''T1'' ''ACC'' ''SHOP'' 1500]"

lemma queued_store_facts:
  "wal_wf queued_store" "ReadAllPending queued_store = [offline_tx ''T1'' ''ACC'' ''SHOP'' 1500]"
proof -
  show "wal_wf queued_store" unfolding queued_store_def by (rule store_of_wf) simp
  show "ReadAllPending queued_store = [offline_tx ''T1'' ''ACC'' ''SHOP'' 1500]"
    by (simp add: queued_store_def ReadAllPending_def store_of_def tx_at_def tx_index_def)
      (simp add: hashed_def offline_tx_def is_pending_def)
qed

lemma demo_reserve: "DeficitReserveAccountID demo_ledger = AccountDeficitReserve"
  by (simp add: demo_ledger_def new_ledger_reserve)

lemma demo_replay_returns: "\<exists>l' s' r' rep. Replay t0 clk t1 demo_ledger queued_store r = Some (l', s', r', rep)"
proof -
  have "replay_loop clk 0 (SortTransactionsVectorClock (ReadAllPending queued_store))
      (demo_ledger, queued_store, r, empty_report (length (ReadAllPending queued_store)) t0) \<noteq> None"
    by (rule replay_loop_returns)
      (simp add: list_all_iff queued_store_facts lock_safe_def demo_reserve AccountDeficitReserve_def offline_tx_def)
  then show ?thesis by (auto simp: Replay_unfold)
qed

end
