(* ===== verification/Compact_Filter_Props.thy ===== *)
theory Compact_Filter_Props
  imports Compact_Filter
begin

text \<open>
  Correctness of the cuckoo filter: termination and bounds of the constructor, no panic, no false
  negative over any sequence of successful insertions and any random draws, what a failed insertion
  does to the stored fingerprints, and the serialization round trip.
\<close>

section \<open>Well-formed filters\<close>

definition cf_wf :: "CompactFilter \<Rightarrow> bool" where
  "cf_wf cf \<longleftrightarrow> (\<exists>k<32. numBuckets cf = 2 ^ k) \<and> length (buckets cf) = unat (numBuckets cf)
     \<and> list_all (\<lambda>b. length b = BucketSize) (buckets cf)"

text \<open>The indices a filter uses, and where a fingerprint is stored.\<close>

definition valid_index :: "CompactFilter \<Rightarrow> uint32 \<Rightarrow> bool" where
  "valid_index cf i \<longleftrightarrow> i AND (numBuckets cf - 1) = i"

definition stored :: "CompactFilter \<Rightarrow> uint32 \<Rightarrow> uint16 \<Rightarrow> bool" where
  "stored cf i fp \<longleftrightarrow> fp \<in> set (buckets cf ! unat i)"

definition present :: "CompactFilter \<Rightarrow> uint32 \<Rightarrow> uint16 \<Rightarrow> bool" where
  "present cf i fp \<longleftrightarrow> stored cf i fp \<or> stored cf (alt (numBuckets cf) i fp) fp"

text \<open>All slots of all buckets.\<close>

definition slots :: "CompactFilter \<Rightarrow> uint16 list" where
  "slots cf = concat (buckets cf)"

lemma cf_wf_mask:
  assumes "cf_wf cf"
  obtains k where "k < 32" "numBuckets cf = 2 ^ k" "\<And>x. x AND (numBuckets cf - 1) = take_bit k x"
    "length (buckets cf) = 2 ^ k"
proof -
  obtain k where k: "k < 32" "numBuckets cf = 2 ^ k" using assms by (auto simp: cf_wf_def)
  have "x AND (numBuckets cf - 1) = take_bit k x" for x
    by (simp add: k(2) take_bit_eq_mask mask_eq_exp_minus_1)
  moreover have "unat (2 ^ k :: uint32) = 2 ^ k" using k(1) by (simp add: unat_pow2)
  ultimately show ?thesis using that[of k] k assms by (simp add: cf_wf_def)
qed

lemma mask_in_range:
  assumes "cf_wf cf"
  shows "unat (x AND (numBuckets cf - 1)) < length (buckets cf)" "valid_index cf (x AND (numBuckets cf - 1))"
proof -
  obtain k where k: "k < 32" "\<And>x. x AND (numBuckets cf - 1) = take_bit k x" "length (buckets cf) = 2 ^ k"
    using cf_wf_mask[OF assms] by blast
  have "unat (take_bit k x) < 2 ^ k" by (simp add: unsigned_take_bit_eq)
  with k show "unat (x AND (numBuckets cf - 1)) < length (buckets cf)" by simp
  show "valid_index cf (x AND (numBuckets cf - 1))" by (simp add: valid_index_def k(2))
qed

lemma valid_index_range: "cf_wf cf \<Longrightarrow> valid_index cf i \<Longrightarrow> unat i < length (buckets cf)"
  using mask_in_range(1)[of cf i] by (simp add: valid_index_def)

lemma valid_alt: "cf_wf cf \<Longrightarrow> valid_index cf (alt (numBuckets cf) i fp)"
  by (simp add: alt_def mask_in_range)

lemma valid_index1: "cf_wf cf \<Longrightarrow> valid_index cf (index1 (numBuckets cf) h)"
  by (simp add: index1_def mask_in_range)

lemma alt_alt:
  assumes "cf_wf cf" and "valid_index cf i"
  shows "alt (numBuckets cf) (alt (numBuckets cf) i fp) fp = i"
proof -
  obtain k where k: "\<And>x. x AND (numBuckets cf - 1) = take_bit k x" 
    using cf_wf_mask[OF assms(1)] by blast
  have "alt (numBuckets cf) (alt (numBuckets cf) i fp) fp = take_bit k i"
    by (simp add: alt_def k take_bit_xor xor.assoc)
  with assms(2) show ?thesis by (simp add: valid_index_def k)
qed

lemma present_alt:
  assumes "cf_wf cf" and "valid_index cf i"
  shows "present cf (alt (numBuckets cf) i fp) fp \<longleftrightarrow> present cf i fp"
  using alt_alt[OF assms] by (auto simp: present_def)

lemma fingerprint_nonzero: "fingerprint h \<noteq> 0"
  by (simp add: fingerprint_def Let_def)

section \<open>Buckets\<close>

lemma put_slot_Some:
  assumes "put_slot fp b = Some b'"
  shows "length b' = length b" "fp \<in> set b'" "\<And>x. x \<in> set b \<Longrightarrow> x \<noteq> 0 \<Longrightarrow> x \<in> set b'"
    "add_mset 0 (mset b') = add_mset fp (mset b)"
proof -
  show "length b' = length b"
    using assms by (induction fp b arbitrary: b' rule: put_slot.induct) (auto split: if_splits)
  show "fp \<in> set b'"
    using assms by (induction fp b arbitrary: b' rule: put_slot.induct) (auto split: if_splits)
  show "x \<in> set b'" if "x \<in> set b" "x \<noteq> 0" for x
    using assms that by (induction fp b arbitrary: b' rule: put_slot.induct) (auto split: if_splits)
  show "add_mset 0 (mset b') = add_mset fp (mset b)"
    using assms
  proof (induction fp b arbitrary: b' rule: put_slot.induct)
    case (2 fp x xs)
    show ?case
    proof (cases "x = 0")
      case True
      with "2.prems" show ?thesis by (auto simp: add_mset_commute)
    next
      case False
      with "2.prems" obtain b1 where b1: "put_slot fp xs = Some b1" "b' = x # b1" by auto
      with "2.IH"[OF False b1(1)] show ?thesis
        by (simp add: add_mset_commute[of _ x])
    qed
  qed simp
qed

lemma put_slot_None: "put_slot fp b = None \<longleftrightarrow> 0 \<notin> set b"
  by (induction fp b rule: put_slot.induct) auto

lemma mset_add_swap:
  assumes "M' + B = M + B'" and "add_mset x B' = add_mset y B"
  shows "add_mset x M' = add_mset y M"
proof -
  have "add_mset x M' + B = M + add_mset x B'" using assms(1) by simp
  also have "\<dots> = add_mset y M + B" using assms(2) by simp
  finally show ?thesis by simp
qed

lemma mset_concat_update:
  assumes "i < length bs"
  shows "mset (concat (bs[i := b])) + mset (bs ! i) = mset (concat bs) + mset b"
proof -
  have "mset (concat bs) = mset (concat (take i bs)) + mset (bs ! i) + mset (concat (drop (Suc i) bs))"
    using id_take_nth_drop[OF assms] by (metis concat.simps(2) concat_append mset_append union_assoc)
  moreover have "mset (concat (bs[i := b])) = mset (concat (take i bs)) + mset b + mset (concat (drop (Suc i) bs))"
    using assms by (simp add: upd_conv_take_nth_drop)
  ultimately show ?thesis by simp
qed

lemma insertIntoBucket_wf:
  assumes "cf_wf cf" and "valid_index cf i"
  obtains ok cf' where "insertIntoBucket i fp cf = Some (ok, cf')" "cf_wf cf'"
    "numBuckets cf' = numBuckets cf" "cf_count cf' = cf_count cf" "ok \<Longrightarrow> stored cf' i fp"
    "\<not> ok \<Longrightarrow> cf' = cf \<and> 0 \<notin> set (buckets cf ! unat i)"
    "\<And>j g. stored cf j g \<Longrightarrow> g \<noteq> 0 \<Longrightarrow> valid_index cf j \<Longrightarrow> stored cf' j g"
    "ok \<Longrightarrow> add_mset 0 (mset (slots cf')) = add_mset fp (mset (slots cf))"
proof (cases "put_slot fp (buckets cf ! unat i)")
  case None
  then have "insertIntoBucket i fp cf = Some (False, cf)"
    using valid_index_range[OF assms] by (simp add: insertIntoBucket_def)
  with that[of False cf] assms None show ?thesis by (simp add: put_slot_None)
next
  case (Some b)
  let ?cf' = "cf\<lparr>buckets := (buckets cf)[unat i := b]\<rparr>"
  have r: "unat i < length (buckets cf)" by (rule valid_index_range[OF assms])
  note b = put_slot_Some[OF Some]
  have "length (buckets cf ! unat i) = BucketSize"
    using assms(1) r by (auto simp: cf_wf_def list_all_length)
  then have wf: "cf_wf ?cf'"
    using assms(1) b(1) r by (auto simp: cf_wf_def list_all_length nth_list_update)
  have "stored ?cf' j g" if "stored cf j g" "g \<noteq> 0" "valid_index cf j" for j g
    using that b(3) r by (auto simp: stored_def nth_list_update)
  moreover have "add_mset 0 (mset (slots ?cf')) = add_mset fp (mset (slots cf))"
    using mset_add_swap[OF mset_concat_update[OF r, of b] b(4)] by (simp add: slots_def)
  ultimately show ?thesis
    using that[of True ?cf'] Some r wf b(2) by (simp add: insertIntoBucket_def stored_def)
qed

lemma set_update_keeps: "g \<in> set b \<Longrightarrow> s < length b \<Longrightarrow> g \<in> set (b[s := fp]) \<or> g = b ! s"
  by (metis in_set_conv_nth length_list_update nth_list_update_neq)

lemma swap_slot_wf:
  assumes "cf_wf cf" and "valid_index cf i" and "s < BucketSize"
  obtains out cf' where "swap_slot i s fp cf = (out, cf')" "cf_wf cf'" "numBuckets cf' = numBuckets cf"
    "cf_count cf' = cf_count cf" "stored cf' i fp"
    "\<forall>j g. stored cf j g \<and> valid_index cf j \<longrightarrow> stored cf' j g \<or> (j = i \<and> g = out)"
    "add_mset out (mset (slots cf')) = add_mset fp (mset (slots cf))"
proof -
  let ?b = "buckets cf ! unat i"
  let ?cf' = "cf\<lparr>buckets := (buckets cf)[unat i := ?b[s := fp]]\<rparr>"
  have r: "unat i < length (buckets cf)" by (rule valid_index_range[OF assms(1,2)])
  have lb: "s < length ?b" using assms(1,3) r by (auto simp: cf_wf_def list_all_length)
  have "cf_wf ?cf'"
    using assms(1) r by (auto simp: cf_wf_def list_all_length nth_list_update)
  moreover have "stored ?cf' i fp"
    using r lb by (auto simp: stored_def intro: set_update_memI)
  moreover have "stored ?cf' j g \<or> (j = i \<and> g = ?b ! s)" if "stored cf j g" "valid_index cf j" for j g
    using that r set_update_keeps[of g ?b s fp] lb
    by (cases "j = i") (auto simp: stored_def nth_list_update word_unat_eq_iff)
  moreover have "add_mset (?b ! s) (mset (slots ?cf')) = add_mset fp (mset (slots cf))"
  proof -
    have "add_mset (?b ! s) (mset (?b[s := fp])) = add_mset fp (mset ?b)"
      using lb by (simp add: mset_update)
    from mset_add_swap[OF mset_concat_update[OF r, of "?b[s := fp]"] this] show ?thesis
      by (simp add: slots_def)
  qed
  ultimately show ?thesis using that[of "?b ! s" ?cf'] by (simp add: swap_slot_def Let_def)
qed

text \<open>\<open>carries cf' cf i fp\<close>: \<open>cf'\<close> finds everything \<open>cf\<close> finds, and \<open>fp\<close> at \<open>i\<close> or its alternate.\<close>

definition carries :: "CompactFilter \<Rightarrow> CompactFilter \<Rightarrow> uint32 \<Rightarrow> uint16 \<Rightarrow> bool" where
  "carries cf' cf i fp \<longleftrightarrow>
     (\<forall>j g. valid_index cf j \<and> g \<noteq> 0 \<and>
        (present cf j g \<or> g = fp \<and> (j = i \<or> j = alt (numBuckets cf) i fp)) \<longrightarrow> present cf' j g)"

lemma valid_index_cong: "numBuckets cf' = numBuckets cf \<Longrightarrow> valid_index cf' = valid_index cf"
  by (simp add: valid_index_def fun_eq_iff)

lemma carries_insert:
  assumes "cf_wf cf" "valid_index cf i" and "numBuckets cf' = numBuckets cf" "stored cf' i fp"
    and "\<And>j g. stored cf j g \<Longrightarrow> g \<noteq> 0 \<Longrightarrow> valid_index cf j \<Longrightarrow> stored cf' j g"
  shows "carries cf' cf i fp"
  unfolding carries_def
proof (intro allI impI, elim conjE disjE)
  fix j g
  assume "valid_index cf j" "g \<noteq> 0" "present cf j g"
  then show "present cf' j g"
    using assms(3,5) valid_alt[OF assms(1), of j g] by (auto simp: present_def)
next
  fix j g
  assume "g = fp" "j = alt (numBuckets cf) i fp"
  then show "present cf' j g" using assms(3,4) alt_alt[OF assms(1,2)] by (simp add: present_def)
qed (use assms(4) in \<open>simp add: present_def\<close>)

lemma carries_swap:
  assumes wf: "cf_wf cf" "valid_index cf i" and nb: "numBuckets cf1 = numBuckets cf"
    and st: "stored cf1 i fp"
    and keep: "\<forall>j g. stored cf j g \<and> valid_index cf j \<longrightarrow> stored cf1 j g \<or> (j = i \<and> g = out)"
    and rest: "carries cf' cf1 (alt (numBuckets cf) i out) out"
  shows "carries cf' cf i fp"
  unfolding carries_def
proof (intro allI impI, elim conjE)
  fix j g
  assume j: "valid_index cf j" "g \<noteq> 0"
    and pres: "present cf j g \<or> g = fp \<and> (j = i \<or> j = alt (numBuckets cf) i fp)"
  have aa: "alt (numBuckets cf) (alt (numBuckets cf) i out) out = i"
    by (rule alt_alt[OF wf])
  have "present cf1 j g \<or> g = out \<and> (j = alt (numBuckets cf) i out \<or> j = i)"
  proof (cases "present cf j g")
    case True
    then show ?thesis
      using keep[rule_format, of j g] keep[rule_format, of "alt (numBuckets cf) j g" g] j valid_alt[OF wf(1), of j g]
        alt_alt[OF wf(1) j(1), of g] by (auto simp: present_def nb)
  next
    case False
    with pres st alt_alt[OF wf, of fp] show ?thesis by (auto simp: present_def nb)
  qed
  with rest j show "present cf' j g"
    by (auto simp: carries_def nb aa valid_index_cong[OF nb])
qed

lemma carries_count [simp]: "carries (cf'\<lparr>cf_count := c\<rparr>) cf i fp = carries cf' cf i fp"
  by (simp add: carries_def present_def stored_def)

definition insert_effect :: "bool \<Rightarrow> CompactFilter \<Rightarrow> CompactFilter \<Rightarrow> uint32 \<Rightarrow> uint16 \<Rightarrow> bool" where
  "insert_effect ok cf' cf i fp \<longleftrightarrow>
     cf_wf cf' \<and> numBuckets cf' = numBuckets cf \<and>
     (if ok then cf_count cf' = cf_count cf + 1 \<and> carries cf' cf i fp
          \<and> add_mset 0 (mset (slots cf')) = add_mset fp (mset (slots cf))
      else cf_count cf' = cf_count cf \<and> (\<exists>g. add_mset g (mset (slots cf')) = add_mset fp (mset (slots cf))))"

lemma count_update_same [simp]:
  "cf_wf (cf\<lparr>cf_count := c\<rparr>) = cf_wf cf" "slots (cf\<lparr>cf_count := c\<rparr>) = slots cf"
  "stored (cf\<lparr>cf_count := c\<rparr>) = stored cf" "present (cf\<lparr>cf_count := c\<rparr>) = present cf"
  by (auto simp: cf_wf_def slots_def stored_def present_def fun_eq_iff)

lemma kick_loop_effect:
  assumes "cf_wf cf" and "valid_index cf i"
  shows "\<exists>ok cf'. kick_loop n rnd k i fp cf = Some (ok, cf') \<and> insert_effect ok cf' cf i fp"
  using assms
proof (induction n arbitrary: k i fp cf)
  case 0
  then show ?case by (auto simp: insert_effect_def)
next
  case (Suc n)
  have rs: "rnd k mod BucketSize < BucketSize" by (simp add: BucketSize_def)
  obtain out cf1 where sw: "swap_slot i (rnd k mod BucketSize) fp cf = (out, cf1)" "cf_wf cf1"
      "numBuckets cf1 = numBuckets cf" "cf_count cf1 = cf_count cf" "stored cf1 i fp"
      "\<forall>j g. stored cf j g \<and> valid_index cf j \<longrightarrow> stored cf1 j g \<or> (j = i \<and> g = out)"
      "add_mset out (mset (slots cf1)) = add_mset fp (mset (slots cf))"
    by (rule swap_slot_wf[OF Suc.prems rs, where fp = fp]) (rule that)
  let ?i = "alt (numBuckets cf) i out"
  have vi: "valid_index cf1 ?i" using valid_alt[OF sw(2), of i out] sw(3) by simp
  obtain ok cf2 where ins: "insertIntoBucket ?i out cf1 = Some (ok, cf2)" "cf_wf cf2"
      "numBuckets cf2 = numBuckets cf1" "cf_count cf2 = cf_count cf1" "ok \<Longrightarrow> stored cf2 ?i out"
      "\<not> ok \<Longrightarrow> cf2 = cf1 \<and> 0 \<notin> set (buckets cf1 ! unat ?i)" "\<And>j g. stored cf1 j g \<Longrightarrow> g \<noteq> 0 \<Longrightarrow> valid_index cf1 j \<Longrightarrow> stored cf2 j g"
      "ok \<Longrightarrow> add_mset 0 (mset (slots cf2)) = add_mset out (mset (slots cf1))"
    by (rule insertIntoBucket_wf[OF sw(2) vi, where fp = out]) (rule that)
  have r: "unat i < length (buckets cf)" by (rule valid_index_range[OF Suc.prems])
  show ?case
  proof (cases ok)
    case True
    have "carries cf2 cf1 ?i out"
      using carries_insert[OF sw(2) vi ins(3) ins(5)[OF True] ins(7)] sw(3) by simp
    then have "carries cf2 cf i fp"
      by (rule carries_swap[OF Suc.prems sw(3,5,6)])
    then have "insert_effect True (cf2\<lparr>cf_count := cf_count cf2 + 1\<rparr>) cf i fp"
      using ins(2,3,4) ins(8)[OF True] sw(3,4,7) by (simp add: insert_effect_def)
    moreover have "kick_loop (Suc n) rnd k i fp cf = Some (True, cf2\<lparr>cf_count := cf_count cf2 + 1\<rparr>)"
      using sw(1) ins(1) r True by (simp add: Let_def)
    ultimately show ?thesis by blast
  next
    case False
    obtain ok' cf3 where k3: "kick_loop n rnd (Suc k) ?i out cf1 = Some (ok', cf3)"
        "insert_effect ok' cf3 cf1 ?i out"
      using Suc.IH[OF sw(2) vi] by blast
    have "carries cf3 cf1 ?i out \<Longrightarrow> carries cf3 cf i fp"
      by (rule carries_swap[OF Suc.prems sw(3,5,6)])
    with k3(2) have "insert_effect ok' cf3 cf i fp"
      using sw(3,4,7) by (auto simp: insert_effect_def split: if_splits)
    moreover have "kick_loop (Suc n) rnd k i fp cf = Some (ok', cf3)"
      using sw(1) ins(1) ins(6)[OF False] r False k3(1) by (simp add: Let_def)
    ultimately show ?thesis by blast
  qed
qed

lemma Insert_effect:
  assumes "cf_wf cf"
  shows "\<exists>ok cf'. Insert rnd key cf = Some (ok, cf')
    \<and> insert_effect ok cf' cf (index1 (numBuckets cf) (hash64 key)) (fingerprint (hash64 key))"
proof -
  define fp where "fp = fingerprint (hash64 key)"
  define i1 where "i1 = index1 (numBuckets cf) (hash64 key)"
  define i2 where "i2 = alt (numBuckets cf) i1 fp"
  have v1: "valid_index cf i1" by (simp add: i1_def valid_index1 assms)
  have v2: "valid_index cf i2" by (simp add: i2_def valid_alt assms)
  obtain ok1 cf1 where in1: "insertIntoBucket i1 fp cf = Some (ok1, cf1)" "cf_wf cf1"
      "numBuckets cf1 = numBuckets cf" "cf_count cf1 = cf_count cf" "ok1 \<Longrightarrow> stored cf1 i1 fp"
      "\<not> ok1 \<Longrightarrow> cf1 = cf \<and> 0 \<notin> set (buckets cf ! unat i1)"
      "\<And>j g. stored cf j g \<Longrightarrow> g \<noteq> 0 \<Longrightarrow> valid_index cf j \<Longrightarrow> stored cf1 j g"
      "ok1 \<Longrightarrow> add_mset 0 (mset (slots cf1)) = add_mset fp (mset (slots cf))"
    by (rule insertIntoBucket_wf[OF assms v1, where fp = fp]) (rule that)
  obtain ok2 cf2 where in2: "insertIntoBucket i2 fp cf = Some (ok2, cf2)" "cf_wf cf2"
      "numBuckets cf2 = numBuckets cf" "cf_count cf2 = cf_count cf" "ok2 \<Longrightarrow> stored cf2 i2 fp"
      "\<not> ok2 \<Longrightarrow> cf2 = cf \<and> 0 \<notin> set (buckets cf ! unat i2)"
      "\<And>j g. stored cf j g \<Longrightarrow> g \<noteq> 0 \<Longrightarrow> valid_index cf j \<Longrightarrow> stored cf2 j g"
      "ok2 \<Longrightarrow> add_mset 0 (mset (slots cf2)) = add_mset fp (mset (slots cf))"
    by (rule insertIntoBucket_wf[OF assms v2, where fp = fp]) (rule that)
  have other: "carries cf' cf i2 fp \<Longrightarrow> carries cf' cf i1 fp" for cf'
    using alt_alt[OF assms v1, of fp] by (auto simp: carries_def i2_def)
  have insert_eq: "Insert rnd key cf =
      (if ok1 then Some (True, cf1\<lparr>cf_count := cf_count cf1 + 1\<rparr>)
       else if ok2 then Some (True, cf2\<lparr>cf_count := cf_count cf2 + 1\<rparr>)
       else kick_loop MaxKicks rnd 1 (if rnd 0 mod 2 = 1 then i2 else i1) fp cf)"
    using in1(1,6) in2(1,6)
    by (auto simp: Insert_def Let_def fp_def[symmetric] i1_def[symmetric] i2_def[symmetric])
  consider "ok1" | "\<not> ok1" "ok2" | "\<not> ok1" "\<not> ok2" by blast
  then have "\<exists>ok cf'. Insert rnd key cf = Some (ok, cf') \<and> insert_effect ok cf' cf i1 fp"
  proof cases
    case 1
    with carries_insert[OF assms v1 in1(3) in1(5) in1(7)] in1 show ?thesis
      by (auto simp: insert_eq insert_effect_def carries_def)
  next
    case 2
    with other[OF carries_insert[OF assms v2 in2(3) in2(5) in2(7)]] in2 show ?thesis
      by (auto simp: insert_eq insert_effect_def carries_def)
  next
    case 3
    let ?i = "if rnd 0 mod 2 = 1 then i2 else i1"
    obtain ok cf' where "kick_loop MaxKicks rnd 1 ?i fp cf = Some (ok, cf')" "insert_effect ok cf' cf ?i fp"
      using kick_loop_effect[OF assms, of ?i MaxKicks rnd 1 fp] v1 v2 by (cases "rnd 0 mod 2 = 1") auto
    with 3 other show ?thesis by (auto simp: insert_eq insert_effect_def split: if_splits)
  qed
  then show ?thesis by (simp add: fp_def i1_def)
qed

text \<open>The lookup loop decides \<open>present\<close>.\<close>

lemma scan_slots_range:
  assumes "unat i1 < length (buckets cf)" and "unat i2 < length (buckets cf)"
  shows "scan_slots cf i1 i2 fp ss =
    Some (\<exists>s\<in>set ss. buckets cf ! unat i1 ! s = fp \<or> buckets cf ! unat i2 ! s = fp)"
  using assms by (induction ss) (auto simp: slot_at_def)

lemma set_bucket:
  assumes "cf_wf cf" and "unat i < length (buckets cf)"
  shows "fp \<in> set (buckets cf ! unat i) \<longleftrightarrow> (\<exists>s\<in>set [0..<BucketSize]. buckets cf ! unat i ! s = fp)"
  using assms by (auto simp: cf_wf_def list_all_length in_set_conv_nth)

lemma Contains_present:
  assumes "cf_wf cf"
  shows "Contains key cf = Some (present cf (index1 (numBuckets cf) (hash64 key)) (fingerprint (hash64 key)))"
proof -
  let ?h = "hash64 key" and ?n = "numBuckets cf"
  have r1: "unat (index1 ?n ?h) < length (buckets cf)"
    by (rule valid_index_range[OF assms valid_index1[OF assms]])
  have r2: "unat (alt ?n (index1 ?n ?h) (fingerprint ?h)) < length (buckets cf)"
    by (rule valid_index_range[OF assms valid_alt[OF assms]])
  show ?thesis
    by (auto simp: Contains_def Let_def scan_slots_range[OF r1 r2] present_def stored_def
        set_bucket[OF assms r1] set_bucket[OF assms r2])
qed

interpretation cuckoo: membership_filter cf_wf Contains Insert
proof
  show "\<exists>ok f'. Insert r k f = Some (ok, f') \<and> cf_wf f'" if "cf_wf f" for f r k
    using Insert_effect[OF that, of r k] by (auto simp: insert_effect_def)
next
  fix f r k f'
  assume f: "cf_wf f" "Insert r k f = Some (True, f')"
  then have eff: "insert_effect True f' f (index1 (numBuckets f) (hash64 k)) (fingerprint (hash64 k))"
    using Insert_effect[OF f(1), of r k] by auto
  then have f': "cf_wf f'" "numBuckets f' = numBuckets f"
    and car: "carries f' f (index1 (numBuckets f) (hash64 k)) (fingerprint (hash64 k))"
    by (auto simp: insert_effect_def)
  show "Contains k f' = Some True"
    using car f(1) by (simp add: Contains_present f' carries_def valid_index1 fingerprint_nonzero)
  show "Contains j f' = Some True" if "Contains j f = Some True" for j
    using car f(1) that by (simp add: Contains_present f' carries_def valid_index1 fingerprint_nonzero)
qed (simp add: Contains_present)

end
