(* ===== verification/Filter_Claims.thy ===== *)
theory Filter_Claims
  imports Compact_Filter_Props
begin

text \<open>
  The properties of the cuckoo filter: sizing, absence of false negatives, the effect of a saturated
  insertion, serialization, and the zero-bucket filter that \<open>Deserialize\<close> accepts.
\<close>

section \<open>Definitions for the statements\<close>

text \<open>Insert the keys one after the other; \<open>None\<close> as soon as an insertion does not return true.\<close>

fun insert_keys :: "(draws \<times> string) list \<Rightarrow> CompactFilter \<Rightarrow> CompactFilter option" where
  "insert_keys [] f = Some f"
| "insert_keys ((rnd, k) # rks) f =
     (case insert_keys rks f of
        None \<Rightarrow> None
      | Some g \<Rightarrow> (case Insert rnd k g of Some (True, g') \<Rightarrow> Some g' | _ \<Rightarrow> None))"

text \<open>A filter of one bucket, for evaluation.\<close>

definition one_bucket :: "Bucket \<Rightarrow> uint32 \<Rightarrow> CompactFilter" where
  "one_bucket b c = \<lparr>buckets = [b], numBuckets = 1, cf_count = c\<rparr>"

section \<open>Sizing\<close>

lemma grow_power:
  assumes "j \<le> 31" and "unat target \<le> 2 ^ 31"
  shows "\<exists>m. j \<le> m \<and> m \<le> 31 \<and> grow (2 ^ j) target = Some (2 ^ m) \<and> unat target \<le> 2 ^ m
    \<and> (m = j \<or> 2 ^ m < 2 * unat target)"
  using assms(1)
proof (induction "31 - j" arbitrary: j)
  case 0
  then have "j = 31" by simp
  with assms(2) show ?case
    by (intro exI[of _ 31]) (simp add: grow.simps[of 2147483648] word_less_nat_alt)
next
  case (Suc d)
  have u: "unat (2 ^ j :: uint32) = 2 ^ j" using Suc by (simp add: unat_pow2)
  show ?case
  proof (cases "2 ^ j < unat target")
    case False
    with u show ?thesis using Suc by (intro exI[of _ j]) (simp add: grow.simps[of "2 ^ j"] word_less_nat_alt)
  next
    case True
    have "grow (2 ^ j) target = grow (2 ^ Suc j) target"
      using True u by (subst grow.simps) (simp add: word_less_nat_alt push_bit_eq_mult mult.commute)
    moreover have "31 - Suc j = d" "Suc j \<le> 31" using Suc.hyps(2) by auto
    then obtain m where "Suc j \<le> m" "m \<le> 31" "grow (2 ^ Suc j) target = Some (2 ^ m)"
        "unat target \<le> 2 ^ m" "m = Suc j \<or> 2 ^ m < 2 * unat target"
      using Suc.hyps(1)[of "Suc j"] by blast
    ultimately show ?thesis using True by (intro exI[of _ m]) auto
  qed
qed

lemma grow_Some:
  assumes "grow n target = Some r"
  shows "\<exists>k. r = push_bit k n \<and> \<not> r < target"
proof (rule grow.raw_induct[where P = "\<lambda>n target r. \<exists>k. r = push_bit k n \<and> \<not> r < target", OF _ assms])
  fix f :: "uint32 \<Rightarrow> uint32 \<Rightarrow> uint32 option" and n target r :: uint32
  assume IH: "\<And>n target r. f n target = Some r \<Longrightarrow> \<exists>k. r = push_bit k n \<and> \<not> r < target"
    and eq: "(if n < target then f (push_bit 1 n) target else Some n) = Some r"
  show "\<exists>k. r = push_bit k n \<and> \<not> r < target"
  proof (cases "n < target")
    case True
    with eq IH[of "push_bit 1 n" target r] obtain k where "r = push_bit k (push_bit 1 n)" "\<not> r < target"
      by auto
    then show ?thesis by (intro exI[of _ "k + 1"]) (auto simp: push_bit_push_bit)
  next
    case False
    with eq show ?thesis by (intro exI[of _ 0]) auto
  qed
qed

lemma grow_diverges:
  assumes "2 ^ 31 < unat target"
  shows "grow 1 target = None"
proof (rule ccontr)
  assume "grow 1 target \<noteq> None"
  then obtain r where "grow 1 target = Some r" by auto
  then obtain k where k: "r = push_bit k 1" "\<not> r < target" using grow_Some by blast
  have "unat (push_bit k 1 :: uint32) \<le> 2 ^ 31"
  proof (cases "k < 32")
    case True
    then have "unat (2 ^ k :: uint32) = 2 ^ k" by (simp add: unat_pow2)
    moreover have "(2::nat) ^ k \<le> 2 ^ 31" using True by (intro power_increasing) auto
    ultimately show ?thesis by (simp add: push_bit_eq_mult)
  next
    case False
    then have "(2 :: uint32) ^ k = 0" by simp
    then show ?thesis by (simp only: push_bit_eq_mult) simp
  qed
  with k assms show False by (simp add: word_less_nat_alt)
qed

text \<open>The bucket target the constructor computes from a capacity of at least 256.\<close>

lemma capacity_target:
  assumes "256 \<le> sint (c :: int64)"
  shows "unat (ucast (c div of_nat BucketSize) :: uint32) = nat (sint c) div 4 mod 2 ^ 32"
proof -
  have "sint c = uint c" using assms by (intro sint_nonneg_uint) linarith
  then have c: "nat (sint c) = unat c" by (simp only: unat_eq_nat_uint)
  have "unat (c div 4) = unat c div 4" by (simp add: unat_div)
  then show ?thesis unfolding c by (simp add: BucketSize_def unat_ucast_mod)
qed

section \<open>Saturation in a filter of one bucket\<close>

lemma one_bucket_wf: "length b = 4 \<Longrightarrow> cf_wf (one_bucket b c)"
  by (auto simp: cf_wf_def one_bucket_def BucketSize_def intro: exI[of _ 0])

lemma one_bucket_index [simp]: "alt (numBuckets (one_bucket b c)) i fp = 0"
  "index1 (numBuckets (one_bucket b c)) h = 0"
  by (simp_all add: one_bucket_def alt_def index1_def)

lemma Contains_one_bucket:
  assumes "length b = 4"
  shows "Contains key (one_bucket b c) = Some (fingerprint (hash64 key) \<in> set b)"
  by (simp add: Contains_present[OF one_bucket_wf[OF assms]] present_def stored_def)
    (simp add: one_bucket_def)

lemma insertIntoBucket_full:
  assumes "0 \<notin> set b"
  shows "insertIntoBucket 0 fp (one_bucket b c) = Some (False, one_bucket b c)"
proof -
  have "put_slot fp b = None" using assms by (simp add: put_slot_None)
  then show ?thesis by (simp add: insertIntoBucket_def one_bucket_def)
qed

lemma kick_one_bucket:
  assumes "length b = 4" and "0 \<notin> set b" and "fp \<noteq> 0"
  shows "kick_loop (Suc n) rnd k 0 fp (one_bucket b c) =
    kick_loop n rnd (Suc k) 0 (b ! (rnd k mod 4)) (one_bucket (b[rnd k mod 4 := fp]) c)"
proof -
  let ?s = "rnd k mod 4"
  have sw: "swap_slot 0 (rnd k mod BucketSize) fp (one_bucket b c) = (b ! ?s, one_bucket (b[?s := fp]) c)"
    by (simp add: swap_slot_def one_bucket_def BucketSize_def Let_def)
  have "0 \<notin> set (b[?s := fp])"
    using assms(2,3) set_update_subset_insert[of b ?s fp] by auto
  then show ?thesis
    using sw insertIntoBucket_full[of "b[?s := fp]"] by (simp add: Let_def) (simp add: one_bucket_def)
qed

text \<open>Two kicks of the same slot cancel.\<close>

lemma kick_slot0_cancel:
  assumes "length b = 4" and "0 \<notin> set b" and "fp \<noteq> 0" and "\<And>j. j \<ge> k \<Longrightarrow> rnd j mod 4 = 0"
  shows "kick_loop (n + n) rnd k 0 fp (one_bucket b c) = Some (False, one_bucket b c)"
  using assms
proof (induction n arbitrary: k)
  case (Suc n)
  have b0: "b ! 0 \<noteq> 0" "0 < length b" using Suc.prems(1,2) by (auto simp: in_set_conv_nth)
  have "0 \<notin> set (b[0 := fp])" using Suc.prems(2,3) set_update_subset_insert[of b 0 fp] by auto
  then have "kick_loop (Suc (Suc (n + n))) rnd k 0 fp (one_bucket b c)
      = kick_loop (n + n) rnd (Suc (Suc k)) 0 fp (one_bucket b c)"
    using b0 Suc.prems by (subst kick_one_bucket, simp_all del: kick_loop.simps)
      (subst kick_one_bucket, simp_all del: kick_loop.simps)
  with Suc show ?case by (simp del: kick_loop.simps)
qed simp

lemma kick_499:
  assumes "length b = 4" and "0 \<notin> set b" and "fp \<noteq> 0" and "rnd 1 mod 4 = 1"
    and "\<And>j. j \<ge> 2 \<Longrightarrow> rnd j mod 4 = 0"
  shows "kick_loop MaxKicks rnd 1 0 fp (one_bucket b c) = Some (False, one_bucket (b[1 := fp, 0 := b ! 1]) c)"
proof -
  let ?b1 = "b[1 := fp]"
  have n: "MaxKicks = Suc (Suc (249 + 249))" by (simp add: MaxKicks_def)
  have b1: "b ! 1 \<noteq> 0" "b ! 0 \<noteq> 0" using assms(1,2) by (auto simp: in_set_conv_nth)
  have z1: "0 \<notin> set ?b1" using assms(2,3) set_update_subset_insert[of b 1 fp] by auto
  then have z2: "0 \<notin> set (?b1[0 := b ! 1])" using b1 set_update_subset_insert[of ?b1 0 "b ! 1"] by auto
  have "kick_loop MaxKicks rnd 1 0 fp (one_bucket b c)
      = kick_loop (Suc (249 + 249)) rnd 2 0 (b ! 1) (one_bucket ?b1 c)"
    unfolding n using assms kick_one_bucket[of b fp "Suc (249 + 249)" rnd 1 c]
    by (simp only: Suc_1) simp
  also have "\<dots> = kick_loop (249 + 249) rnd 3 0 (b ! 0) (one_bucket (?b1[0 := b ! 1]) c)"
    using assms b1 z1 kick_one_bucket[of ?b1 "b ! 1" "249 + 249" rnd 2 c] by simp
  also have "\<dots> = Some (False, one_bucket (?b1[0 := b ! 1]) c)"
    using kick_slot0_cancel[of "?b1[0 := b ! 1]" "b ! 0" 3 rnd 249 c] assms b1 z2 by simp
  finally show ?thesis .
qed

section \<open>Serialization\<close>

lemma read_slots_be16 [simp]:
  "read_slots (Suc n) (be16 x @ rest) =
    (case read_slots n rest of Inl e \<Rightarrow> Inl e | Inr (xs, r) \<Rightarrow> Inr (x # xs, r))"
  using un_be16[of x] by (simp add: be16_def split: sum.split)

declare read_slots.simps(2) [simp del]

lemma read_bucket:
  assumes "length b = BucketSize"
  shows "read_slots BucketSize (concat (map (\<lambda>s. be16 (b ! s)) [0..<BucketSize]) @ rest) = Inr (b, rest)"
proof -
  have l: "length b = Suc (Suc (Suc (Suc 0)))" using assms by (simp add: BucketSize_def)
  then obtain w x y z where b: "b = [w, x, y, z]" by (auto simp: length_Suc_conv)
  have "[0..<4] = [0, Suc 0, 2, 3]" by (simp add: upt_rec)
  then show ?thesis by (simp add: BucketSize_def b numeral_eq_Suc)
qed

lemma read_buckets_written:
  assumes "list_all (\<lambda>b. length b = BucketSize) bs"
  shows "read_buckets (length bs) (concat (map (\<lambda>b. concat (map (\<lambda>s. be16 (b ! s)) [0..<BucketSize])) bs)) = Inr bs"
  using assms
proof (induction bs)
  case (Cons b bs)
  then show ?case
    using read_bucket[of b "concat (map (\<lambda>b. concat (map (\<lambda>s. be16 (b ! s)) [0..<BucketSize])) bs)"] by simp
qed simp

lemma length_written: "length (concat (map (\<lambda>b. concat (map (\<lambda>s. be16 (b ! s)) [0..<BucketSize])) bs)) = 8 * length bs"
  by (induction bs) (simp_all add: BucketSize_def length_concat comp_def upt_rec)

lemma expected_length:
  assumes "unat n < 2 ^ 29 - 1"
  shows "unat (8 + n * of_nat BucketSize * 2 :: uint32) = 8 + 8 * unat n"
proof -
  have "unat (8 * n) = 8 * unat n"
    using assms by (subst unat_mult_lem[THEN iffD1]) (simp_all add: unat_mult_lem)
  moreover have "n * of_nat BucketSize * 2 = 8 * n" by (simp add: BucketSize_def)
  moreover have "unat (8 + 8 * n) = 8 + unat (8 * n)"
    using assms calculation(1) by (subst unat_add_lem[THEN iffD1]) simp_all
  ultimately show ?thesis by simp
qed

lemma new_filter:
  assumes "sint c \<le> 2 ^ 32"
  shows "\<exists>cf. NewCompactFilter c = Some cf \<and> cf_wf cf \<and> Count cf = 0 \<and> (\<forall>k. Contains k cf = Some False)
    \<and> (\<exists>m. uint (numBuckets cf) = 2 * 2 ^ m \<and> max 256 (sint c) div 4 \<le> 2 ^ m \<and> 2 ^ m < 2 * (max 256 (sint c) div 4))
    \<and> buckets cf = replicate (unat (numBuckets cf)) (replicate BucketSize 0)"
proof -
  define cp where "cp = (if sint c < 256 then 256 else c)"
  define t where "t = (ucast (cp div of_nat BucketSize) :: uint32)"
  have cp: "sint cp = max 256 (sint c)" by (auto simp: cp_def)
  then have cpb: "256 \<le> sint cp" "sint cp \<le> 2 ^ 32" using assms by auto
  then have t: "unat t = nat (sint cp) div 4"
    unfolding t_def by (subst capacity_target) auto
  have tb: "64 \<le> unat t" "unat t \<le> 2 ^ 30" using cpb by (auto simp: t)
  obtain m where m: "m \<le> 31" "grow (2 ^ 0) t = Some (2 ^ m)" "unat t \<le> 2 ^ m" "m = 0 \<or> 2 ^ m < 2 * unat t"
    using grow_power[of 0 t] tb by auto
  have m2: "2 ^ m < 2 * unat t" using m(3,4) tb(1) by auto
  have "(2::nat) ^ m < 2 ^ 31" using m2 tb(2) by simp
  then have "m < 31" by (rule power_less_imp_less_exp[rotated]) simp
  define n2 where "n2 = (push_bit 1 (2 ^ m) :: uint32)"
  have n2: "n2 = 2 ^ Suc m" by (simp add: n2_def push_bit_eq_mult mult.commute)
  have un2: "unat n2 = 2 ^ Suc m" unfolding n2 using \<open>m < 31\<close> by (intro unat_pow2) simp
  let ?cf = "\<lparr>buckets = replicate (unat n2) (replicate BucketSize 0), numBuckets = n2, cf_count = 0\<rparr>"
  have new: "NewCompactFilter c = Some ?cf"
    using m(2) by (simp add: NewCompactFilter_def Let_def cp_def[symmetric] t_def[symmetric] n2_def)
  have wf: "cf_wf ?cf" using \<open>m < 31\<close> by (auto simp: cf_wf_def n2 list_all_iff intro: exI[of _ "Suc m"])
  have none: "\<not> stored ?cf i (fingerprint h)" if "unat i < unat n2" for i h
    using that fingerprint_nonzero[of h] by (simp add: stored_def)
  have rng: "unat (index1 n2 h) < unat n2" "unat (alt n2 i fp) < unat n2" for h i fp
    using mask_in_range(1)[OF wf] by (simp_all add: index1_def alt_def)
  have "Contains k ?cf = Some False" for k
    using none[OF rng(1)] none[OF rng(2)] by (simp add: Contains_present[OF wf] present_def)
  moreover have "uint (numBuckets ?cf) = int (2 ^ Suc m)" using un2 by (simp flip: uint_nat add: uint_nat)
  moreover have "sint cp div 4 \<le> int (2 ^ m)" "int (2 ^ m) < 2 * (sint cp div 4)"
  proof -
    have "int (unat t) = sint cp div 4" using cpb unfolding t by (simp add: zdiv_int)
    then show "sint cp div 4 \<le> int (2 ^ m)" "int (2 ^ m) < 2 * (sint cp div 4)" using m(3) m2 by linarith+
  qed
  ultimately have "\<exists>m. uint (numBuckets ?cf) = 2 * 2 ^ m \<and> sint cp div 4 \<le> 2 ^ m \<and> 2 ^ m < 2 * (sint cp div 4)"
    by (intro exI[of _ m]) simp
  with \<open>\<And>k. Contains k ?cf = Some False\<close> show ?thesis
    using new wf unfolding cp[symmetric] by (intro exI[of _ ?cf]) (auto simp: Count_def)
qed

section \<open>Properties\<close>

text \<open>
  C19. Sizing. For every requested capacity up to 2^32 (negative and small ones included) the sizing
  loop of the constructor ends and the filter it returns is well formed (a power-of-two number of
  four-slot buckets), empty (the counter is zero and no key is found) and has exactly twice the least power of
  two that reaches a quarter of \<open>c\<close> as its number of buckets, for the capacity \<open>c\<close> raised to 256. So there
  are fewer buckets than \<open>c\<close> and at least \<open>8 * (c div 4)\<close> slots: the load stays at or below about 50 percent. (A
  capacity of 16384 gives 8192 buckets, half of what the documentation says, and 1000000 gives 524288,
  4 MiB instead of the 2.1 MB of the comment.)
\<close>

theorem NewCompactFilter_sizes:
  assumes "sint c \<le> 2 ^ 32"
  shows "\<exists>cf. NewCompactFilter c = Some cf \<and> cf_wf cf \<and> Count cf = 0 \<and> (\<forall>k. Contains k cf = Some False)
    \<and> (\<exists>m. uint (numBuckets cf) = 2 * 2 ^ m \<and> max 256 (sint c) div 4 \<le> 2 ^ m \<and> 2 ^ m < 2 * (max 256 (sint c) div 4))
    \<and> 2 * (max 256 (sint c) div 4) \<le> uint (numBuckets cf) \<and> uint (numBuckets cf) < max 256 (sint c)"
proof -
  obtain cf m where cf: "NewCompactFilter c = Some cf" "cf_wf cf" "Count cf = 0" "\<forall>k. Contains k cf = Some False"
    and m: "uint (numBuckets cf) = 2 * 2 ^ m" "max 256 (sint c) div 4 \<le> 2 ^ m" "2 ^ m < 2 * (max 256 (sint c) div 4)"
    using new_filter[OF assms] by blast
  have "2 * (max 256 (sint c) div 4) \<le> uint (numBuckets cf)" "uint (numBuckets cf) < max 256 (sint c)" using m by linarith+
  with cf m show ?thesis by blast
qed

theorem NewCompactFilter_sizes_witness:
  "\<exists>cf. NewCompactFilter 16384 = Some cf \<and> cf_wf cf \<and> Count cf = 0 \<and> (\<forall>k. Contains k cf = Some False)
    \<and> uint (numBuckets cf) = 8192"
proof -
  obtain cf m where cf: "NewCompactFilter 16384 = Some cf" "cf_wf cf" "Count cf = 0" "\<forall>k. Contains k cf = Some False"
    and m: "uint (numBuckets cf) = 2 * 2 ^ m" "(4096::int) \<le> 2 ^ m" "(2::int) ^ m < 8192"
    using NewCompactFilter_sizes[of 16384] by auto
  have "(2::int) ^ 12 \<le> 2 ^ m" "(2::int) ^ m < 2 ^ 13" using m(2,3) by simp_all
  then have "12 \<le> m" "m < 13" by (simp_all only: power_increasing_iff power_strict_increasing_iff one_less_numeral_iff semiring_norm)
  then have "m = 12" by simp
  with cf m(1) show ?thesis by auto
qed

text \<open>
  Sizing loop without end. For a requested capacity of 2^33+4 up to 2^34-1 the bucket target
  exceeds 2^31; the doubling wraps to zero in \<open>uint32\<close> and the loop of the constructor never ends.
\<close>

theorem NewCompactFilter_diverges:
  assumes "2 ^ 33 + 4 \<le> sint c" and "sint c < 2 ^ 34"
  shows "NewCompactFilter c = None"
proof -
  let ?t = "ucast (c div of_nat BucketSize) :: uint32"
  have "unat ?t = nat (sint c) div 4" using assms by (subst capacity_target) auto
  then have "2 ^ 31 < unat ?t" using assms by auto
  with assms show ?thesis by (simp add: NewCompactFilter_def Let_def grow_diverges)
qed

theorem NewCompactFilter_diverges_witness: "NewCompactFilter 10000000000 = None"
  using NewCompactFilter_diverges[of 10000000000] by simp

lemma insert_keys_finds:
  assumes "cf_wf f0" and "insert_keys rks f0 = Some f"
  shows "cf_wf f \<and> (\<forall>k. k \<in> snd ` set rks \<or> Contains k f0 = Some True \<longrightarrow> Contains k f = Some True)"
  using assms(2)
proof (induction rks arbitrary: f)
  case Nil
  then show ?case using assms(1) by simp
next
  case (Cons rk rks)
  obtain r k g where g: "rk = (r, k)" "insert_keys rks f0 = Some g" "Insert r k g = Some (True, f)"
    using Cons.prems by (cases rk) (auto split: option.splits prod.splits bool.splits)
  with Cons.IH[OF g(2)] show ?case
    using cuckoo.insert_finds[OF _ g(3)] cuckoo.insert_keeps[OF _ g(3)] cuckoo.insert_wf[OF _ g(3)] by auto
qed

text \<open>
  C17. No false negative. After any sequence of successful insertions, with any random draws of the
  displacement loop, into any well-formed filter, lookup answers true for every inserted key and for
  every key that was found before.
\<close>

theorem no_false_negatives:
  assumes "cf_wf f0" and "insert_keys rks f0 = Some f" and "k \<in> snd ` set rks \<or> Contains k f0 = Some True"
  shows "Contains k f = Some True"
  using insert_keys_finds[OF assms(1,2)] assms(3) by blast

theorem no_false_negatives_witness:
  "\<exists>f. insert_keys [(\<lambda>_. 0, ''ACC-7'')] (one_bucket [0, 0, 0, 0] 0) = Some f \<and> Contains ''ACC-7'' f = Some True"
proof -
  obtain f where f: "insert_keys [(\<lambda>_. 0, ''ACC-7'')] (one_bucket [0, 0, 0, 0] 0) = Some f"
    by (simp add: Insert_def Let_def insertIntoBucket_def) (simp add: one_bucket_def)
  show ?thesis
    using no_false_negatives[OF _ f, of "''ACC-7''"] f one_bucket_wf[of "[0, 0, 0, 0]" 0] by simp
qed

text \<open>
  Effect of an insertion on the stored fingerprints, on every branch: it never panics on a
  well-formed filter; when it succeeds the counter grows by one and the slots are the old ones with
  one free slot replaced by the key's fingerprint; when it fails after \<open>MaxKicks\<close> displacements the
  counter is unchanged and exactly one fingerprint, the last one displaced, is missing from the old
  ones together with the new one.
\<close>

theorem Insert_slots:
  assumes "cf_wf cf"
  shows "\<exists>ok cf' g. Insert rnd key cf = Some (ok, cf') \<and> cf_wf cf'
    \<and> Count cf' = (if ok then Count cf + 1 else Count cf) \<and> (ok \<longrightarrow> g = 0)
    \<and> add_mset g (mset (concat (buckets cf'))) = add_mset (fingerprint (hash64 key)) (mset (concat (buckets cf)))"
proof -
  obtain ok cf' where ins: "Insert rnd key cf = Some (ok, cf')"
      "insert_effect ok cf' cf (index1 (numBuckets cf) (hash64 key)) (fingerprint (hash64 key))"
    using Insert_effect[OF assms] by blast
  show ?thesis
  proof (cases ok)
    case True
    with ins show ?thesis
      by (intro exI[of _ ok] exI[of _ cf'] exI[of _ 0]) (simp add: insert_effect_def slots_def Count_def)
  next
    case False
    with ins obtain g where "add_mset g (mset (slots cf')) = add_mset (fingerprint (hash64 key)) (mset (slots cf))"
      by (auto simp: insert_effect_def)
    with False ins show ?thesis
      by (intro exI[of _ ok] exI[of _ cf'] exI[of _ g]) (simp add: insert_effect_def slots_def Count_def)
  qed
qed

theorem Insert_slots_witness:
  "\<exists>ok cf' g. Insert (\<lambda>_. 0) ''ACC-7'' (one_bucket [0, 0, 0, 0] 0) = Some (ok, cf') \<and> cf_wf cf'
    \<and> Count cf' = (if ok then Count (one_bucket [0, 0, 0, 0] 0) + 1 else Count (one_bucket [0, 0, 0, 0] 0))
    \<and> (ok \<longrightarrow> g = 0) \<and> add_mset g (mset (concat (buckets cf')))
      = add_mset (fingerprint (hash64 ''ACC-7'')) (mset (concat (buckets (one_bucket [0, 0, 0, 0] 0))))"
  using Insert_slots[OF one_bucket_wf[of "[0, 0, 0, 0]" 0]] by simp

text \<open>
  Saturation loses a member. There are a well-formed filter, a key it contains and random draws
  for which a failed insertion of another key leaves a filter that no longer contains the first one:
  the caller is told that the new key was not stored, but an old one was dropped.
\<close>

theorem failed_Insert_drops_member:
  "\<exists>cf rnd key cf' old. cf_wf cf \<and> Contains old cf = Some True \<and> Insert rnd key cf = Some (False, cf')
    \<and> Contains old cf' = Some False"
proof -
  let ?fp = "\<lambda>k. fingerprint (hash64 k)"
  let ?b = "[?fp ''a'', ?fp ''b'', ?fp ''c'', ?fp ''d'']"
  let ?rnd = "\<lambda>k::nat. if k = 1 then 1 else (0::nat)"
  let ?b' = "[?fp ''b'', ?fp ''e'', ?fp ''c'', ?fp ''d'']"
  have fps: "?fp ''a'' = 0xec8c" "?fp ''b'' = 0xf1a5" "?fp ''c'' = 0xeff2" "?fp ''d'' = 0xe773" "?fp ''e'' = 0xe5c0"
    by (simp_all add: fingerprint_def hash64_def bytes_of_def)
  have full: "0 \<notin> set ?b" by (simp add: fps)
  have "kick_loop MaxKicks ?rnd 1 0 (?fp ''e'') (one_bucket ?b 4) = Some (False, one_bucket ?b' 4)"
    using kick_499[of ?b "?fp ''e''" ?rnd 4] full by (simp add: fps)
  then have "Insert ?rnd ''e'' (one_bucket ?b 4) = Some (False, one_bucket ?b' 4)"
    using insertIntoBucket_full[OF full] by (simp add: Insert_def)
  moreover have "Contains ''a'' (one_bucket ?b 4) = Some True" by (simp add: Contains_one_bucket)
  moreover have "Contains ''a'' (one_bucket ?b' 4) = Some False" by (simp add: Contains_one_bucket fps)
  ultimately show ?thesis using one_bucket_wf[of ?b 4] by (intro exI conjI) auto
qed

text \<open>
  C18. Serialization round trip. A well-formed filter of fewer than \<open>2 ^ 29\<close> buckets (below the wrap of
  the length computation) that is serialized and read back, by the constructor or over an existing
  filter, is the same filter: buckets, bucket count and counter.
\<close>

theorem Deserialize_Serialize:
  assumes "cf_wf cf" and "unat (numBuckets cf) < 2 ^ 29"
  shows "DeserializeCompactFilter (Serialize cf) = Inr cf \<and> Deserialize (Serialize cf) old = (None, cf)"
proof -
  let ?n = "numBuckets cf" and ?body = "concat (map (\<lambda>b. concat (map (\<lambda>s. be16 (b ! s)) [0..<BucketSize])) (buckets cf))"
  obtain k where k: "k < 32" "?n = 2 ^ k" using assms(1) by (auto simp: cf_wf_def)
  have "unat ?n = 2 ^ k" unfolding k(2) using k(1) by (intro unat_pow2) simp
  then have "(2::nat) ^ k < 2 ^ 29" using assms(2) by (simp only:)
  then have "k < 29" by (rule power_less_imp_less_exp[rotated]) simp
  then have "(2::nat) ^ k \<le> 2 ^ 28" by (intro power_increasing) auto
  then have small: "unat ?n < 2 ^ 29 - 1" using \<open>unat ?n = 2 ^ k\<close> by simp
  have len: "length (buckets cf) = unat ?n" using assms(1) by (simp add: cf_wf_def)
  have "read_buckets (unat ?n) ?body = Inr (buckets cf)"
    using read_buckets_written[of "buckets cf"] assms(1) by (simp add: cf_wf_def)
  moreover have "length (Serialize cf) = 8 + 8 * unat ?n"
    using length_written[of "buckets cf"] by (simp add: Serialize_def len)
  moreover have "take 4 (Serialize cf) = be32 ?n" "take 4 (drop 4 (Serialize cf)) = be32 (cf_count cf)"
      "drop 8 (Serialize cf) = ?body" by (simp_all add: Serialize_def)
  ultimately have "Deserialize (Serialize cf) f = (None, cf)" for f
    using expected_length[OF small] by (simp add: Deserialize_def Let_def)
  then show ?thesis by (simp add: DeserializeCompactFilter_def)
qed

theorem Deserialize_Serialize_witness:
  "DeserializeCompactFilter (Serialize (one_bucket [1, 0, 7, 65535] 3)) = Inr (one_bucket [1, 0, 7, 65535] 3)"
  using Deserialize_Serialize[OF one_bucket_wf[of "[1, 0, 7, 65535]" 3], of "one_bucket [] 0"]
  by (simp add: one_bucket_def)

text \<open>
  A filter file of eight zero bytes is accepted by \<open>DeserializeCompactFilter\<close>; it has no bucket, so
  every lookup and every insertion in the filter it gives indexes out of range and panics.
\<close>

theorem zero_bucket_filter_panics:
  "\<exists>cf. DeserializeCompactFilter (replicate 8 0) = Inr cf \<and> Contains k cf = None \<and> Insert rnd k cf = None"
proof -
  let ?cf = "\<lparr>buckets = [], numBuckets = 0, cf_count = 0\<rparr>"
  have "DeserializeCompactFilter (replicate 8 0) = Inr ?cf"
  proof -
    have z: "replicate 8 0 = [0, 0, 0, 0, 0, 0, 0, 0 :: byte]" by (simp add: numeral_eq_Suc)
    show ?thesis by (simp add: z DeserializeCompactFilter_def Deserialize_def Let_def un_be_def)
  qed
  moreover have "Contains k ?cf = None"
    by (simp add: Contains_def Let_def BucketSize_def upt_rec slot_at_def)
  moreover have "Insert rnd k ?cf = None"
    by (simp add: Insert_def Let_def insertIntoBucket_def)
  ultimately show ?thesis by blast
qed

end
