(* ===== verification/Offline_Auth_Props.thy ===== *)
theory Offline_Auth_Props
  imports Offline_Auth Filter_Claims
begin

text \<open>
  Properties of offline authorization: the exact condition of an approval and its effect, the
  cumulative ceiling over any run of the authorizer, the round trip from issue to approval,
  revocation through the cuckoo filter, and the refill by negative amounts.
\<close>

section \<open>The approval condition\<close>

definition eligible :: "ed25519 \<Rightarrow> time \<Rightarrow> OfflineAuthorizationToken \<Rightarrow> EdgeAuthorizer \<Rightarrow> bool" where
  "eligible ed t tok ea \<longleftrightarrow> revoked tok ea = Some False \<and> sint (Unix t) \<le> sint (ExpirationTime tok)
     \<and> (tok_TerminalID tok = ''*'' \<or> tok_TerminalID tok = ea_terminalID ea)
     \<and> token_doc.authentic ed (ea_publicKey ea) tok"

definition within_floor :: "OfflineAuthorizationToken \<Rightarrow> int64 \<Rightarrow> EdgeAuthorizer \<Rightarrow> bool" where
  "within_floor tok amount ea \<longleftrightarrow> sint amount \<le> sint (MaxFloorAmount tok) \<and> sint amount \<le> 5000
     \<and> sint (spent_on ea (TokenID tok) + amount) \<le> sint (MaxFloorAmount tok)"

definition charged :: "OfflineAuthorizationToken \<Rightarrow> int64 \<Rightarrow> EdgeAuthorizer \<Rightarrow> EdgeAuthorizer" where
  "charged tok amount ea =
     ea\<lparr>spentByToken := (spentByToken ea)(TokenID tok \<mapsto> spent_on ea (TokenID tok) + amount),
       sequenceNum := sequenceNum ea + 1\<rparr>"

lemma AuthorizeOffline_approves:
  assumes "eligible ed t tok ea" and "within_floor tok amount ea"
  shows "\<exists>d. AuthorizeOffline ed t tok amount ea = Some (d, charged tok amount ea) \<and> dec_Approved d
    \<and> dec_ReasonCode d = CodeApproved \<and> dec_ISO8583 d = ''00'' \<and> dec_SequenceNum d = sequenceNum ea + 1
    \<and> RemainingFloor d = MaxFloorAmount tok - (spent_on ea (TokenID tok) + amount)"
proof -
  obtain b where b: "sig_bytes (tok_Signature tok) = Some b" "Verify ed (ea_publicKey ea) (Digest tok) b"
    using assms(1) unfolding eligible_def token_doc.authentic_def by (auto split: option.splits)
  show ?thesis
    using assms b
    by (auto simp: AuthorizeOffline_def eligible_def within_floor_def charged_def Let_def not_less
        MaxOfflineFloorLimitCents_def spent_on_def)
qed

lemma AuthorizeOffline_declines:
  assumes "revoked tok ea \<noteq> None" and "\<not> (eligible ed t tok ea \<and> within_floor tok amount ea)"
  shows "\<exists>d. AuthorizeOffline ed t tok amount ea = Some (d, ea) \<and> \<not> dec_Approved d
    \<and> dec_ReasonCode d \<noteq> CodeApproved \<and> dec_ISO8583 d = MapReasonToISO8583 (dec_ReasonCode d)"
  using assms
  by (auto simp: AuthorizeOffline_def eligible_def within_floor_def decline_def Let_def not_less
      token_doc.authentic_def MaxOfflineFloorLimitCents_def split: option.splits bool.splits)

lemma AuthorizeOffline_cases:
  assumes "AuthorizeOffline ed t tok amount ea = Some (d, ea')"
  shows "(dec_Approved d \<and> eligible ed t tok ea \<and> within_floor tok amount ea \<and> ea' = charged tok amount ea)
    \<or> (\<not> dec_Approved d \<and> ea' = ea)"
proof (cases "eligible ed t tok ea \<and> within_floor tok amount ea")
  case True
  then show ?thesis using AuthorizeOffline_approves[of ed t tok ea amount] assms by auto
next
  case False
  have "revoked tok ea \<noteq> None" using assms by (cases "revoked tok ea") (auto simp: AuthorizeOffline_def)
  from AuthorizeOffline_declines[OF this False] show ?thesis using assms by auto
qed

section \<open>Runs of the authorizer\<close>

text \<open>A request is a time, a token and an amount; a run lists each request with its outcome.\<close>

type_synonym request = "time \<times> OfflineAuthorizationToken \<times> int64"

fun run_auth :: "ed25519 \<Rightarrow> request list \<Rightarrow> EdgeAuthorizer \<Rightarrow> ((request \<times> bool) list \<times> EdgeAuthorizer) option" where
  "run_auth ed [] ea = Some ([], ea)"
| "run_auth ed ((t, tok, amount) # rs) ea =
     (case AuthorizeOffline ed t tok amount ea of
        None \<Rightarrow> None
      | Some (d, ea1) \<Rightarrow>
          (case run_auth ed rs ea1 of
             None \<Rightarrow> None
           | Some (hist, ea2) \<Rightarrow> Some (((t, tok, amount), dec_Approved d) # hist, ea2)))"

text \<open>The amount approved under a token identifier.\<close>

fun approved_total :: "string \<Rightarrow> (request \<times> bool) list \<Rightarrow> int" where
  "approved_total k [] = 0"
| "approved_total k (((t, tok, amount), ok) # hist) =
     (if ok \<and> TokenID tok = k then sint amount else 0) + approved_total k hist"

text \<open>The number of approvals.\<close>

fun approvals :: "(request \<times> bool) list \<Rightarrow> nat" where
  "approvals [] = 0"
| "approvals ((r, ok) # hist) = (if ok then 1 else 0) + approvals hist"

lemma spent_on_charged:
  "spent_on (charged tok amount ea) k =
    (if TokenID tok = k then spent_on ea k + amount else spent_on ea k)"
  by (simp add: charged_def spent_on_def)

lemma run_auth_ceiling:
  assumes "run_auth ed rs ea = Some (hist, ea')"
    and "\<forall>(t, tok, amount) \<in> set rs. 0 \<le> sint amount \<and> (TokenID tok = k \<longrightarrow> sint (MaxFloorAmount tok) \<le> m)"
    and "m \<le> 5000" and "0 \<le> sint (spent_on ea k)" and "sint (spent_on ea k) \<le> max 0 m"
  shows "sint (spent_on ea' k) = sint (spent_on ea k) + approved_total k hist \<and> 0 \<le> sint (spent_on ea' k)
    \<and> sint (spent_on ea' k) \<le> max 0 m"
  using assms
proof (induction ed rs ea arbitrary: hist rule: run_auth.induct)
  case (2 ed t tok amount rs ea)
  obtain d ea1 hist1 where step: "AuthorizeOffline ed t tok amount ea = Some (d, ea1)"
    and rest: "run_auth ed rs ea1 = Some (hist1, ea')" and hist: "hist = ((t, tok, amount), dec_Approved d) # hist1"
    using "2.prems"(1) by (auto split: option.splits prod.splits)
  have amt: "0 \<le> sint amount" "TokenID tok = k \<Longrightarrow> sint (MaxFloorAmount tok) \<le> m"
    using "2.prems"(2) by auto
  have now: "sint (spent_on ea1 k) = sint (spent_on ea k) + (if dec_Approved d \<and> TokenID tok = k then sint amount else 0)
    \<and> 0 \<le> sint (spent_on ea1 k) \<and> sint (spent_on ea1 k) \<le> max 0 m"
  proof (cases "dec_Approved d \<and> TokenID tok = k")
    case True
    then have w: "within_floor tok amount ea" "ea1 = charged tok amount ea"
      using AuthorizeOffline_cases[OF step] by auto
    have "sint (spent_on ea k + amount) = sint (spent_on ea k) + sint amount"
      using w(1) True "2.prems"(3,4,5) amt(1) by (intro sint_add_no_overflow) (auto simp: within_floor_def)
    with True w amt "2.prems"(4) show ?thesis
      by (auto simp: spent_on_charged within_floor_def)
  next
    case False
    then have "spent_on ea1 k = spent_on ea k"
      using AuthorizeOffline_cases[OF step] by (auto simp: spent_on_charged)
    with False "2.prems"(4,5) show ?thesis by auto
  qed
  have "sint (spent_on ea' k) = sint (spent_on ea1 k) + approved_total k hist1 \<and> 0 \<le> sint (spent_on ea' k)
    \<and> sint (spent_on ea' k) \<le> max 0 m"
    by (rule "2.IH"[OF step refl rest]) (use "2.prems"(2,3) now in auto)
  with now hist show ?case by simp
qed auto

lemma run_auth_sequence:
  assumes "run_auth ed rs ea = Some (hist, ea')"
  shows "sequenceNum ea' = sequenceNum ea + of_nat (approvals hist)"
  using assms
proof (induction ed rs ea arbitrary: hist rule: run_auth.induct)
  case (2 ed t tok amount rs ea)
  obtain d ea1 hist1 where step: "AuthorizeOffline ed t tok amount ea = Some (d, ea1)"
    and rest: "run_auth ed rs ea1 = Some (hist1, ea')" and hist: "hist = ((t, tok, amount), dec_Approved d) # hist1"
    using "2.prems"(1) by (auto split: option.splits prod.splits)
  have "sequenceNum ea1 = sequenceNum ea + (if dec_Approved d then 1 else 0)"
    using AuthorizeOffline_cases[OF step] by (auto simp: charged_def)
  with "2.IH"[OF step refl rest] hist show ?case by simp
qed auto

lemma revoked_total:
  assumes "\<And>f. revocationFilter ea = Some f \<Longrightarrow> cf_wf f"
  shows "revoked tok ea \<noteq> None"
  using assms by (auto simp: revoked_def Contains_present split: option.splits bool.splits)

lemma run_auth_total:
  assumes "\<And>f. revocationFilter ea = Some f \<Longrightarrow> cf_wf f"
  shows "\<exists>hist ea'. run_auth ed rs ea = Some (hist, ea')"
  using assms
proof (induction rs arbitrary: ea)
  case (Cons r rs)
  obtain t tok amount where r: "r = (t, tok, amount)" by (cases r)
  have "revoked tok ea \<noteq> None" by (rule revoked_total) (rule Cons.prems)
  then have "AuthorizeOffline ed t tok amount ea \<noteq> None"
    using AuthorizeOffline_approves[of ed t tok ea amount] AuthorizeOffline_declines[of tok ea ed t amount]
    by (cases "eligible ed t tok ea \<and> within_floor tok amount ea") auto
  then obtain d ea1 where step: "AuthorizeOffline ed t tok amount ea = Some (d, ea1)" by auto
  then have "revocationFilter ea1 = revocationFilter ea"
    using AuthorizeOffline_cases by (fastforce simp: charged_def)
  then obtain hist ea' where "run_auth ed rs ea1 = Some (hist, ea')" using Cons.IH[of ea1] Cons.prems by auto
  with step show ?case by (simp add: r)
qed simp

section \<open>A token and an authorizer for evaluation\<close>

definition demo_authority :: TokenAuthority where
  "demo_authority = \<lparr>ta_publicKey = [7], ta_privateKey = [7], ta_counter = 0\<rparr>"

definition demo_token :: OfflineAuthorizationToken where
  "demo_token = fst (IssueToken demo_ed25519 (\<lambda>_. 0) ''ACC-1'' 5000 (3600 * 1000000000) ''*'' demo_authority)"

definition demo_edge :: EdgeAuthorizer where
  "demo_edge = NewEdgeAuthorizer [7] ''TERM-1''"

lemma IssueToken_token:
  "fst (IssueToken ed clk acc flr dur term ta) =
    token_doc.signed ed (ta_privateKey ta) \<lparr>TokenID = ''TOK-'' @ acc @ ''-'' @ show_int64 (UnixNano (clk 0))
        @ ''-'' @ show_int64 (ta_counter ta + 1), tok_AccountID = acc,
      MaxFloorAmount = (if 5000 < sint flr then 5000 else flr), ExpirationTime = Unix (clk 1 + sint dur),
      tok_TerminalID = term, SequenceCounter = ta_counter ta + 1, tok_Signature = ''''\<rparr>"
  by (simp add: IssueToken_def Let_def token_doc.signed_def MaxOfflineFloorLimitCents_def)

lemma IssueToken_authentic:
  assumes "ed25519_correct ed" and "key_pair ed (ta_publicKey ta) (ta_privateKey ta)"
  shows "token_doc.authentic ed (ta_publicKey ta) (fst (IssueToken ed clk acc flr dur term ta))"
  unfolding IssueToken_token by (rule token_doc.signed_authentic[OF assms])

lemma IssueToken_fields:
  "MaxFloorAmount (fst (IssueToken ed clk acc flr dur term ta)) = (if 5000 < sint flr then 5000 else flr)"
  "ExpirationTime (fst (IssueToken ed clk acc flr dur term ta)) = Unix (clk 1 + sint dur)"
  "tok_TerminalID (fst (IssueToken ed clk acc flr dur term ta)) = term"
  "tok_AccountID (fst (IssueToken ed clk acc flr dur term ta)) = acc"
  by (simp_all add: IssueToken_token token_doc.signed_def)

lemma demo_token_eligible: "sint (Unix t) \<le> 3600 \<Longrightarrow> spentByToken ea = s \<Longrightarrow> ea = demo_edge\<lparr>spentByToken := s, sequenceNum := n\<rparr>
    \<Longrightarrow> eligible demo_ed25519 t demo_token ea"
  using IssueToken_authentic[of demo_ed25519 demo_authority "\<lambda>_. 0" "''ACC-1''" 5000 "3600 * 1000000000" "''*''"]
  by (auto simp: eligible_def demo_token_def demo_edge_def NewEdgeAuthorizer_def revoked_def IssueToken_fields
      demo_authority_def Unix_def Second_def)

section \<open>Properties\<close>

text \<open>
  C20. Offline authorization, on every branch. With no filter or a well-formed one the call returns. It
  approves exactly when the token is not revoked, not expired, bound to this terminal (or to any),
  authentic under the authorizer's key, and the amount is within the token's floor, the global
  floor of 5000 cents and what the token has left. An approval charges the token with the amount and
  takes the next sequence number; a decline changes nothing and carries the ISO code of its reason.
\<close>

theorem AuthorizeOffline_spec:
  assumes "\<forall>f. revocationFilter ea = Some f \<longrightarrow> cf_wf f"
  shows "\<exists>d ea'. AuthorizeOffline ed t tok amount ea = Some (d, ea')
    \<and> (dec_Approved d \<longleftrightarrow> eligible ed t tok ea \<and> within_floor tok amount ea)
    \<and> dec_ISO8583 d = MapReasonToISO8583 (dec_ReasonCode d)
    \<and> (if dec_Approved d then ea' = charged tok amount ea \<and> dec_ReasonCode d = CodeApproved
          \<and> dec_SequenceNum d = sequenceNum ea + 1
          \<and> RemainingFloor d = MaxFloorAmount tok - (spent_on ea (TokenID tok) + amount)
       else ea' = ea \<and> dec_ReasonCode d \<noteq> CodeApproved)"
proof (cases "eligible ed t tok ea \<and> within_floor tok amount ea")
  case True
  then show ?thesis using AuthorizeOffline_approves[of ed t tok ea amount] by auto
next
  case False
  have "revoked tok ea \<noteq> None" using assms by (intro revoked_total) auto
  from AuthorizeOffline_declines[OF this False] False show ?thesis by auto
qed

theorem AuthorizeOffline_spec_witness:
  "\<exists>d ea'. AuthorizeOffline demo_ed25519 0 demo_token 1200 demo_edge = Some (d, ea') \<and> dec_Approved d"
proof -
  have "\<forall>f. revocationFilter demo_edge = Some f \<longrightarrow> cf_wf f" by (simp add: demo_edge_def NewEdgeAuthorizer_def)
  note spec = AuthorizeOffline_spec[OF this, of demo_ed25519 0 demo_token 1200]
  have "eligible demo_ed25519 0 demo_token demo_edge"
    by (rule demo_token_eligible[of _ _ Map.empty 0]) (simp_all add: Unix_def demo_edge_def NewEdgeAuthorizer_def)
  moreover have "within_floor demo_token 1200 demo_edge"
    by (simp add: within_floor_def demo_token_def IssueToken_fields spent_on_def demo_edge_def NewEdgeAuthorizer_def)
  ultimately show ?thesis using spec by metis
qed

text \<open>
  C21. Cumulative ceiling. Over any sequence of offline authorizations with non-negative amounts, for
  any tokens, times and terminals, what is approved under a token identifier since the spend cache
  was empty never exceeds the token's ceiling (at most 5000 cents, as \<open>IssueToken\<close> guarantees), the
  cache holds exactly that amount, and every approval takes one sequence number.
\<close>

theorem offline_spend_bounded:
  assumes "run_auth ed rs ea = Some (hist, ea')" and "spentByToken ea k = None"
    and "\<forall>(t, tok, amount) \<in> set rs. 0 \<le> sint amount"
    and "\<forall>(t, tok, amount) \<in> set rs. TokenID tok = k \<longrightarrow> sint (MaxFloorAmount tok) \<le> m"
    and "0 \<le> m" and "m \<le> 5000"
  shows "approved_total k hist \<le> m \<and> sint (spent_on ea' k) = approved_total k hist
    \<and> sequenceNum ea' = sequenceNum ea + of_nat (approvals hist)"
proof -
  have z: "spent_on ea k = 0" using assms(2) by (simp add: spent_on_def)
  have "\<forall>(t, tok, amount) \<in> set rs. 0 \<le> sint amount \<and> (TokenID tok = k \<longrightarrow> sint (MaxFloorAmount tok) \<le> m)"
    using assms(3,4) by fastforce
  from run_auth_ceiling[OF assms(1) this assms(6)] show ?thesis
    using z assms(5) run_auth_sequence[OF assms(1)] by simp
qed

theorem offline_spend_bounded_witness:
  "\<exists>hist ea'. run_auth demo_ed25519 [(0, demo_token, 3000), (0, demo_token, 2500)] demo_edge = Some (hist, ea')
    \<and> approved_total (TokenID demo_token) hist \<le> 5000"
proof -
  have no_filter: "revocationFilter demo_edge = Some f \<Longrightarrow> cf_wf f" for f
    by (simp add: demo_edge_def NewEdgeAuthorizer_def)
  obtain hist ea' where run: "run_auth demo_ed25519 [(0, demo_token, 3000), (0, demo_token, 2500)] demo_edge = Some (hist, ea')"
    using run_auth_total[of demo_edge] no_filter by blast
  have "approved_total (TokenID demo_token) hist \<le> 5000"
    using offline_spend_bounded[OF run, of "TokenID demo_token" 5000]
    by (simp add: demo_edge_def NewEdgeAuthorizer_def demo_token_def IssueToken_fields)
  with run show ?thesis by blast
qed

text \<open>
  From issue to approval. A token that an authority with a generated key issues is accepted, until
  it expires, by every authorizer that holds the authority's public key, has no revocation of it and
  has the terminal the token names (or the token names any), for every amount within the capped
  floor that the token has left; its ceiling is the requested floor capped at 5000 cents.
\<close>

theorem issued_token_authorizes:
  assumes "ed25519_correct ed" and "key_pair ed (ta_publicKey ta) (ta_privateKey ta)"
    and "tok = fst (IssueToken ed clk acc floorAmount duration terminal ta)"
    and "ea_publicKey ea = PublicKey ta" and "revoked tok ea = Some False"
    and "terminal = ''*'' \<or> terminal = ea_terminalID ea"
    and "sint (Unix t) \<le> sint (Unix (clk 1 + sint duration))"
    and "sint amount \<le> min 5000 (sint floorAmount)"
    and "sint (spent_on ea (TokenID tok) + amount) \<le> min 5000 (sint floorAmount)"
  shows "\<exists>d. AuthorizeOffline ed t tok amount ea = Some (d, charged tok amount ea) \<and> dec_Approved d"
proof -
  have "eligible ed t tok ea"
    using assms(4-7) IssueToken_authentic[OF assms(1,2), of clk acc floorAmount duration terminal]
    by (simp add: eligible_def PublicKey_def assms(3) IssueToken_fields)
  moreover have "within_floor tok amount ea"
    using assms(8,9) by (auto simp: within_floor_def assms(3) IssueToken_fields)
  ultimately show ?thesis using AuthorizeOffline_approves[of ed t tok ea amount] by auto
qed

theorem issued_token_authorizes_witness:
  "\<exists>d. AuthorizeOffline demo_ed25519 0 demo_token 5000 demo_edge = Some (d, charged demo_token 5000 demo_edge)
    \<and> dec_Approved d"
  by (rule issued_token_authorizes[OF _ _ demo_token_def])
    (simp_all add: demo_authority_def demo_edge_def NewEdgeAuthorizer_def PublicKey_def revoked_def
      spent_on_def Unix_def Second_def)

text \<open>
  Revocation blocks at the edge. After the account or the token identifier was inserted in the
  mounted cuckoo filter, and any number of successful insertions besides, every authorization with
  that token is declined with reason \<open>CodeRevokedAccountEdge\<close> (ISO 41), for every amount, time and
  signature, and the authorizer is unchanged.
\<close>

theorem revoked_is_declined:
  assumes "cf_wf f0" and "insert_keys rks f0 = Some f"
    and "tok_AccountID tok \<in> snd ` set rks \<or> TokenID tok \<in> snd ` set rks"
  shows "\<exists>d. AuthorizeOffline ed t tok amount (SetRevocationFilter (Some f) ea)
      = Some (d, SetRevocationFilter (Some f) ea)
    \<and> \<not> dec_Approved d \<and> dec_ReasonCode d = CodeRevokedAccountEdge \<and> dec_ISO8583 d = ''41''"
proof -
  have wf: "cf_wf f" and found: "\<And>k. k \<in> snd ` set rks \<Longrightarrow> Contains k f = Some True"
    using insert_keys_finds[OF assms(1,2)] by auto
  have "revoked tok (SetRevocationFilter (Some f) ea) = Some True"
  proof (cases "Contains (tok_AccountID tok) f = Some True")
    case False
    then have "Contains (tok_AccountID tok) f = Some False" "TokenID tok \<in> snd ` set rks"
      using cuckoo.contains_total[OF wf, of "tok_AccountID tok"] found assms(3) by fastforce+
    then show ?thesis using found by (simp add: revoked_def SetRevocationFilter_def)
  qed (simp add: revoked_def SetRevocationFilter_def)
  then show ?thesis by (simp add: AuthorizeOffline_def decline_def)
qed

theorem revoked_is_declined_witness:
  "\<exists>f d. insert_keys [(\<lambda>_. 0, ''ACC-1'')] (one_bucket [0, 0, 0, 0] 0) = Some f
    \<and> AuthorizeOffline demo_ed25519 0 demo_token 100 (SetRevocationFilter (Some f) demo_edge)
        = Some (d, SetRevocationFilter (Some f) demo_edge) \<and> dec_ReasonCode d = CodeRevokedAccountEdge"
proof -
  obtain f where f: "insert_keys [(\<lambda>_. 0, ''ACC-1'')] (one_bucket [0, 0, 0, 0] 0) = Some f"
    by (simp add: Insert_def Let_def insertIntoBucket_def) (simp add: one_bucket_def)
  show ?thesis
    using revoked_is_declined[OF _ f, of demo_token demo_ed25519 0 100 demo_edge] f one_bucket_wf[of "[0, 0, 0, 0]" 0]
    by (auto simp: demo_token_def IssueToken_fields)
qed

text \<open>
  Refill by a negative amount. An authorizer approves a payment of the whole ceiling, then one of
  minus that ceiling, then again one of the whole ceiling under the same token: the amounts debited
  from the customer add up to twice the token's ceiling, because amounts are not tested to be
  positive.
\<close>

theorem negative_amount_refills_token:
  assumes "eligible ed t tok ea" and "MaxFloorAmount tok = 5000" and "spent_on ea (TokenID tok) = 0"
  shows "\<exists>ea'. run_auth ed [(t, tok, 5000), (t, tok, - 5000), (t, tok, 5000)] ea
    = Some ([((t, tok, 5000), True), ((t, tok, - 5000), True), ((t, tok, 5000), True)], ea')"
proof -
  have elig: "eligible ed t tok (charged tok x e)" if "eligible ed t tok e" for x e
    using that by (simp add: eligible_def charged_def revoked_def)
  let ?e1 = "charged tok 5000 ea" let ?e2 = "charged tok (- 5000) ?e1"
  have s: "spent_on ?e1 (TokenID tok) = 5000" "spent_on ?e2 (TokenID tok) = 0"
    using assms(3) by (simp_all add: spent_on_charged)
  have "within_floor tok 5000 ea" "within_floor tok (- 5000) ?e1" "within_floor tok 5000 ?e2"
    using assms(2,3) s by (simp_all add: within_floor_def)
  note a = AuthorizeOffline_approves[OF assms(1) this(1)]
    AuthorizeOffline_approves[OF elig[OF assms(1)] this(2)]
    AuthorizeOffline_approves[OF elig[OF elig[OF assms(1)]] this(3)]
  from a show ?thesis by fastforce
qed

theorem negative_amount_refills_token_witness:
  "\<exists>ea'. run_auth demo_ed25519 [(0, demo_token, 5000), (0, demo_token, - 5000), (0, demo_token, 5000)] demo_edge
    = Some ([((0, demo_token, 5000), True), ((0, demo_token, - 5000), True), ((0, demo_token, 5000), True)], ea')"
proof (rule negative_amount_refills_token)
  show "eligible demo_ed25519 0 demo_token demo_edge"
    by (rule demo_token_eligible[of _ _ Map.empty 0]) (simp_all add: Unix_def demo_edge_def NewEdgeAuthorizer_def)
qed (simp_all add: demo_token_def IssueToken_fields spent_on_def demo_edge_def NewEdgeAuthorizer_def)

end
