(* ===== verification/Fraud_Props.thy ===== *)
theory Fraud_Props
  imports Fraud_Graph
begin

text \<open>
  Correctness of the fraud engine. The abstract engine keeps one log of the approved transfers and
  never forgets; its verdict is stated on that log with sets and counts. The engine of the program
  keeps three maps and prunes them from time to time: it gives the same verdicts.
\<close>

section \<open>The score and the decision gate\<close>

named_theorems fraud_floats

text \<open>The constants of the score, the threshold and every sum that occurs, rounded.\<close>

lemma fl_scores [fraud_floats]:
  "fl (1 / 20) = 3602879701896397 / 72057594037927936"
  "fl (4 / 5) = 3602879701896397 / 4503599627370496"
  "fl (1 / 2) = 1 / 2"
  "fl (1 / 5) = 3602879701896397 / 18014398509481984"
  "fl (7 / 20) = 3152519739159347 / 9007199254740992"
  "fl (3 / 20) = 5404319552844595 / 36028797018963968"
  "fl (3 / 4) = 3 / 4"
  "fl (14411518807585587 / 72057594037927936) = 3602879701896397 / 18014398509481984"
  "fl (28823037615171173 / 72057594037927936) = 7205759403792793 / 18014398509481984"
  "fl (19815838360430181 / 36028797018963968) = 4953959590107545 / 9007199254740992"
  "fl (61248954932238749 / 72057594037927936) = 1914029841632461 / 2251799813685248"
  "fl (36028797018963971 / 36028797018963968) = 1"
  "fl (10808639105689191 / 9007199254740992) = 1351079888211149 / 1125899906842624"
  "fl (48638875975601363 / 36028797018963968) = 3039929748475085 / 2251799813685248"
  "fl (39631676720860365 / 72057594037927936) = 2476979795053773 / 4503599627370496"
  "fl (25220157913274779 / 36028797018963968) = 6305039478318695 / 9007199254740992"
  "fl (8106479329266893 / 9007199254740992) = 8106479329266893 / 9007199254740992"
  "fl (37830236869912167 / 36028797018963968) = 4728779608739021 / 4503599627370496"
  "fl (18014398509481985 / 72057594037927936) = 1 / 4"
  "fl (14411518807585587 / 36028797018963968) = 3602879701896397 / 9007199254740992"
  "fl (5404319552844595 / 9007199254740992) = 5404319552844595 / 9007199254740992"
  "fl (27021597764222975 / 36028797018963968) = 3 / 4"
proof -
  show "fl (1 / 20) = 3602879701896397 / 72057594037927936" using fl_eqI[of "1 / 20" 57 7205759403792794] by simp
  show "fl (4 / 5) = 3602879701896397 / 4503599627370496" using fl_eqI[of "4 / 5" 53 7205759403792794] by simp
  show "fl (1 / 2) = 1 / 2" using fl_eqI[of "1 / 2" 53 4503599627370496] by simp
  show "fl (1 / 5) = 3602879701896397 / 18014398509481984" using fl_eqI[of "1 / 5" 55 7205759403792794] by simp
  show "fl (7 / 20) = 3152519739159347 / 9007199254740992" using fl_eqI[of "7 / 20" 54 6305039478318694] by simp
  show "fl (3 / 20) = 5404319552844595 / 36028797018963968" using fl_eqI[of "3 / 20" 55 5404319552844595] by simp
  show "fl (3 / 4) = 3 / 4" using fl_eqI[of "3 / 4" 53 6755399441055744] by simp
  show "fl (14411518807585587 / 72057594037927936) = 3602879701896397 / 18014398509481984" using fl_eqI[of "14411518807585587 / 72057594037927936" 55 7205759403792794] by simp
  show "fl (28823037615171173 / 72057594037927936) = 7205759403792793 / 18014398509481984" using fl_eqI[of "28823037615171173 / 72057594037927936" 54 7205759403792793] by simp
  show "fl (19815838360430181 / 36028797018963968) = 4953959590107545 / 9007199254740992" using fl_eqI[of "19815838360430181 / 36028797018963968" 53 4953959590107545] by simp
  show "fl (61248954932238749 / 72057594037927936) = 1914029841632461 / 2251799813685248" using fl_eqI[of "61248954932238749 / 72057594037927936" 53 7656119366529844] by simp
  show "fl (36028797018963971 / 36028797018963968) = 1" using fl_eqI[of "36028797018963971 / 36028797018963968" 52 4503599627370496] by simp
  show "fl (10808639105689191 / 9007199254740992) = 1351079888211149 / 1125899906842624" using fl_eqI[of "10808639105689191 / 9007199254740992" 52 5404319552844596] by simp
  show "fl (48638875975601363 / 36028797018963968) = 3039929748475085 / 2251799813685248" using fl_eqI[of "48638875975601363 / 36028797018963968" 52 6079859496950170] by simp
  show "fl (39631676720860365 / 72057594037927936) = 2476979795053773 / 4503599627370496" using fl_eqI[of "39631676720860365 / 72057594037927936" 53 4953959590107546] by simp
  show "fl (25220157913274779 / 36028797018963968) = 6305039478318695 / 9007199254740992" using fl_eqI[of "25220157913274779 / 36028797018963968" 53 6305039478318695] by simp
  show "fl (8106479329266893 / 9007199254740992) = 8106479329266893 / 9007199254740992" using fl_eqI[of "8106479329266893 / 9007199254740992" 53 8106479329266893] by simp
  show "fl (37830236869912167 / 36028797018963968) = 4728779608739021 / 4503599627370496" using fl_eqI[of "37830236869912167 / 36028797018963968" 52 4728779608739021] by simp
  show "fl (18014398509481985 / 72057594037927936) = 1 / 4" using fl_eqI[of "18014398509481985 / 72057594037927936" 54 4503599627370496] by simp
  show "fl (14411518807585587 / 36028797018963968) = 3602879701896397 / 9007199254740992" using fl_eqI[of "14411518807585587 / 36028797018963968" 54 7205759403792794] by simp
  show "fl (5404319552844595 / 9007199254740992) = 5404319552844595 / 9007199254740992" using fl_eqI[of "5404319552844595 / 9007199254740992" 53 5404319552844595] by simp
  show "fl (27021597764222975 / 36028797018963968) = 3 / 4" using fl_eqI[of "27021597764222975 / 36028797018963968" 53 6755399441055744] by simp
qed

lemma fraud_score_cases:
  "fraud_score v d a = fraud_score v (if d \<ge> 3 then 3 else 0) (if sint a > 500000 then 500001 else 0)"
  by (simp add: fraud_score_def)

lemmas score_simps = fraud_score_def add_risk_def FraudScoreThreshold_def fraud_floats

lemma fraud_score_table:
  assumes "v \<in> {None, Some (fl (80 / 100)), Some (fl (50 / 100)), Some (fl (20 / 100))}"
  shows "fraud_score v d a \<ge> FraudScoreThreshold \<longleftrightarrow>
           v = Some (fl (80 / 100)) \<or> (v = Some (fl (50 / 100)) \<and> d \<ge> 3) \<or>
           (v = Some (fl (20 / 100)) \<and> d \<ge> 3 \<and> sint a > 500000)" (is ?gate)
    and "0 < fraud_score v d a" "fraud_score v d a \<le> 1"
proof -
  have v: "v = None \<or> v = Some (fl (80 / 100)) \<or> v = Some (fl (50 / 100)) \<or> v = Some (fl (20 / 100))"
    using assms by simp
  then show ?gate
    by (elim disjE; cases "d \<ge> 3"; cases "sint a > 500000") (simp_all add: score_simps)
  from v show "0 < fraud_score v d a"
    by (elim disjE; cases "d \<ge> 3"; cases "sint a > 500000") (simp_all add: score_simps)
  show "fraud_score v d a \<le> 1" by (simp add: fraud_score_def Let_def)
qed

section \<open>The abstract engine: a log of the approved transfers\<close>

record fraud_model =
  fm_key :: "byte list"
  fm_terminals :: "string \<rightharpoonup> string"
  fm_warn :: int
  fm_reject :: int
  fm_log :: "TransactionEvent list"

definition in_window :: "time \<Rightarrow> TransactionEvent \<Rightarrow> bool" where
  "in_window now ev = (now - SlidingWindowDuration < ev_Timestamp ev)"

definition sends :: "TransactionEvent list \<Rightarrow> time \<Rightarrow> string \<Rightarrow> string \<Rightarrow> bool" where
  "sends evs now a b = (\<exists>ev \<in> set evs. in_window now ev \<and> FromAcc ev = a \<and> ToAcc ev = b)"

text \<open>The transfer from \<open>a\<close> to \<open>b\<close> closes a cycle of two or three recent transfers.\<close>

definition closes_cycle :: "TransactionEvent list \<Rightarrow> time \<Rightarrow> string \<Rightarrow> string \<Rightarrow> bool" where
  "closes_cycle evs now a b =
     (b \<noteq> '''' \<and> a \<noteq> b \<and>
      (sends evs now b a \<or>
       (\<exists>ev \<in> set evs. in_window now ev \<and> FromAcc ev = b \<and> sends evs now (ToAcc ev) a)))"

definition velocity :: "TransactionEvent list \<Rightarrow> time \<Rightarrow> string \<Rightarrow> nat" where
  "velocity evs now a = length (filter (\<lambda>ev. in_window now ev \<and> FromAcc ev = a) evs)"

definition devices_used :: "TransactionEvent list \<Rightarrow> time \<Rightarrow> string \<Rightarrow> string set" where
  "devices_used evs c a =
     ev_DeviceID ` {ev \<in> set evs. FromAcc ev = a \<and> c < ev_Timestamp ev \<and> ev_DeviceID ev \<noteq> ''''}"

definition risky :: "int \<Rightarrow> int \<Rightarrow> nat \<Rightarrow> nat \<Rightarrow> int64 \<Rightarrow> bool" where
  "risky warn reject n d amount =
     (0 < reject \<and> reject \<le> int n \<or>
      d \<ge> 3 \<and> 0 < warn \<and> warn \<le> int n \<or>
      d \<ge> 3 \<and> 1 < warn \<and> warn div 2 \<le> int n \<and> sint amount > 500000)"

definition genuine_qr :: "QRPayload option \<Rightarrow> fraud_model \<Rightarrow> bool" where
  "genuine_qr qr m =
     (case qr of None \<Rightarrow> True
      | Some p \<Rightarrow>
          fm_terminals m (qp_TerminalID p) \<in> {None, Some (qp_MerchantID p)} \<and>
          qp_Signature p = hex_encode (hmac_sha256 (fm_key m) (bytes_of
            (qp_TerminalID p @ '':'' @ qp_MerchantID p @ '':'' @ DynamicNonce p @ '':'' @ show_int64 (qp_Amount p)))))"

type_synonym verdict = "bool \<times> ReasonCode \<times> float64"

definition model_verdict :: "time \<Rightarrow> TransactionEvent \<Rightarrow> QRPayload option \<Rightarrow> fraud_model \<Rightarrow> verdict" where
  "model_verdict now ev qr m =
     (if \<not> genuine_qr qr m then (False, CodeQRMismatch, 1)
      else if closes_cycle (fm_log m) now (FromAcc ev) (ToAcc ev) then (False, CodeMuleRingDetected, fl (95 / 100))
      else let n = velocity (fm_log m) now (FromAcc ev);
               d = card (devices_used (fm_log m) (now - SlidingWindowDuration) (FromAcc ev));
               bad = risky (fm_warn m) (fm_reject m) n d (ev_Amount ev)
           in (\<not> bad, if bad then CodeMuleRingDetected else CodeApproved,
               fraud_score (velocity_risk (fm_warn m) (fm_reject m) (int n)) d (ev_Amount ev)))"

section \<open>Calls of the engine\<close>

datatype fraud_op =
    Screen string string string string string string int64 "QRPayload option"
  | ClearHistory string
  | ResetGraph
  | Thresholds int int
  | Terminal string string
  | TerminalKey string "byte list"

definition verdict_of :: "FraudDecision \<Rightarrow> verdict" where
  "verdict_of d = (fd_Approved d, fd_ReasonCode d, fd_FraudScore d)"

fun exec_fraud :: "time \<Rightarrow> fraud_op \<Rightarrow> InMemGraphFraudEngine \<Rightarrow> verdict option \<times> InMemGraphFraudEngine" where
  "exec_fraud now (Screen tx a b dev mer ip amount qr) g =
     map_prod (\<lambda>d. Some (verdict_of d)) id (ScreenTransaction now tx a b dev mer ip amount qr g)"
| "exec_fraud now (ClearHistory a) g = (None, ClearAccountHistory a g)"
| "exec_fraud now ResetGraph g = (None, Reset now g)"
| "exec_fraud now (Thresholds w r) g = (None, SetVelocityThresholds w r g)"
| "exec_fraud now (Terminal t m) g = (None, RegisterTerminal t m g)"
| "exec_fraud now (TerminalKey t k) g = (None, RegisterTerminalPubKey t k g)"

fun exec_model :: "time \<Rightarrow> fraud_op \<Rightarrow> fraud_model \<Rightarrow> verdict option \<times> fraud_model" where
  "exec_model now (Screen tx a b dev mer ip amount qr) m =
     (let ev = \<lparr>ev_TxID = tx, FromAcc = a, ToAcc = b, ev_DeviceID = dev, ev_MerchantID = mer,
                ev_IPAddress = ip, ev_Amount = amount, ev_Timestamp = now\<rparr>;
          v = model_verdict now ev qr m
      in (Some v, if fst v then m\<lparr>fm_log := fm_log m @ [ev]\<rparr> else m))"
| "exec_model now (ClearHistory a) m = (None, m\<lparr>fm_log := filter (\<lambda>ev. FromAcc ev \<noteq> a) (fm_log m)\<rparr>)"
| "exec_model now ResetGraph m = (None, m\<lparr>fm_log := []\<rparr>)"
| "exec_model now (Thresholds w r) m = (None, m\<lparr>fm_warn := w, fm_reject := r\<rparr>)"
| "exec_model now (Terminal t mer) m = (None, m\<lparr>fm_terminals := (fm_terminals m)(t \<mapsto> mer)\<rparr>)"
| "exec_model now (TerminalKey t k) m = (None, m)"

text \<open>A run: the outputs of a sequence of timed calls.\<close>

fun run_timed :: "(time \<Rightarrow> 'op \<Rightarrow> 's \<Rightarrow> 'out \<times> 's) \<Rightarrow> (time \<times> 'op) list \<Rightarrow> 's \<Rightarrow> 'out list" where
  "run_timed f [] s = []"
| "run_timed f ((now, op) # ops) s = (let (out, s') = f now op s in out # run_timed f ops s')"

locale timed_simulation =
  fixes exec_c :: "time \<Rightarrow> 'op \<Rightarrow> 'c \<Rightarrow> 'out \<times> 'c"
    and exec_a :: "time \<Rightarrow> 'op \<Rightarrow> 'a \<Rightarrow> 'out \<times> 'a"
    and rep :: "time \<Rightarrow> 'c \<Rightarrow> 'a \<Rightarrow> bool"
  assumes rep_later: "rep t c a \<Longrightarrow> t \<le> t' \<Longrightarrow> rep t' c a"
    and rep_step: "rep t c a \<Longrightarrow> fst (exec_c t op c) = fst (exec_a t op a)
      \<and> rep t (snd (exec_c t op c)) (snd (exec_a t op a))"
begin

lemma run_same_outputs:
  assumes "rep t c a" and "sorted (t # map fst ops)"
  shows "run_timed exec_c ops c = run_timed exec_a ops a"
  using assms
proof (induction ops arbitrary: t c a)
  case (Cons call ops)
  obtain now op where call: "call = (now, op)" by force
  have r: "rep now c a" using rep_later Cons.prems call by auto
  have "run_timed exec_c ops (snd (exec_c now op c)) = run_timed exec_a ops (snd (exec_a now op a))"
    using Cons.IH[of now] rep_step[OF r] Cons.prems(2) call by auto
  with rep_step[OF r] show ?case by (simp add: call case_prod_beta Let_def)
qed simp

end

section \<open>The engine represents the log\<close>

definition seen_after :: "time \<Rightarrow> sightings \<Rightarrow> string set" where
  "seen_after c ds = {dev. \<exists>s > c. (dev, s) \<in> set ds}"

definition represents :: "time \<Rightarrow> InMemGraphFraudEngine \<Rightarrow> fraud_model \<Rightarrow> bool" where
  "represents t g m \<longleftrightarrow>
     secretKey g = fm_key m \<and> terminalToMerch g = fm_terminals m \<and>
     velocityWarnThreshold g = fm_warn m \<and> velocityRejectThreshold g = fm_reject m \<and>
     (\<forall>a. filter (in_window t) (events_of g a) = filter (\<lambda>ev. in_window t ev \<and> FromAcc ev = a) (fm_log m)) \<and>
     (\<forall>a. distinct (map fst (devices_of g a)) \<and> (\<forall>(dev, s) \<in> set (devices_of g a). s \<le> t)) \<and>
     (\<forall>a c. t - SlidingWindowDuration \<le> c \<longrightarrow> seen_after c (devices_of g a) = devices_used (fm_log m) c a)"

lemma in_window_mono: "t \<le> t' \<Longrightarrow> in_window t' ev \<Longrightarrow> in_window t ev"
  by (simp add: in_window_def)

lemma filter_window_later:
  assumes "t \<le> t'"
  shows "filter (in_window t') xs = filter (in_window t') (filter (in_window t) xs)"
    and "filter (\<lambda>ev. in_window t' ev \<and> P ev) xs = filter (in_window t') (filter (\<lambda>ev. in_window t ev \<and> P ev) xs)"
  using in_window_mono[OF assms] by (auto intro!: filter_cong)

lemma represents_later:
  assumes "represents t g m" and "t \<le> t'"
  shows "represents t' g m"
proof -
  have "filter (in_window t') (events_of g a) = filter (\<lambda>ev. in_window t' ev \<and> FromAcc ev = a) (fm_log m)" for a
    using assms(1) filter_window_later(1)[OF assms(2), of "events_of g a"]
      filter_window_later(2)[OF assms(2), of "\<lambda>ev. FromAcc ev = a" "fm_log m"]
    by (simp add: represents_def del: filter_filter)
  then show ?thesis using assms unfolding represents_def by fastforce
qed

lemma events_of_prune: "events_of (pruneExpiredEvents t g) a = filter (in_window t) (events_of g a)"
  by (auto simp: events_of_def pruneExpiredEvents_def prune_map_def Let_def in_window_def[abs_def]
      split: option.split)

lemma devices_of_prune:
  "devices_of (pruneExpiredEvents t g) a = filter (\<lambda>(dev, s). \<not> s < t - SlidingWindowDuration) (devices_of g a)"
  by (auto simp: devices_of_def pruneExpiredEvents_def prune_map_def Let_def split: option.split)

lemma distinct_map_filter_fst: "distinct (map fst xs) \<Longrightarrow> distinct (map fst (filter P xs))"
  by (induction xs) auto

lemma seen_after_prune:
  "t - SlidingWindowDuration \<le> c \<Longrightarrow>
   seen_after c (filter (\<lambda>(dev, s). \<not> s < t - SlidingWindowDuration) ds) = seen_after c ds"
  by (force simp: seen_after_def)

lemma represents_prune:
  assumes "represents t g m"
  shows "represents t (pruneExpiredEvents t g) m"
proof -
  have cfg: "secretKey (pruneExpiredEvents t g) = secretKey g"
    "terminalToMerch (pruneExpiredEvents t g) = terminalToMerch g"
    "velocityWarnThreshold (pruneExpiredEvents t g) = velocityWarnThreshold g"
    "velocityRejectThreshold (pruneExpiredEvents t g) = velocityRejectThreshold g"
    by (simp_all add: pruneExpiredEvents_def Let_def)
  show ?thesis
    using assms unfolding represents_def cfg events_of_prune devices_of_prune
    by (auto simp: seen_after_prune distinct_map_filter_fst intro!: filter_cong)
qed

lemma represents_periodic_prune:
  "represents t g m \<Longrightarrow> represents t (periodic_prune t g) m"
  using represents_prune[of t g m]
  by (simp add: periodic_prune_def represents_def events_of_def devices_of_def)

text \<open>What the engine reads is what the log says.\<close>

lemma scan_hop2_iff:
  "scan_hop2 a (t - SlidingWindowDuration) evs \<longleftrightarrow> (\<exists>ev \<in> set (filter (in_window t) evs). ToAcc ev = a)"
  by (induction evs) (auto simp: in_window_def)

lemma scan_hop1_iff:
  "fst (scan_hop1 g a b (t - SlidingWindowDuration) evs) \<longleftrightarrow>
   (\<exists>ev \<in> set (filter (in_window t) evs). ToAcc ev = a \<or> scan_hop2 a (t - SlidingWindowDuration) (events_of g (ToAcc ev)))"
  by (induction evs) (auto simp: in_window_def)

lemma cycle_represented:
  assumes "represents t g m"
  shows "fst (detectCycleBFS a b t g) \<longleftrightarrow> closes_cycle (fm_log m) t a b"
proof -
  have ev: "filter (in_window t) (events_of g x) = filter (\<lambda>ev. in_window t ev \<and> FromAcc ev = x) (fm_log m)" for x
    using assms by (simp add: represents_def)
  show ?thesis
    by (auto simp: detectCycleBFS_def scan_hop1_iff scan_hop2_iff ev closes_cycle_def sends_def)
qed

lemma velocity_represented:
  assumes "represents t g m"
  shows "getRecentTransferCount a t g = velocity (fm_log m) t a"
  using assms by (simp add: getRecentTransferCount_def Let_def velocity_def represents_def flip: in_window_def)

lemma device_count_seen:
  assumes "distinct (map fst ds)"
  shows "length (filter (\<lambda>(dev, s). c < s) ds) = card (seen_after c ds)"
proof -
  have "card (seen_after c ds) = card (fst ` set (filter (\<lambda>(dev, s). c < s) ds))"
    by (rule arg_cong[where f = card]) (force simp: seen_after_def)
  also have "\<dots> = length (map fst (filter (\<lambda>(dev, s). c < s) ds))"
    using distinct_card[OF distinct_map_filter_fst[OF assms]] by simp
  finally show ?thesis by simp
qed

lemma devices_represented:
  assumes "represents t g m"
  shows "getDistinctDeviceCount a t g = card (devices_used (fm_log m) (t - SlidingWindowDuration) a)"
  using assms by (simp add: getDistinctDeviceCount_def Let_def represents_def device_count_seen)

lemma risk_gate:
  "fraud_score (velocity_risk warn reject (int n)) d a \<ge> FraudScoreThreshold \<longleftrightarrow> risky warn reject n d a"
proof -
  have v: "velocity_risk warn reject (int n) \<in> {None, Some (fl (80 / 100)), Some (fl (50 / 100)), Some (fl (20 / 100))}"
    by (simp add: velocity_risk_def)
  show ?thesis
    unfolding fraud_score_table(1)[OF v] by (auto simp: velocity_risk_def risky_def fraud_floats)
qed

text \<open>Recording an approved transfer.\<close>

lemma events_of_record:
  "events_of (record_event ev g) a = (if a = FromAcc ev then events_of g a @ [ev] else events_of g a)"
  by (simp add: events_of_def record_event_def)

lemma devices_of_record:
  "devices_of (record_event ev g) a =
     (if a = FromAcc ev \<and> ev_DeviceID ev \<noteq> '''' then AList.update (ev_DeviceID ev) (ev_Timestamp ev) (devices_of g a)
      else devices_of g a)"
  by (simp add: devices_of_def record_event_def record_sighting_def)

lemma seen_after_map_of: "distinct (map fst ds) \<Longrightarrow> seen_after c ds = {dev. \<exists>s > c. map_of ds dev = Some s}"
  by (simp add: seen_after_def)

lemma seen_after_update:
  assumes "distinct (map fst ds)" "\<forall>(dev, s) \<in> set ds. s \<le> t"
  shows "seen_after c (AList.update dev t ds) = (if c < t then insert dev (seen_after c ds) else {})"
proof -
  have le: "map_of ds d = Some s \<Longrightarrow> s \<le> t" for d s
    using assms(2) by (auto dest!: map_of_SomeD)
  show ?thesis
    using le by (auto simp: seen_after_map_of assms(1) distinct_update update_conv' split: if_split)
      (fastforce dest: le)+
qed

lemma seen_after_late: "\<forall>(dev, s) \<in> set ds. s \<le> t \<Longrightarrow> t \<le> c \<Longrightarrow> seen_after c ds = {}"
  by (force simp: seen_after_def)

lemma update_times: "\<forall>(dev, s) \<in> set ds. s \<le> (t :: time) \<Longrightarrow> \<forall>(dev, s) \<in> set (AList.update d t ds). s \<le> t"
  by (induction ds) auto

lemma devices_used_snoc:
  "devices_used (evs @ [ev]) c a =
     (if FromAcc ev = a \<and> c < ev_Timestamp ev \<and> ev_DeviceID ev \<noteq> '''' then insert (ev_DeviceID ev) (devices_used evs c a)
      else devices_used evs c a)"
  by (auto simp: devices_used_def)

lemma represents_record:
  assumes "represents t g m" and "ev_Timestamp ev = t"
  shows "represents t (record_event ev g) (m\<lparr>fm_log := fm_log m @ [ev]\<rparr>)"
proof -
  have cfg: "secretKey (record_event ev g) = secretKey g"
    "terminalToMerch (record_event ev g) = terminalToMerch g"
    "velocityWarnThreshold (record_event ev g) = velocityWarnThreshold g"
    "velocityRejectThreshold (record_event ev g) = velocityRejectThreshold g"
    by (simp_all add: record_event_def)
  have d: "distinct (map fst (devices_of g a))" "\<forall>(dev, s) \<in> set (devices_of g a). s \<le> t" for a
    using assms(1) by (auto simp: represents_def)
  have "seen_after c (devices_of (record_event ev g) a) = devices_used (fm_log m @ [ev]) c a"
    if c: "t - SlidingWindowDuration \<le> c" for a c
  proof -
    have "seen_after c (devices_of g a) = devices_used (fm_log m) c a"
      using assms(1) c by (simp add: represents_def)
    then show ?thesis
      using seen_after_late[OF d(2)[of a], of c]
      by (auto simp: devices_of_record devices_used_snoc seen_after_update[OF d] assms(2))
  qed
  moreover have "distinct (map fst (devices_of (record_event ev g) a))"
    "\<forall>(dev, s) \<in> set (devices_of (record_event ev g) a). s \<le> t" for a
    using d[of a] update_times[OF d(2)[of a]] distinct_update[OF d(1)[of a]]
    by (auto simp: devices_of_record assms(2))
  ultimately show ?thesis
    using assms(1) by (simp add: represents_def cfg events_of_record)
qed

lemma VerifyQR_genuine:
  assumes "represents t g m"
  shows "fst (VerifyQR qr g) \<longleftrightarrow> genuine_qr qr m"
  using assms by (auto simp: VerifyQR_def genuine_qr_def wrong_terminal_def GenerateQRSignature_def represents_def
      split: option.splits)

lemma assess_represents:
  assumes "represents t g m" and "ev_Timestamp ev = t" and "genuine_qr qr m"
  shows "verdict_of (fst (assess t ev g)) = model_verdict t ev qr m"
    and "represents t (snd (assess t ev g))
           (if fst (model_verdict t ev qr m) then m\<lparr>fm_log := fm_log m @ [ev]\<rparr> else m)"
proof -
  have cfg: "velocityWarnThreshold g = fm_warn m" "velocityRejectThreshold g = fm_reject m"
    using assms(1) by (simp_all add: represents_def)
  note reads = cycle_represented[OF assms(1), symmetric] velocity_represented[OF assms(1), symmetric]
    devices_represented[OF assms(1), symmetric] cfg[symmetric]
  show "verdict_of (fst (assess t ev g)) = model_verdict t ev qr m"
    using assms(3)
    by (auto simp: assess_def model_verdict_def reads risk_gate Let_def verdict_of_def fraud_decline_def case_prod_beta)
  show "represents t (snd (assess t ev g))
         (if fst (model_verdict t ev qr m) then m\<lparr>fm_log := fm_log m @ [ev]\<rparr> else m)"
    using assms(1,3) represents_record[OF assms(1,2)]
    by (auto simp: assess_def model_verdict_def reads risk_gate Let_def case_prod_beta)
qed

lemma screen_represents:
  assumes "represents t g m"
  shows "fst (exec_fraud t (Screen tx a b dev mer ip amount qr) g) = fst (exec_model t (Screen tx a b dev mer ip amount qr) m)
    \<and> represents t (snd (exec_fraud t (Screen tx a b dev mer ip amount qr) g))
         (snd (exec_model t (Screen tx a b dev mer ip amount qr) m))"
proof (cases "genuine_qr qr m")
  case True
  then show ?thesis
    using VerifyQR_genuine[OF assms, of qr] assess_represents[OF represents_periodic_prune[OF assms] _ True]
    by (simp add: ScreenTransaction_def case_prod_beta Let_def)
next
  case False
  then show ?thesis
    using VerifyQR_genuine[OF assms, of qr] assms
    by (simp add: ScreenTransaction_def case_prod_beta Let_def model_verdict_def verdict_of_def fraud_decline_def)
qed

lemma represents_clear:
  assumes "represents t g m"
  shows "represents t (ClearAccountHistory a g) (m\<lparr>fm_log := filter (\<lambda>ev. FromAcc ev \<noteq> a) (fm_log m)\<rparr>)"
proof -
  have ev: "events_of (ClearAccountHistory a g) x = (if x = a then [] else events_of g x)"
    and dev: "devices_of (ClearAccountHistory a g) x = (if x = a then [] else devices_of g x)" for x
    by (simp_all add: ClearAccountHistory_def events_of_def devices_of_def)
  have lg: "devices_used (filter (\<lambda>ev. FromAcc ev \<noteq> a) (fm_log m)) c x = (if x = a then {} else devices_used (fm_log m) c x)" for c x
    by (auto simp: devices_used_def)
  have fl: "filter (\<lambda>ev. in_window t ev \<and> FromAcc ev = x) (filter (\<lambda>ev. FromAcc ev \<noteq> a) (fm_log m)) =
      (if x = a then [] else filter (\<lambda>ev. in_window t ev \<and> FromAcc ev = x) (fm_log m))" for x
    by (induction "fm_log m") (auto intro!: filter_cong)
  have cfg: "secretKey (ClearAccountHistory a g) = secretKey g"
    "terminalToMerch (ClearAccountHistory a g) = terminalToMerch g"
    "velocityWarnThreshold (ClearAccountHistory a g) = velocityWarnThreshold g"
    "velocityRejectThreshold (ClearAccountHistory a g) = velocityRejectThreshold g"
    by (simp_all add: ClearAccountHistory_def)
  show ?thesis
    using assms by (simp add: represents_def ev dev lg fl cfg seen_after_def del: filter_filter)
qed

lemma exec_fraud_represents:
  assumes "represents t g m"
  shows "fst (exec_fraud t op g) = fst (exec_model t op m) \<and> represents t (snd (exec_fraud t op g)) (snd (exec_model t op m))"
proof (cases op)
  case (Screen tx a b dev mer ip amount qr)
  then show ?thesis using screen_represents[OF assms] by metis
next
  case (ClearHistory a)
  then show ?thesis using represents_clear[OF assms] by simp
next
  case ResetGraph
  then show ?thesis
    using assms by (simp add: represents_def Reset_def events_of_def devices_of_def devices_used_def seen_after_def)
qed (use assms in \<open>simp_all add: represents_def SetVelocityThresholds_def RegisterTerminal_def
  RegisterTerminalPubKey_def events_of_def devices_of_def\<close>)

interpretation fraud_sim: timed_simulation exec_fraud exec_model represents
  by unfold_locales (rule represents_later exec_fraud_represents; assumption)+

definition empty_model :: "string \<Rightarrow> fraud_model" where
  "empty_model key = \<lparr>fm_key = bytes_of key, fm_terminals = Map.empty, fm_warn = 15, fm_reject = 25, fm_log = []\<rparr>"

lemma new_engine_represents: "represents t (NewInMemGraphFraudEngine now key) (empty_model key)"
  by (simp add: represents_def NewInMemGraphFraudEngine_def empty_model_def events_of_def devices_of_def
      devices_used_def seen_after_def)

section \<open>Properties\<close>

text \<open>
  C29. The engine's verdicts are those of the abstract engine that remembers every approved transfer, for
  every sequence of screenings and configuration calls at times that do not go back: pruning, the
  device table and the way the maps are split by account are invisible.
\<close>

theorem screening_refines_log:
  assumes "sorted (t # map fst ops)"
  shows "run_timed exec_fraud ops (NewInMemGraphFraudEngine t key) = run_timed exec_model ops (empty_model key)"
  by (rule fraud_sim.run_same_outputs[OF new_engine_represents assms])

text \<open>At one minute and more the first transfer has left the window, and the return transfer passes.\<close>

definition demo_round_trip :: "(time \<times> fraud_op) list" where
  "demo_round_trip =
     [(0, Screen ''t1'' ''A'' ''B'' ''d'' ''m'' ''ip'' 100 None),
      (59 * Second, Screen ''t2'' ''B'' ''A'' ''d'' ''m'' ''ip'' 100 None),
      (60 * Second, Screen ''t3'' ''B'' ''A'' ''d'' ''m'' ''ip'' 100 None)]"

theorem screening_refines_log_witness:
  "run_timed exec_fraud demo_round_trip (NewInMemGraphFraudEngine 0 ''key'') =
     run_timed exec_model demo_round_trip (empty_model ''key'')
   \<and> map (map_option fst) (run_timed exec_model demo_round_trip (empty_model ''key'')) =
     [Some True, Some False, Some True]"
proof
  show "run_timed exec_fraud demo_round_trip (NewInMemGraphFraudEngine 0 ''key'') =
     run_timed exec_model demo_round_trip (empty_model ''key'')"
    by (rule screening_refines_log) (simp add: demo_round_trip_def Second_def)
  show "map (map_option fst) (run_timed exec_model demo_round_trip (empty_model ''key'')) =
     [Some True, Some False, Some True]"
    by (simp add: demo_round_trip_def Second_def model_verdict_def genuine_qr_def closes_cycle_def sends_def
        in_window_def SlidingWindowDuration_def empty_model_def velocity_def devices_used_def risky_def Let_def)
qed

text \<open>Reading through a prune is reading the engine itself.\<close>

lemma scan_hop2_window:
  "scan_hop2 a (t - SlidingWindowDuration) (filter (in_window t) evs) = scan_hop2 a (t - SlidingWindowDuration) evs"
  by (simp add: scan_hop2_iff)

lemma detectCycle_periodic_prune: "fst (detectCycleBFS a b t (periodic_prune t g)) = fst (detectCycleBFS a b t g)"
proof -
  have ev: "events_of (periodic_prune t g) x = (if t - lastPruneTime g > 30 * Second
      then filter (in_window t) (events_of g x) else events_of g x)" for x
    using events_of_prune[of t g x] by (simp add: periodic_prune_def events_of_def)
  show ?thesis by (simp add: detectCycleBFS_def scan_hop1_iff ev scan_hop2_window)
qed

lemma counts_periodic_prune:
  "getRecentTransferCount a t (periodic_prune t g) = getRecentTransferCount a t g"
  "getDistinctDeviceCount a t (periodic_prune t g) = getDistinctDeviceCount a t g"
proof -
  have "events_of ((pruneExpiredEvents t g)\<lparr>lastPruneTime := t\<rparr>) a = filter (in_window t) (events_of g a)"
    using events_of_prune[of t g a] by (simp add: events_of_def)
  then show "getRecentTransferCount a t (periodic_prune t g) = getRecentTransferCount a t g"
    by (simp add: getRecentTransferCount_def periodic_prune_def Let_def in_window_def)
  have "devices_of ((pruneExpiredEvents t g)\<lparr>lastPruneTime := t\<rparr>) a =
      filter (\<lambda>(dev, s). \<not> s < t - SlidingWindowDuration) (devices_of g a)"
    using devices_of_prune[of t g a] by (simp add: devices_of_def)
  then show "getDistinctDeviceCount a t (periodic_prune t g) = getDistinctDeviceCount a t g"
    by (auto simp: getDistinctDeviceCount_def periodic_prune_def Let_def intro!: arg_cong[where f = length] filter_cong)
qed

lemma periodic_prune_config [simp]:
  "velocityWarnThreshold (periodic_prune t g) = velocityWarnThreshold g"
  "velocityRejectThreshold (periodic_prune t g) = velocityRejectThreshold g"
  by (simp_all add: periodic_prune_def pruneExpiredEvents_def Let_def)

lemma cycle_score: "fl (95 / 100) = 8556839292003942 / 2 ^ 53"
  using fl_eqI[of "19 / 20" 53 8556839292003942] by simp

lemma fraud_score_bounds:
  "0 < fraud_score (velocity_risk warn reject n) d a" "fraud_score (velocity_risk warn reject n) d a \<le> 1"
  by (rule fraud_score_table; simp add: velocity_risk_def)+

text \<open>
  C30. The decision of one screening, on every engine state, before any pruning: the transfer is approved
  exactly when the QR payload is genuine, no cycle of recent transfers closes, and the velocity,
  device and amount rules do not combine to a rejection; the rounded score lies in \<open>(0, 1]\<close> and is
  below the threshold exactly for approvals; the reason code and the ISO code agree with the decision.
\<close>

theorem ScreenTransaction_gate:
  "let d = fst (ScreenTransaction now tx a b dev mer ip amount qr g) in
   (fd_Approved d \<longleftrightarrow> fst (VerifyQR qr g) \<and> \<not> fst (detectCycleBFS a b now g) \<and>
      \<not> risky (velocityWarnThreshold g) (velocityRejectThreshold g)
          (getRecentTransferCount a now g) (getDistinctDeviceCount a now g) amount)
   \<and> 0 < fd_FraudScore d \<and> fd_FraudScore d \<le> 1
   \<and> (fd_Approved d \<longleftrightarrow> fd_FraudScore d < FraudScoreThreshold)
   \<and> fd_ReasonCode d = (if \<not> fst (VerifyQR qr g) then CodeQRMismatch
        else if fd_Approved d then CodeApproved else CodeMuleRingDetected)
   \<and> fd_ISO8583 d = MapReasonToISO8583 (fd_ReasonCode d)"
proof (cases "fst (VerifyQR qr g)")
  case False
  then show ?thesis
    by (simp add: ScreenTransaction_def case_prod_beta fraud_decline_def FraudScoreThreshold_def fraud_floats)
next
  case True
  note rules = ScreenTransaction_def assess_def case_prod_beta Let_def fraud_decline_def
    detectCycle_periodic_prune counts_periodic_prune
  show ?thesis
  proof (cases "fst (detectCycleBFS a b now g)")
    case cycle: True
    have "fl (19 / 20) \<ge> FraudScoreThreshold" "0 < fl (19 / 20)" "fl (19 / 20) \<le> 1"
      using cycle_score by (simp_all add: FraudScoreThreshold_def fraud_floats)
    with True cycle show ?thesis by (simp add: rules)
  next
    case False
    with True show ?thesis by (simp add: rules risk_gate[symmetric] fraud_score_bounds not_le)
  qed
qed

section \<open>The velocity limit\<close>

fun is_screen :: "fraud_op \<Rightarrow> bool" where
  "is_screen (Screen _ _ _ _ _ _ _ _) = True"
| "is_screen _ = False"

fun approves_from :: "string \<Rightarrow> fraud_op \<Rightarrow> verdict option \<Rightarrow> bool" where
  "approves_from a (Screen _ from _ _ _ _ _ _) (Some (ok, _)) = (ok \<and> from = a)"
| "approves_from a _ _ = False"

text \<open>The times at which a run approved a transfer from \<open>a\<close>.\<close>

definition approval_times :: "string \<Rightarrow> (time \<times> fraud_op) list \<Rightarrow> verdict option list \<Rightarrow> time list" where
  "approval_times a ops outs = map (\<lambda>((now, op), out). now) (filter (\<lambda>((now, op), out). approves_from a op out) (zip ops outs))"

definition within_minute :: "time \<Rightarrow> time list \<Rightarrow> nat" where
  "within_minute e ts = length (filter (\<lambda>s. e - SlidingWindowDuration < s \<and> s \<le> e) ts)"

definition sent_times :: "string \<Rightarrow> TransactionEvent list \<Rightarrow> time list" where
  "sent_times a evs = map ev_Timestamp (filter (\<lambda>ev. FromAcc ev = a) evs)"

lemma approval_times_simps [simp]:
  "approval_times a [] outs = []"
  "approval_times a ((now, op) # ops) (out # outs) =
     (if approves_from a op out then now # approval_times a ops outs else approval_times a ops outs)"
  by (simp_all add: approval_times_def)

lemma within_minute_simps [simp]:
  "within_minute e [] = 0"
  "within_minute e (xs @ ys) = within_minute e xs + within_minute e ys"
  "within_minute e (s # ys) = (if e - SlidingWindowDuration < s \<and> s \<le> e then Suc (within_minute e ys) else within_minute e ys)"
  by (simp_all add: within_minute_def)

lemma within_minute_velocity:
  assumes "now \<le> e"
  shows "within_minute e (sent_times a evs) \<le> velocity evs now a"
  using assms by (induction evs) (auto simp: within_minute_def sent_times_def velocity_def in_window_def)

lemma model_verdict_below_reject:
  "fst (model_verdict now ev qr m) \<Longrightarrow> 0 < fm_reject m \<Longrightarrow> int (velocity (fm_log m) now (FromAcc ev)) < fm_reject m"
  by (auto simp: model_verdict_def risky_def Let_def split: if_splits)

lemma model_velocity_limit:
  assumes "\<forall>(now, op) \<in> set ops. is_screen op" and "0 < fm_reject m"
    and "\<And>e. int (within_minute e (sent_times a (fm_log m))) \<le> fm_reject m"
  shows "int (within_minute e (sent_times a (fm_log m) @ approval_times a ops (run_timed exec_model ops m))) \<le> fm_reject m"
  using assms
proof (induction ops arbitrary: m)
  case (Cons call ops)
  obtain now tx src b dev mer ip amount qr where call: "call = (now, Screen tx src b dev mer ip amount qr)"
    using Cons.prems(1) by (cases call, cases "snd call") auto
  define ev where "ev = \<lparr>ev_TxID = tx, FromAcc = src, ToAcc = b, ev_DeviceID = dev, ev_MerchantID = mer,
    ev_IPAddress = ip, ev_Amount = amount, ev_Timestamp = now\<rparr>"
  define v where "v = model_verdict now ev qr m"
  show ?case
  proof (cases "fst v")
    case True
    define m' where "m' = m\<lparr>fm_log := fm_log m @ [ev]\<rparr>"
    have lt: "int (velocity (fm_log m) now src) < fm_reject m"
      using model_verdict_below_reject[of now ev qr m] True Cons.prems(2) by (simp add: v_def ev_def)
    have "int (within_minute e (sent_times a (fm_log m'))) \<le> fm_reject m'" for e
      using Cons.prems(3)[of e] lt within_minute_velocity[of now e a "fm_log m"]
      by (auto simp: m'_def sent_times_def ev_def)
    then have "int (within_minute e (sent_times a (fm_log m') @ approval_times a ops (run_timed exec_model ops m'))) \<le> fm_reject m'"
      using Cons.IH[of m'] Cons.prems by (simp add: m'_def)
    moreover have "run_timed exec_model (call # ops) m = Some v # run_timed exec_model ops m'"
      using True by (simp add: call Let_def v_def ev_def m'_def)
    ultimately show ?thesis
      using True by (cases v) (auto simp: call m'_def sent_times_def ev_def)
  next
    case False
    then have "run_timed exec_model (call # ops) m = Some v # run_timed exec_model ops m"
      by (simp add: call Let_def v_def ev_def)
    with False Cons show ?thesis by (cases v) (simp add: call)
  qed
qed simp

text \<open>
  C31. Rate limit: in any window of sixty seconds a fresh engine approves at most 25 transfers of one account,
  the default rejection threshold, whatever the sequence of screenings.
\<close>

theorem velocity_limit:
  assumes "sorted (t # map fst ops)" and "\<forall>(now, op) \<in> set ops. is_screen op"
  shows "within_minute e (approval_times a ops (run_timed exec_fraud ops (NewInMemGraphFraudEngine t key))) \<le> 25"
  using model_velocity_limit[OF assms(2), of "empty_model key" a e]
    fraud_sim.run_same_outputs[OF new_engine_represents assms(1), of t key]
  by (simp add: empty_model_def sent_times_def within_minute_def)

theorem velocity_limit_witness:
  "within_minute (60 * Second) (approval_times ''B'' demo_round_trip
     (run_timed exec_fraud demo_round_trip (NewInMemGraphFraudEngine 0 ''key''))) \<le> 25"
  by (rule velocity_limit) (simp_all add: demo_round_trip_def Second_def)

end
