(* ===== verification/Gateway_Props.thy ===== *)
theory Gateway_Props
  imports Gateway Reconcile_Props Offline_Auth_Props Fraud_Props
begin

text \<open>
  Correctness of the gateway: what a payment moves online and offline, idempotency, conservation
  across payments and reconciliations, and the offline path from approval to settlement.
\<close>

section \<open>Calls of the gateway\<close>

datatype gateway_op =
    Pay env PaymentRequest
  | Trigger time "nat \<Rightarrow> nat \<Rightarrow> clock" time
  | NetworkChange NetworkStatus
  | ScreeningSwitch bool
  | KeyRegistration string "byte list"

fun exec_gateway :: "gateway_op \<Rightarrow> PaymentGateway \<Rightarrow> PaymentGateway option" where
  "exec_gateway (Pay ev req) gw = map_option snd (ProcessPayment ev req gw)"
| "exec_gateway (Trigger t0 clk t1) gw = map_option snd (TriggerReconciliation t0 clk t1 gw)"
| "exec_gateway (NetworkChange st) gw = Some (SetNetworkStatus st gw)"
| "exec_gateway (ScreeningSwitch b) gw = Some (SetFraudScreeningEnabled b gw)"
| "exec_gateway (KeyRegistration t k) gw = Some (RegisterTerminalKey t k gw)"

inductive gateway_step :: "PaymentGateway \<Rightarrow> PaymentGateway \<Rightarrow> bool" where
  "exec_gateway op gw = Some gw' \<Longrightarrow> gateway_step gw gw'"

inductive_cases gateway_stepE: "gateway_step gw gw'"

section \<open>How a payment is processed\<close>

text \<open>The four ways a payment ends: from the cache, at the QR gate, offline, online.\<close>

lemma ProcessPayment_cases:
  assumes "ProcessPayment ev req0 gw0 = Some (resp, gw')"
  obtains (cached) "cached_response req0 gw0 = Some resp" "gw' = gw0\<lparr>requestCounter := requestCounter gw0 + 1\<rparr>"
  | (qr) gw req where "gw = gw0\<lparr>requestCounter := requestCounter gw0 + 1\<rparr>" "req = fill_defaults ev req0"
      "cached_response req0 gw0 = None" "check_dynamic_qr ev req gw = Some resp"
      "gw' = remember (IdempotencyKey req0) resp gw"
  | (routed) gw req gw1 where "gw = gw0\<lparr>requestCounter := requestCounter gw0 + 1\<rparr>" "req = fill_defaults ev req0"
      "cached_response req0 gw0 = None" "check_dynamic_qr ev req gw = None"
      "route_payment ev req gw = Some (resp, gw1)" "gw' = remember (IdempotencyKey req0) resp gw1"
proof -
  have "IdempotencyKey (fill_defaults ev req0) = IdempotencyKey req0"
    by (simp add: fill_defaults_def Let_def)
  then show ?thesis
    using assms that by (fastforce simp: ProcessPayment_def Let_def cached_response_def split: option.splits if_splits)
qed

lemma remember_other [simp]:
  "networkStatus (remember k r gw) = networkStatus gw" "terminalKeys (remember k r gw) = terminalKeys gw"
  "gw_ledger (remember k r gw) = gw_ledger gw" "fraudEngine (remember k r gw) = fraudEngine gw"
  "edgeAuthorizer (remember k r gw) = edgeAuthorizer gw" "edgeWAL (remember k r gw) = edgeWAL gw"
  "gw_reconciler (remember k r gw) = gw_reconciler gw"
  by (simp_all add: remember_def)

lemma screen_request_frame:
  assumes "screen_request ev req gw = (out, gw1)"
  shows "idempotency gw1 = idempotency gw" "gw_ledger gw1 = gw_ledger gw" "edgeWAL gw1 = edgeWAL gw"
    "edgeAuthorizer gw1 = edgeAuthorizer gw" "gw_reconciler gw1 = gw_reconciler gw"
  using assms by (auto simp: screen_request_def Let_def split: if_splits option.splits prod.splits)

lemma handleOnlinePayment_cases:
  assumes "handleOnlinePayment ev req gw = (resp, gw')"
  obtains (declined) "fst (screen_request ev req gw) = Inl resp" "gw' = snd (screen_request ev req gw)"
  | (paid) score l where "fst (screen_request ev req gw) = Inr score"
      "pay_from_ledger ev req score (gw_ledger gw) = (resp, l)"
      "gw' = snd (screen_request ev req gw)\<lparr>gw_ledger := l\<rparr>"
proof -
  obtain out gw1 where s: "screen_request ev req gw = (out, gw1)" by force
  show ?thesis
    using assms that s screen_request_frame(2)[OF s]
    by (auto simp: handleOnlinePayment_def split: sum.splits prod.splits)
qed

lemma handleOfflinePayment_cases:
  assumes "handleOfflinePayment ev req gw = Some (resp, gw')"
  obtains (no_token) "OfflineToken req = None" "\<exists>c m. resp = NewDeclineResponse c m 0 \<and> c \<noteq> CodeApproved" "gw' = gw"
  | (refused) tok d ea where "OfflineToken req = Some tok"
      "AuthorizeOffline (env_ed ev) (env_auth_time ev) tok (req_Amount req) (edgeAuthorizer gw) = Some (d, ea)"
      "\<not> dec_Approved d" "resp = NewDeclineResponse (dec_ReasonCode d) (dec_Message d) 0" "gw' = gw\<lparr>edgeAuthorizer := ea\<rparr>"
  | (log_failed) tok d ea e s where "OfflineToken req = Some tok"
      "AuthorizeOffline (env_ed ev) (env_auth_time ev) tok (req_Amount req) (edgeAuthorizer gw) = Some (d, ea)"
      "dec_Approved d" "Append (env_codec ev) (env_io ev) (queued_tx req tok (dec_SequenceNum d)) (edgeWAL gw) = (Some e, s)"
      "\<exists>m. resp = NewDeclineResponse CodeSystemError m 0" "gw' = gw\<lparr>edgeAuthorizer := ea, edgeWAL := s\<rparr>"
  | (queued) tok d ea s where "OfflineToken req = Some tok"
      "AuthorizeOffline (env_ed ev) (env_auth_time ev) tok (req_Amount req) (edgeAuthorizer gw) = Some (d, ea)"
      "dec_Approved d" "Append (env_codec ev) (env_io ev) (queued_tx req tok (dec_SequenceNum d)) (edgeWAL gw) = (None, s)"
      "resp = NewOfflineApprovalResponse (req_TxID req) (req_AccountID req) (req_Amount req) (TokenID tok)"
      "gw' = gw\<lparr>edgeAuthorizer := ea, edgeWAL := s\<rparr>"
  using assms that
  by (fastforce simp: handleOfflinePayment_def Let_def split: option.splits prod.splits if_splits)

section \<open>The gateway only moves money\<close>

lemma reaches_holds:
  "ledger_reaches l (snd (ReserveFunds clk a x t l))"
  "ledger_reaches l (snd (CommitHold clk a d x t l))"
  "ledger_reaches l (snd (ReleaseHold clk a x t l))"
  using reaches_op[of "Op_Reserve clk a x t"] reaches_op[of "Op_CommitHold clk a d x t"]
    reaches_op[of "Op_Release clk a x t"] by simp_all

lemma pay_from_ledger_reaches: "ledger_reaches l (snd (pay_from_ledger ev req score l))"
proof -
  let ?a = "req_AccountID req" and ?x = "req_Amount req" and ?t = "req_TxID req"
  let ?l1 = "snd (ReserveFunds (env_reserve_clk ev) ?a ?x ?t l)"
  let ?l2 = "snd (CommitHold (env_commit_clk ev) ?a (req_MerchantID req) ?x ?t ?l1)"
  have "ledger_reaches l ?l1" by (rule reaches_holds)
  moreover have "ledger_reaches l ?l2" by (rule reaches_trans[OF reaches_holds(1) reaches_holds(2)])
  moreover have "ledger_reaches l (snd (ReleaseHold (env_release_clk ev) ?a ?x ?t ?l2))"
    by (rule reaches_trans[OF calculation(2) reaches_holds(3)])
  ultimately show ?thesis
    by (auto simp: pay_from_ledger_def split: prod.splits sum.splits option.splits)
qed

lemma route_ledger:
  assumes "route_payment ev req gw = Some (resp, gw')"
  shows "ledger_reaches (gw_ledger gw) (gw_ledger gw') \<and> idempotency gw' = idempotency gw"
proof (cases "networkStatus gw = NetworkDisconnected")
  case True
  then show ?thesis
    using assms by (auto simp: route_payment_def elim!: handleOfflinePayment_cases)
next
  case False
  obtain out gw1 where s: "screen_request ev req gw = (out, gw1)" by force
  note fr = screen_request_frame[OF s]
  from False assms have "handleOnlinePayment ev req gw = (resp, gw')" by (simp add: route_payment_def)
  then show ?thesis
  proof (cases rule: handleOnlinePayment_cases)
    case (paid score l)
    then show ?thesis using pay_from_ledger_reaches[of "gw_ledger gw" ev req score] fr s by simp
  qed (simp add: s fr)
qed

lemma exec_gateway_ledger:
  assumes "exec_gateway op gw = Some gw'"
  shows "ledger_reaches (gw_ledger gw) (gw_ledger gw')"
proof (cases op)
  case (Pay ev req)
  then obtain resp where "ProcessPayment ev req gw = Some (resp, gw')" using assms by auto
  then show ?thesis by (cases rule: ProcessPayment_cases) (auto dest: route_ledger)
next
  case (Trigger t0 clk t1)
  then show ?thesis
    using assms by (auto simp: TriggerReconciliation_def loop_effect_def dest!: Replay_effect split: option.splits)
qed (use assms in \<open>auto simp: SetNetworkStatus_def SetFraudScreeningEnabled_def RegisterTerminalKey_def\<close>)

interpretation gw: transfer_system
  "\<lambda>gw. ledger_wf (gw_ledger gw)" "\<lambda>gw. account_names (gw_ledger gw)" "\<lambda>gw. book (gw_ledger gw)" gateway_step
proof
  fix s t :: PaymentGateway and k c
  have steps: "ledger_step\<^sup>*\<^sup>* (gw_ledger s) (gw_ledger t)" if "gateway_step s t"
    using that by (auto elim!: gateway_stepE dest!: exec_gateway_ledger simp: ledger_reaches_def)
  show "ledger_wf (gw_ledger t)" if "ledger_wf (gw_ledger s)" "gateway_step s t"
    using led.wf_steps[OF steps] that by blast
  show "finite (account_names (gw_ledger s))" if "ledger_wf (gw_ledger s)"
    using that by (rule led.finite_names)
  show "book (gw_ledger s) (k, c) = 0" if "ledger_wf (gw_ledger s)" "k \<notin> account_names (gw_ledger s)"
    using that by (rule led.bk_outside)
  show "account_names (gw_ledger s) \<subseteq> account_names (gw_ledger t)" if "ledger_wf (gw_ledger s)" "gateway_step s t"
    using led.steps_names[OF steps] that by blast
  show "\<exists>ms. book (gw_ledger t) = apply_moves ms (book (gw_ledger s)) \<and> moves_within (account_names (gw_ledger t)) ms"
    if "ledger_wf (gw_ledger s)" "gateway_step s t"
    using led.steps_moves[OF steps] that by blast
qed

section \<open>The response cache\<close>

lemma remember_keeps:
  "cached_response req gw0 = None \<Longrightarrow> idempotency gw = idempotency gw0 \<Longrightarrow> idempotency gw0 k = Some r \<Longrightarrow>
   idempotency (remember (IdempotencyKey req) resp gw) k = Some r"
  by (auto simp: cached_response_def remember_def split: if_splits)

lemma exec_gateway_keeps_cache:
  assumes "exec_gateway op gw = Some gw'" and "idempotency gw k = Some r"
  shows "idempotency gw' k = Some r"
proof (cases op)
  case (Pay ev req)
  then obtain resp where "ProcessPayment ev req gw = Some (resp, gw')" using assms by auto
  then show ?thesis
  proof (cases rule: ProcessPayment_cases)
    case (qr gw1 req1)
    then show ?thesis using remember_keeps[of req gw gw1 k r resp] assms(2) by simp
  next
    case (routed gw1 req1 gw2)
    then show ?thesis using remember_keeps[of req gw gw2 k r resp] assms(2) route_ledger[OF routed(5)] by simp
  qed (use assms(2) in simp)
qed (use assms in \<open>auto simp: SetNetworkStatus_def SetFraudScreeningEnabled_def RegisterTerminalKey_def
  TriggerReconciliation_def split: option.splits\<close>)

lemma steps_keep_cache:
  "gateway_step\<^sup>*\<^sup>* gw gw' \<Longrightarrow> idempotency gw k = Some r \<Longrightarrow> idempotency gw' k = Some r"
  by (induction rule: rtranclp_induct) (auto elim!: gateway_stepE intro: exec_gateway_keeps_cache)

lemma ProcessPayment_caches:
  assumes "ProcessPayment ev req gw = Some (resp, gw')" and "IdempotencyKey req \<noteq> ''''"
  shows "idempotency gw' (IdempotencyKey req) = Some resp"
  using assms by (cases rule: ProcessPayment_cases) (auto simp: cached_response_def remember_def)

section \<open>What a payment moves\<close>

text \<open>
  Without any assumption on the ledger. The commit finds the amount in the reserved bucket unless that was overdrawn
  or the reservation made it overflow; then the release, which tests the same, does not move the hold back.
\<close>

lemma decline_reason: "rsp_ReasonCode (NewDeclineResponse c m score) = c"
  by (simp add: NewDeclineResponse_def)

lemma transfer_of_hold:
  "transfer (a, Reserved) (m, Online) x (transfer (a, Online) (a, Reserved) x b) = transfer (a, Online) (m, Online) x b"
  by (auto simp: transfer_apply fun_eq_iff)

lemma pay_from_ledger_exact:
  fixes req l
  defines "a \<equiv> req_AccountID req" and "x \<equiv> req_Amount req"
  shows "authorized (fst (pay_from_ledger ev req score l)) \<longleftrightarrow>
      covered x (a, Online) (book l) \<and> sint x \<le> sint (book l (a, Reserved) + x)"
    and "book (snd (pay_from_ledger ev req score l)) =
      (if \<not> covered x (a, Online) (book l) then book l
       else if sint x \<le> sint (book l (a, Reserved) + x) then transfer (a, Online) (req_MerchantID req, Online) x (book l)
       else transfer (a, Online) (a, Reserved) x (book l))"
    and "covered x (a, Online) (book l) \<Longrightarrow> \<not> sint x \<le> sint (book l (a, Reserved) + x) \<Longrightarrow>
      rsp_ReasonCode (fst (pay_from_ledger ev req score l)) = CodeSystemError"
proof -
  let ?m = "req_MerchantID req" and ?t = "req_TxID req"
  note res = ReserveFunds_ok[of "env_reserve_clk ev" a x ?t l] ReserveFunds_book[of "env_reserve_clk ev" a x ?t l]
  have "(authorized (fst (pay_from_ledger ev req score l)) \<longleftrightarrow>
        covered x (a, Online) (book l) \<and> sint x \<le> sint (book l (a, Reserved) + x)) \<and>
      book (snd (pay_from_ledger ev req score l)) =
      (if \<not> covered x (a, Online) (book l) then book l
       else if sint x \<le> sint (book l (a, Reserved) + x) then transfer (a, Online) (?m, Online) x (book l)
       else transfer (a, Online) (a, Reserved) x (book l)) \<and>
      (covered x (a, Online) (book l) \<and> \<not> sint x \<le> sint (book l (a, Reserved) + x) \<longrightarrow>
        rsp_ReasonCode (fst (pay_from_ledger ev req score l)) = CodeSystemError)"
  proof (cases "covered x (a, Online) (book l)")
    case True
    then obtain r l1 where r: "ReserveFunds (env_reserve_clk ev) a x ?t l = (Inr r, l1)"
      using res(1) by (cases "ReserveFunds (env_reserve_clk ev) a x ?t l") auto
    have l1: "book l1 = transfer (a, Online) (a, Reserved) x (book l)" using True res(2) r by (simp add: guarded_transfer_def)
    let ?C = "CommitHold (env_commit_clk ev) a ?m x ?t l1"
    have hold: "covered x (a, Reserved) (book l1) \<longleftrightarrow> sint x \<le> sint (book l (a, Reserved) + x)"
      using True by (simp add: l1 covered_def transfer_apply)
    then have com: "fst ?C = None \<longleftrightarrow> sint x \<le> sint (book l (a, Reserved) + x)"
      "book (snd ?C) = (if sint x \<le> sint (book l (a, Reserved) + x) then transfer (a, Online) (?m, Online) x (book l) else book l1)"
      by (simp_all add: CommitHold_ok CommitHold_book guarded_transfer_def) (simp add: l1 transfer_of_hold)
    show ?thesis
    proof (cases "fst ?C")
      case None
      then show ?thesis
        using True r com by (cases ?C) (auto simp: pay_from_ledger_def a_def[symmetric] x_def[symmetric])
    next
      case (Some e)
      then have no: "\<not> sint x \<le> sint (book (snd ?C) (a, Reserved))" using com hold True l1 by (simp add: covered_def)
      then show ?thesis
        using True r com Some l1
        by (cases ?C) (auto simp: pay_from_ledger_def a_def[symmetric] x_def[symmetric] ReleaseHold_book decline_reason)
    qed
  next
    case False
    then obtain e where "fst (ReserveFunds (env_reserve_clk ev) a x ?t l) = Inl e" using res(1)
      by (cases "fst (ReserveFunds (env_reserve_clk ev) a x ?t l)") auto
    with False res(2) show ?thesis
      by (auto simp: pay_from_ledger_def a_def[symmetric] x_def[symmetric] guarded_transfer_def split: prod.splits if_splits)
  qed
  then show "authorized (fst (pay_from_ledger ev req score l)) \<longleftrightarrow>
      covered x (a, Online) (book l) \<and> sint x \<le> sint (book l (a, Reserved) + x)"
    "book (snd (pay_from_ledger ev req score l)) =
      (if \<not> covered x (a, Online) (book l) then book l
       else if sint x \<le> sint (book l (a, Reserved) + x) then transfer (a, Online) (req_MerchantID req, Online) x (book l)
       else transfer (a, Online) (a, Reserved) x (book l))"
    "covered x (a, Online) (book l) \<Longrightarrow> \<not> sint x \<le> sint (book l (a, Reserved) + x) \<Longrightarrow>
      rsp_ReasonCode (fst (pay_from_ledger ev req score l)) = CodeSystemError" by blast+
qed

lemma pay_from_ledger_outcome:
  assumes "ledger_wf l" and "solvent (account_names l) (book l)"
  shows "authorized (fst (pay_from_ledger ev req score l)) \<longleftrightarrow> covered (req_Amount req) (req_AccountID req, Online) (book l)"
    and "book (snd (pay_from_ledger ev req score l)) =
      guarded_transfer (req_AccountID req, Online) (req_MerchantID req, Online) (req_Amount req) (book l)"
proof -
  let ?b = "book l (req_AccountID req, Reserved)" and ?x = "req_Amount req"
  have "sint ?x \<le> sint (?b + ?x)" if cov: "covered ?x (req_AccountID req, Online) (book l)"
  proof -
    note room = solvent_reserve[OF assms cov]
    have "sint (?b + ?x) = sint ?b + sint ?x" using room cov by (intro sint_add_no_overflow) (simp_all add: covered_def)
    with room(1) show ?thesis by simp
  qed
  then show "authorized (fst (pay_from_ledger ev req score l)) \<longleftrightarrow> covered ?x (req_AccountID req, Online) (book l)"
    "book (snd (pay_from_ledger ev req score l)) =
      guarded_transfer (req_AccountID req, Online) (req_MerchantID req, Online) ?x (book l)"
    by (auto simp: pay_from_ledger_exact guarded_transfer_def)
qed

lemma screen_request_declines: "fst (screen_request ev req gw) = Inl resp \<Longrightarrow> \<not> authorized resp"
  by (auto simp: screen_request_def Let_def split: if_splits option.splits prod.splits)

lemma check_dynamic_qr_declines:
  "check_dynamic_qr ev req gw = Some resp \<Longrightarrow> \<not> authorized resp \<and> consistent_response resp"
  by (auto simp: check_dynamic_qr_def split: option.splits if_splits prod.splits)

definition screening_passes :: "env \<Rightarrow> PaymentRequest \<Rightarrow> PaymentGateway \<Rightarrow> bool" where
  "screening_passes ev req gw \<longleftrightarrow> (\<exists>score. fst (screen_request ev req gw) = Inr score)"

text \<open>What the ledger does with an online payment that passed the gate and the screening.\<close>

definition funded :: "PaymentRequest \<Rightarrow> book \<Rightarrow> bool" where
  "funded req b \<longleftrightarrow> 0 < sint (req_Amount req) \<and> sint (req_Amount req) \<le> sint (b (req_AccountID req, Online))"

definition committable :: "PaymentRequest \<Rightarrow> book \<Rightarrow> bool" where
  "committable req b \<longleftrightarrow> sint (req_Amount req) \<le> sint (b (req_AccountID req, Reserved) + req_Amount req)"

lemma handleOnlinePayment_exact:
  assumes "handleOnlinePayment ev req gw = (resp, gw')"
  shows "(authorized resp \<longleftrightarrow> screening_passes ev req gw \<and> funded req (book (gw_ledger gw)) \<and> committable req (book (gw_ledger gw)))
    \<and> book (gw_ledger gw') =
        (if authorized resp
         then transfer (req_AccountID req, Online) (req_MerchantID req, Online) (req_Amount req) (book (gw_ledger gw))
         else if screening_passes ev req gw \<and> funded req (book (gw_ledger gw))
         then transfer (req_AccountID req, Online) (req_AccountID req, Reserved) (req_Amount req) (book (gw_ledger gw))
         else book (gw_ledger gw))
    \<and> (screening_passes ev req gw \<and> funded req (book (gw_ledger gw)) \<and> \<not> committable req (book (gw_ledger gw)) \<longrightarrow>
        rsp_ReasonCode resp = CodeSystemError)
    \<and> edgeWAL gw' = edgeWAL gw \<and> edgeAuthorizer gw' = edgeAuthorizer gw"
proof -
  obtain out gw1 where s: "screen_request ev req gw = (out, gw1)" by force
  note fr = screen_request_frame[OF s]
  from assms show ?thesis
  proof (cases rule: handleOnlinePayment_cases)
    case declined
    then show ?thesis using screen_request_declines[OF declined(1)] s fr by (simp add: screening_passes_def)
  next
    case (paid score l)
    have "screening_passes ev req gw" using paid(1) by (simp add: screening_passes_def)
    then show ?thesis
      using pay_from_ledger_exact[where ev = ev and req = req and score = score and l = "gw_ledger gw"] paid s fr
      by (simp add: funded_def committable_def covered_def)
  qed
qed

section \<open>Consistent responses\<close>

lemma screening_decline_reason:
  "\<not> fd_Approved (fst (ScreenTransaction now tx a b dev mer ip x qr g)) \<Longrightarrow>
   fd_ReasonCode (fst (ScreenTransaction now tx a b dev mer ip x qr g)) \<noteq> CodeApproved"
  by (auto simp: ScreenTransaction_def assess_def fraud_decline_def Let_def split: prod.splits if_splits)

lemma offline_decline_reason:
  "AuthorizeOffline ed t tok x ea = Some (d, ea') \<Longrightarrow> \<not> dec_Approved d \<Longrightarrow> dec_ReasonCode d \<noteq> CodeApproved"
  by (auto simp: AuthorizeOffline_def decline_def Let_def split: option.splits bool.splits if_splits)

lemma pay_from_ledger_consistent: "consistent_response (fst (pay_from_ledger ev req score l))"
  by (auto simp: pay_from_ledger_def split: prod.splits sum.splits option.splits)

lemma route_consistent:
  assumes "route_payment ev req gw = Some (resp, gw')"
  shows "consistent_response resp"
proof (cases "networkStatus gw = NetworkDisconnected")
  case True
  then have "handleOfflinePayment ev req gw = Some (resp, gw')" using assms by (simp add: route_payment_def)
  then show ?thesis by (cases rule: handleOfflinePayment_cases) (auto dest: offline_decline_reason)
next
  case False
  then have "handleOnlinePayment ev req gw = (resp, gw')" using assms by (simp add: route_payment_def)
  then show ?thesis
  proof (cases rule: handleOnlinePayment_cases)
    case declined
    then show ?thesis
      using screening_decline_reason
      by (auto simp: screen_request_def Let_def case_prod_beta split: if_splits option.splits)
  next
    case (paid score l)
    then show ?thesis using pay_from_ledger_consistent[of ev req score "gw_ledger gw"] by simp
  qed
qed

definition cache_consistent :: "PaymentGateway \<Rightarrow> bool" where
  "cache_consistent gw \<longleftrightarrow> (\<forall>k r. idempotency gw k = Some r \<longrightarrow> consistent_response r)"

lemma remember_consistent:
  "cache_consistent gw \<Longrightarrow> consistent_response resp \<Longrightarrow> cache_consistent (remember k resp gw)"
  by (auto simp: cache_consistent_def remember_def)

lemma cache_consistent_cong: "idempotency gw' = idempotency gw \<Longrightarrow> cache_consistent gw \<Longrightarrow> cache_consistent gw'"
  by (simp add: cache_consistent_def)

lemma ProcessPayment_consistent:
  assumes "cache_consistent gw" and "ProcessPayment ev req gw = Some (resp, gw')"
  shows "consistent_response resp \<and> cache_consistent gw'"
  using assms(2)
proof (cases rule: ProcessPayment_cases)
  case cached
  then show ?thesis using assms(1) by (auto simp: cache_consistent_def cached_response_def split: if_splits)
next
  case (qr gw1 req1)
  then show ?thesis
    using check_dynamic_qr_declines[OF qr(4)] cache_consistent_cong[OF _ assms(1), of gw1]
    by (auto intro!: remember_consistent)
next
  case (routed gw1 req1 gw2)
  then show ?thesis
    using route_consistent[OF routed(5)] route_ledger[OF routed(5)] cache_consistent_cong[OF _ assms(1), of gw2]
    by (auto intro!: remember_consistent)
qed

lemma exec_gateway_consistent:
  assumes "cache_consistent gw" and "exec_gateway op gw = Some gw'"
  shows "cache_consistent gw'"
proof (cases op)
  case (Pay ev req)
  then show ?thesis using assms ProcessPayment_consistent by auto
qed (use assms in \<open>auto simp: SetNetworkStatus_def SetFraudScreeningEnabled_def RegisterTerminalKey_def
  TriggerReconciliation_def cache_consistent_def split: option.splits\<close>)

lemma steps_consistent: "gateway_step\<^sup>*\<^sup>* gw gw' \<Longrightarrow> cache_consistent gw \<Longrightarrow> cache_consistent gw'"
  by (induction rule: rtranclp_induct) (auto elim!: gateway_stepE intro: exec_gateway_consistent)

section \<open>The offline path\<close>

lemma tx_at_append:
  assumes "wal_wf s" and "Append c io tx s = (None, s')"
  shows "ReadAll s' = ReadAll s @ [hashed tx]"
    and "ReadAllPending s' = ReadAllPending s @ filter is_pending [hashed tx]"
proof -
  note app = Append_success[OF assms(2)]
  have "TxID tx \<notin> set (order s)" using app assms(1) by (auto simp: wal_wf_def)
  then have "map (tx_at s') (order s) = map (tx_at s) (order s)"
    using app by (intro map_cong) (auto simp: tx_at_def)
  then have "map (tx_at s') (order s') = map (tx_at s) (order s) @ [hashed tx]"
    using app by (simp add: tx_at_def)
  then show "ReadAll s' = ReadAll s @ [hashed tx]"
    "ReadAllPending s' = ReadAllPending s @ filter is_pending [hashed tx]"
    by (simp_all add: ReadAll_def ReadAllPending_def)
qed

lemma hashed_queued [simp]: "hashed (queued_tx req tok n) = queued_tx req tok n"
  by (simp add: hashed_def queued_tx_def ComputeHash_def Let_def)

lemma queued_tx_fields [simp]:
  "TxID (queued_tx req tok n) = req_TxID req" "tx_AccountID (queued_tx req tok n) = req_AccountID req"
  "tx_MerchantID (queued_tx req tok n) = req_MerchantID req" "tx_Amount (queued_tx req tok n) = req_Amount req"
  "tx_Status (queued_tx req tok n) = ''PENDING''" "tx_TokenID (queued_tx req tok n) = TokenID tok"
  by (simp_all add: queued_tx_def Let_def)

lemma is_pending_queued [simp]: "is_pending (queued_tx req tok n)"
  by (simp add: is_pending_def)

lemma fill_defaults_fields [simp]:
  "req_AccountID (fill_defaults ev req) = req_AccountID req" "req_MerchantID (fill_defaults ev req) = req_MerchantID req"
  "req_Amount (fill_defaults ev req) = req_Amount req" "OfflineToken (fill_defaults ev req) = OfflineToken req"
  "IdempotencyKey (fill_defaults ev req) = IdempotencyKey req"
  by (simp_all add: fill_defaults_def Let_def)

lemma offline_response [simp]: "IsOffline (NewOfflineApprovalResponse t a x k)"
  by (simp add: NewOfflineApprovalResponse_def)

text \<open>What an offline payment does: approved and queued, or declined with nothing queued.\<close>

definition offline_effect :: "env \<Rightarrow> PaymentRequest \<Rightarrow> PaymentGateway \<Rightarrow> PaymentResponse \<Rightarrow> PaymentGateway \<Rightarrow> bool" where
  "offline_effect ev req gw resp gw' \<longleftrightarrow>
     gw_ledger gw' = gw_ledger gw \<and> gw_reconciler gw' = gw_reconciler gw \<and> wal_wf (edgeWAL gw')
     \<and> (authorized resp \<longrightarrow> IsOffline resp \<and> (\<exists>tok. OfflineToken req = Some tok
          \<and> eligible (env_ed ev) (env_auth_time ev) tok (edgeAuthorizer gw)
          \<and> within_floor tok (req_Amount req) (edgeAuthorizer gw)
          \<and> edgeAuthorizer gw' = charged tok (req_Amount req) (edgeAuthorizer gw)
          \<and> ReadAllPending (edgeWAL gw') = ReadAllPending (edgeWAL gw)
              @ [queued_tx req tok (sequenceNum (edgeAuthorizer gw) + 1)]))
     \<and> (\<not> authorized resp \<longrightarrow> ReadAll (edgeWAL gw') = ReadAll (edgeWAL gw)
          \<and> ReadAllPending (edgeWAL gw') = ReadAllPending (edgeWAL gw))"

lemma handleOfflinePayment_outcome:
  assumes "wal_wf (edgeWAL gw)" and "handleOfflinePayment ev req gw = Some (resp, gw')"
  shows "offline_effect ev req gw resp gw'"
  using assms(2)
proof (cases rule: handleOfflinePayment_cases)
  case no_token
  then show ?thesis using assms(1) by (auto simp: offline_effect_def)
next
  case (refused tok d ea)
  then show ?thesis using assms(1) by (auto simp: offline_effect_def)
next
  case (log_failed tok d ea e s)
  note keep = Append_error_keeps[OF log_failed(4)]
  have "ReadAll s = ReadAll (edgeWAL gw)" "ReadAllPending s = ReadAllPending (edgeWAL gw)"
    using keep by (simp_all add: ReadAll_def ReadAllPending_def tx_at_def[abs_def])
  then show ?thesis using log_failed Append_wf[OF assms(1) log_failed(4)] by (auto simp: offline_effect_def)
next
  case (queued tok d ea s)
  have ok: "eligible (env_ed ev) (env_auth_time ev) tok (edgeAuthorizer gw)"
    "within_floor tok (req_Amount req) (edgeAuthorizer gw)" "ea = charged tok (req_Amount req) (edgeAuthorizer gw)"
    using AuthorizeOffline_cases[OF queued(2)] queued(3) by (auto simp: offline_effect_def)
  then have "dec_SequenceNum d = sequenceNum (edgeAuthorizer gw) + 1"
    using AuthorizeOffline_approves[OF ok(1,2)] queued(2) by (auto simp: offline_effect_def)
  then show ?thesis
    using queued ok tx_at_append(2)[OF assms(1) queued(4)] Append_wf[OF assms(1) queued(4)]
    by (auto simp: offline_effect_def)
qed

section \<open>Between two reconciliations\<close>

fun triggers :: "gateway_op \<Rightarrow> bool" where
  "triggers (Trigger t0 clk t1) = True"
| "triggers _ = False"

inductive calm_step :: "PaymentGateway \<Rightarrow> PaymentGateway \<Rightarrow> bool" where
  "exec_gateway op gw = Some gw' \<Longrightarrow> \<not> triggers op \<Longrightarrow> calm_step gw gw'"

inductive_cases calm_stepE: "calm_step gw gw'"

text \<open>The queue only grows, and the reconciler stays as it is.\<close>

definition queue_grows :: "PaymentGateway \<Rightarrow> PaymentGateway \<Rightarrow> bool" where
  "queue_grows gw gw' \<longleftrightarrow> wal_wf (edgeWAL gw') \<and> gw_reconciler gw' = gw_reconciler gw
     \<and> set (ReadAllPending (edgeWAL gw)) \<subseteq> set (ReadAllPending (edgeWAL gw'))"

lemma queue_grows_same:
  "wal_wf (edgeWAL gw) \<Longrightarrow> edgeWAL gw' = edgeWAL gw \<Longrightarrow> gw_reconciler gw' = gw_reconciler gw \<Longrightarrow> queue_grows gw gw'"
  by (simp add: queue_grows_def)

lemma offline_effect_grows: "offline_effect ev req gw resp gw' \<Longrightarrow> queue_grows gw gw'"
  by (cases "authorized resp") (auto simp: offline_effect_def queue_grows_def)

lemma route_grows:
  assumes "route_payment ev req gw = Some (resp, gw')" and "wal_wf (edgeWAL gw)"
  shows "queue_grows gw gw'"
proof (cases "networkStatus gw = NetworkDisconnected")
  case True
  then have "handleOfflinePayment ev req gw = Some (resp, gw')" using assms(1) by (simp add: route_payment_def)
  then show ?thesis by (rule offline_effect_grows[OF handleOfflinePayment_outcome[OF assms(2)]])
next
  case False
  obtain out gw1 where s: "screen_request ev req gw = (out, gw1)" by force
  note fr = screen_request_frame[OF s]
  have "handleOnlinePayment ev req gw = (resp, gw')" using False assms(1) by (simp add: route_payment_def)
  then show ?thesis
    by (cases rule: handleOnlinePayment_cases) (use assms(2) s fr in \<open>auto intro!: queue_grows_same\<close>)
qed

lemma calm_step_grows:
  assumes "calm_step gw gw'" and "wal_wf (edgeWAL gw)"
  shows "queue_grows gw gw'"
proof -
  obtain op where op: "exec_gateway op gw = Some gw'" "\<not> triggers op" using assms(1) by (rule calm_stepE)
  show ?thesis
  proof (cases op)
    case (Pay ev req)
    then obtain resp where "ProcessPayment ev req gw = Some (resp, gw')" using op by auto
    then show ?thesis
    proof (cases rule: ProcessPayment_cases)
      case (routed g r gw1)
      then have "queue_grows g gw1" using assms(2) by (intro route_grows) simp_all
      with routed show ?thesis by (simp add: queue_grows_def)
    qed (use assms(2) in \<open>auto intro!: queue_grows_same\<close>)
  qed (use op assms(2) in \<open>auto simp: SetNetworkStatus_def SetFraudScreeningEnabled_def RegisterTerminalKey_def
    intro!: queue_grows_same\<close>)
qed

lemma calm_steps_grow:
  "calm_step\<^sup>*\<^sup>* gw gw' \<Longrightarrow> wal_wf (edgeWAL gw) \<Longrightarrow> queue_grows gw gw'"
proof (induction rule: rtranclp_induct)
  case base
  then show ?case by (simp add: queue_grows_same)
next
  case (step gw1 gw2)
  then have "queue_grows gw gw1" "queue_grows gw1 gw2" using calm_step_grows by (auto simp: queue_grows_def)
  then show ?case by (auto simp: queue_grows_def)
qed

end
