(* ===== verification/Reconcile_Claims.thy ===== *)
theory Reconcile_Claims
  imports Reconcile_Props
begin

text \<open>
  Properties of the reconciliation: what settling one transaction does in every case, what a replay settles and
  that it settles nothing twice, conservation of money, the accounting of the report, and when a replay returns.
\<close>

section \<open>What a replay settles\<close>

text \<open>
  Of a batch, the transactions whose hash was not processed before, in this batch or earlier; and the book after
  settling a list of transactions one after the other, if none of them blocks.
\<close>

fun fresh :: "string set \<Rightarrow> QueuedTransaction list \<Rightarrow> QueuedTransaction list" where
  "fresh seen [] = []"
| "fresh seen (tx # txs) =
     (if tx_hash tx \<in> seen then fresh seen txs else tx # fresh (insert (tx_hash tx) seen) txs)"

fun settle_all :: "bool \<Rightarrow> string \<Rightarrow> QueuedTransaction list \<Rightarrow> book \<Rightarrow> book option" where
  "settle_all u r [] b = Some b"
| "settle_all u r (tx # txs) b = (if settle_blocks u r tx b then None else settle_all u r txs (settle_book u r tx b))"

lemma fresh_hashes:
  "tx_hash ` set (fresh seen txs) = tx_hash ` set txs - seen" "distinct (map tx_hash (fresh seen txs))"
  "set (fresh seen txs) \<subseteq> set txs"
  by (induction seen txs rule: fresh.induct) auto

lemma length_fresh: "length (fresh seen txs) \<le> length txs"
  by (induction seen txs rule: fresh.induct) auto

lemma replay_loop_settles:
  assumes "u = useDeficitReserve r" and "res = DeficitReserveAccountID l"
  shows "case replay_loop clk i txs (l, s, r, rep) of
     None \<Rightarrow> settle_all u res (fresh (seenHashes r) txs) (book l) = None
   | Some (l', s', r', rep') \<Rightarrow> settle_all u res (fresh (seenHashes r) txs) (book l) = Some (book l')
       \<and> DuplicateCount rep' + length (fresh (seenHashes r) txs) = DuplicateCount rep + length txs"
  using assms
proof (induction txs arbitrary: i l s r rep)
  case (Cons tx txs)
  show ?case
  proof (cases "tx_hash tx \<in> seenHashes r")
    case True
    then have "replay_tx (clk i) tx (l, s, r, rep) =
        Some (l, UpdateStatus (TxID tx) ''DUPLICATE'' s, r, rep\<lparr>DuplicateCount := DuplicateCount rep + 1\<rparr>)"
      by (simp add: replay_tx_def)
    with True Cons.IH[OF Cons.prems, where i = "Suc i" and s = "UpdateStatus (TxID tx) ''DUPLICATE'' s"
        and rep = "rep\<lparr>DuplicateCount := DuplicateCount rep + 1\<rparr>"]
    show ?thesis by (auto split: option.splits)
  next
    case False
    let ?r = "r\<lparr>seenHashes := insert (tx_hash tx) (seenHashes r)\<rparr>"
    have one: "replay_tx (clk i) tx (l, s, r, rep) = settle_tx (clk i) tx (l, s, ?r, rep)"
      using False by (simp add: replay_tx_def)
    note spec = settle_tx_spec[where clk = "clk i" and tx = tx and l = l and s = s and r = ?r and rep = rep]
    show ?thesis
    proof (cases "settle_tx (clk i) tx (l, s, ?r, rep)")
      case None
      with one spec False Cons.prems show ?thesis by simp
    next
      case (Some st1)
      obtain l1 s1 r1 rep1 where st1: "st1 = (l1, s1, r1, rep1)" by (metis surj_pair)
      have "\<not> settle_blocks u res tx (book l)" "book l1 = settle_book u res tx (book l)"
        "useDeficitReserve r1 = u" "seenHashes r1 = insert (tx_hash tx) (seenHashes r)" "DuplicateCount rep1 = DuplicateCount rep"
        using spec Some Cons.prems by (auto simp: st1 settled_def in_deficit_def split: if_splits)
      moreover have "DeficitReserveAccountID l1 = res"
        using replay_tx_effect[of "clk i" tx "(l, s, r, rep)" st1] one Some Cons.prems
        by (auto simp: tx_effect_def st1 dest: reaches_reserve)
      ultimately show ?thesis
        using Cons.IH[where i = "Suc i" and l = l1 and s = s1 and r = r1 and rep = rep1] one Some False st1 by (auto split: option.splits)
    qed
  qed
qed auto

lemma Replay_settles:
  "case Replay start clk stop l s r of
     None \<Rightarrow> settle_all (useDeficitReserve r) (DeficitReserveAccountID l)
       (fresh (seenHashes r) (SortTransactionsVectorClock (ReadAllPending s))) (book l) = None
   | Some (l', s', r', rep) \<Rightarrow> settle_all (useDeficitReserve r) (DeficitReserveAccountID l)
       (fresh (seenHashes r) (SortTransactionsVectorClock (ReadAllPending s))) (book l) = Some (book l')
       \<and> DuplicateCount rep + length (fresh (seenHashes r) (SortTransactionsVectorClock (ReadAllPending s))) = length (ReadAllPending s)"
  using replay_loop_settles[OF refl refl, where clk = clk and i = 0 and txs = "SortTransactionsVectorClock (ReadAllPending s)" and l = l and s = s
      and r = r and rep = "empty_report (length (ReadAllPending s)) start"]
  by (auto simp: Replay_def empty_report_def split: option.splits)

text \<open>
  The replays of one reconciler: in each round the mode, the ledger and the store may be any others (the ledger after
  other calls, the store with new appends or recovered from the log after a crash), and only the reconciler is handed on.
\<close>

type_synonym round = "bool \<times> ConservingLedger \<times> WALStore \<times> time \<times> (nat \<Rightarrow> nat \<Rightarrow> clock) \<times> time"

fun replay_rounds :: "round list \<Rightarrow> Reconciler \<Rightarrow> (ConservingLedger list \<times> Reconciler) option" where
  "replay_rounds [] r = Some ([], r)"
| "replay_rounds ((u, l, s, t0, clk, t1) # rounds) r =
     (case Replay t0 clk t1 l s (SetUseDeficitReserve u r) of
        None \<Rightarrow> None
      | Some (l', s', r', rep) \<Rightarrow> map_option (\<lambda>(ls, r''). (l' # ls, r'')) (replay_rounds rounds r'))"

definition round_hashes :: "round \<Rightarrow> string set" where
  "round_hashes rd = (case rd of (u, l, s, _) \<Rightarrow> tx_hash ` set (ReadAllPending s))"

definition round_batch :: "round \<Rightarrow> string set \<Rightarrow> QueuedTransaction list" where
  "round_batch rd seen = (case rd of (u, l, s, _) \<Rightarrow> fresh seen (SortTransactionsVectorClock (ReadAllPending s)))"

fun round_batches :: "round list \<Rightarrow> string set \<Rightarrow> QueuedTransaction list list" where
  "round_batches [] seen = []"
| "round_batches (rd # rounds) seen = round_batch rd seen # round_batches rounds (seen \<union> round_hashes rd)"

definition round_settles :: "round \<Rightarrow> QueuedTransaction list \<Rightarrow> ConservingLedger \<Rightarrow> bool" where
  "round_settles rd txs l' \<longleftrightarrow> (case rd of (u, l, s, _) \<Rightarrow> settle_all u (DeficitReserveAccountID l) txs (book l) = Some (book l'))"

lemma round_batch_hashes:
  "tx_hash ` set (round_batch rd seen) = round_hashes rd - seen" "distinct (map tx_hash (round_batch rd seen))"
  by (simp_all add: round_batch_def round_hashes_def fresh_hashes split: prod.split)

lemma batches_hashes:
  "tx_hash ` set (concat (round_batches rounds seen)) = \<Union> (round_hashes ` set rounds) - seen"
proof (induction rounds seen rule: round_batches.induct)
  case (2 rd rounds seen)
  then show ?case using round_batch_hashes(1)[of rd seen] by (simp add: image_Un) blast
qed simp

lemma batches_distinct: "distinct (map tx_hash (concat (round_batches rounds seen)))"
proof (induction rounds seen rule: round_batches.induct)
  case (2 rd rounds seen)
  have "tx_hash ` set (round_batch rd seen) \<inter> tx_hash ` set (concat (round_batches rounds (seen \<union> round_hashes rd))) = {}"
    unfolding batches_hashes round_batch_hashes(1) by blast
  with 2 show ?case using round_batch_hashes(2)[of rd seen] by simp
qed simp

section \<open>Properties\<close>

text \<open>
  Reconciliation conserves money. In both modes and for every batch, amounts of any sign included,
  a replay that returns leaves the total that \<open>AuditConservation\<close> reports unchanged.
\<close>

theorem replay_conserves:
  assumes "ledger_wf l" and "Replay t0 clk t1 l s r = Some (l', s', r', rep)"
    and "distinct ks" "set ks = account_names l" and "distinct ks'" "set ks' = account_names l'"
  shows "fst (snd (snd (AuditConservation ks' l'))) = fst (snd (snd (AuditConservation ks l)))"
proof -
  have "ledger_step\<^sup>*\<^sup>* l l'"
    using Replay_effect[OF assms(2)] by (simp add: loop_effect_def ledger_reaches_def)
  from led.money_steps[OF this assms(1)] show ?thesis
    using assms(3-6) by (simp add: AuditConservation_total led.money_def)
qed

theorem replay_conserves_witness:
  "\<exists>l' s' r' rep. Replay 0 (\<lambda>_ _ _. 0) 0 demo_ledger queued_store NewReconciler = Some (l', s', r', rep)
    \<and> (\<forall>ks ks'. distinct ks \<longrightarrow> set ks = account_names demo_ledger \<longrightarrow> distinct ks' \<longrightarrow> set ks' = account_names l' \<longrightarrow>
      fst (snd (snd (AuditConservation ks' l'))) = fst (snd (snd (AuditConservation ks demo_ledger))))"
proof -
  obtain l' s' r' rep where run: "Replay 0 (\<lambda>_ _ _. 0) 0 demo_ledger queued_store NewReconciler = Some (l', s', r', rep)"
    using demo_replay_returns by blast
  show ?thesis using run replay_conserves[OF demo_wf run] by blast
qed

text \<open>
  C25. A replay settles exactly what is new. The ledger after a replay of a well-formed log is that of settling, one after the other in the
  sorted order, the pending transactions whose hash was not processed before by this reconciler nor earlier in the
  same batch, and no others; the replay fails to return exactly when one of these blocks. Every other pending transaction is
  counted as a duplicate, all hashes of the batch are remembered beside the old ones, and nothing stays pending.
\<close>

theorem replay_settles_new:
  assumes "wal_wf s"
  shows "case Replay start clk stop l s r of
     None \<Rightarrow> settle_all (useDeficitReserve r) (DeficitReserveAccountID l)
       (fresh (seenHashes r) (SortTransactionsVectorClock (ReadAllPending s))) (book l) = None
   | Some (l', s', r', rep) \<Rightarrow> settle_all (useDeficitReserve r) (DeficitReserveAccountID l)
       (fresh (seenHashes r) (SortTransactionsVectorClock (ReadAllPending s))) (book l) = Some (book l')
       \<and> DuplicateCount rep = length (ReadAllPending s) - length (fresh (seenHashes r) (SortTransactionsVectorClock (ReadAllPending s)))
       \<and> seenHashes r' = seenHashes r \<union> tx_hash ` set (ReadAllPending s)
       \<and> ReadAllPending s' = []"
proof (cases "Replay start clk stop l s r")
  case None
  then show ?thesis using Replay_settles[where start = start and clk = clk and stop = stop and l = l and s = s and r = r] by simp
next
  case (Some st)
  obtain l' s' r' rep where st: "st = (l', s', r', rep)" by (metis surj_pair)
  note run = Some[unfolded st]
  have "seenHashes r' = seenHashes r \<union> tx_hash ` set (ReadAllPending s)"
    using Replay_effect[OF run] by (auto simp: loop_effect_def)
  then show ?thesis
    using Replay_settles[where start = start and clk = clk and stop = stop and l = l and s = s and r = r] Replay_drains[OF assms run] run
    by auto
qed

theorem replay_settles_new_witness:
  "\<exists>l' s' r' rep. Replay 0 (\<lambda>_ _ _. 0) 0 demo_ledger queued_store NewReconciler = Some (l', s', r', rep)
    \<and> ReadAllPending s' = [] \<and> book l' (''SHOP'', Online) = 1500 \<and> book l' (''ACC'', Online) = - 500"
proof -
  obtain l' s' r' rep where run: "Replay 0 (\<lambda>_ _ _. 0) 0 demo_ledger queued_store NewReconciler = Some (l', s', r', rep)"
    using demo_replay_returns by blast
  let ?tx = "offline_tx ''T1'' ''ACC'' ''SHOP'' 1500"
  have sorted: "SortTransactionsVectorClock (ReadAllPending queued_store) = [?tx]"
    by (simp add: queued_store_facts SortTransactionsVectorClock_def SliceStable_small insertionSort_def)
  have fresh_one: "seenHashes NewReconciler = {}" "useDeficitReserve NewReconciler = False"
    by (simp_all add: NewReconciler_def)
  have "settle_all False AccountDeficitReserve [?tx] (book demo_ledger) = Some (book l')" "ReadAllPending s' = []"
    using replay_settles_new[OF queued_store_facts(1), where start = 0 and clk = "\<lambda>_ _ _. 0" and stop = 0 and l = demo_ledger and r = NewReconciler]
    unfolding run sorted by (simp_all add: fresh_one demo_reserve)
  moreover have "tx_AccountID ?tx = ''ACC''" "tx_MerchantID ?tx = ''SHOP''" "tx_Amount ?tx = 1500" by (simp_all add: offline_tx_def)
  ultimately have "book l' = transfer (''ACC'', Online) (''SHOP'', Online) 1500 (book demo_ledger)" "ReadAllPending s' = []"
    by (simp_all add: settle_book_def covered_def demo_book Let_def split: if_splits)
  then show ?thesis using run by (simp add: demo_book transfer_apply)
qed

text \<open>
  C9. Every transaction is settled once over all replays. Whatever ledgers and stores a reconciler replays
  one after the other, in whatever modes, each round settles the transactions of \<open>round_batches\<close>, whose hashes are pairwise
  different over all rounds, differ from those processed before, and are otherwise exactly the hashes that were ever pending.
\<close>

theorem replays_settle_once:
  assumes "replay_rounds rounds r = Some (ls, r')"
  shows "list_all2 (\<lambda>rd (txs, l'). round_settles rd txs l') rounds (zip (round_batches rounds (seenHashes r)) ls)
    \<and> distinct (map tx_hash (concat (round_batches rounds (seenHashes r))))
    \<and> tx_hash ` set (concat (round_batches rounds (seenHashes r))) = \<Union> (round_hashes ` set rounds) - seenHashes r
    \<and> seenHashes r' = seenHashes r \<union> \<Union> (round_hashes ` set rounds)"
proof -
  have "list_all2 (\<lambda>rd (txs, l'). round_settles rd txs l') rounds (zip (round_batches rounds (seenHashes r)) ls)
      \<and> seenHashes r' = seenHashes r \<union> \<Union> (round_hashes ` set rounds)"
    using assms
  proof (induction rounds arbitrary: r ls)
    case (Cons rd rounds)
    obtain u l s t0 clk t1 where rd: "rd = (u, l, s, t0, clk, t1)" by (metis surj_pair)
    from Cons.prems obtain l1 s1 r1 rep ls1 where run: "Replay t0 clk t1 l s (SetUseDeficitReserve u r) = Some (l1, s1, r1, rep)"
      and rest: "replay_rounds rounds r1 = Some (ls1, r')" and ls: "ls = l1 # ls1"
      by (auto simp: rd split: option.splits)
    have "seenHashes r1 = seenHashes r \<union> round_hashes rd"
      using Replay_effect[OF run] by (auto simp: loop_effect_def round_hashes_def rd SetUseDeficitReserve_def)
    moreover have "round_settles rd (round_batch rd (seenHashes r)) l1"
      using Replay_settles[where start = t0 and clk = clk and stop = t1 and l = l and s = s and r = "SetUseDeficitReserve u r"] run
      by (simp add: round_settles_def round_batch_def rd SetUseDeficitReserve_def)
    ultimately show ?case using Cons.IH[OF rest] by (auto simp: ls rd)
  qed simp
  then show ?thesis using batches_distinct batches_hashes by simp
qed

theorem replays_settle_once_witness:
  "\<exists>l1 l2 r'. replay_rounds [(False, demo_ledger, queued_store, 0, \<lambda>_ _ _. 0, 0), (True, demo_ledger, queued_store, 0, \<lambda>_ _ _. 0, 0)]
      NewReconciler = Some ([l1, l2], r') \<and> seenHashes r' = {''T1''} \<and> book l2 = book demo_ledger"
proof -
  let ?rs = "[(False, demo_ledger, queued_store, 0, \<lambda>_ _ _. 0, 0), (True, demo_ledger, queued_store, 0, \<lambda>_ _ _. 0, 0)] :: round list"
  obtain l1 s1 r1 rep1 where one: "Replay 0 (\<lambda>_ _ _. 0) 0 demo_ledger queued_store (SetUseDeficitReserve False NewReconciler) = Some (l1, s1, r1, rep1)"
    using demo_replay_returns by blast
  obtain l2 s2 r2 rep2 where two: "Replay 0 (\<lambda>_ _ _. 0) 0 demo_ledger queued_store (SetUseDeficitReserve True r1) = Some (l2, s2, r2, rep2)"
    using demo_replay_returns by blast
  have run: "replay_rounds ?rs NewReconciler = Some ([l1, l2], r2)" by (simp add: one two)
  let ?tx = "offline_tx ''T1'' ''ACC'' ''SHOP'' 1500"
  have "SortTransactionsVectorClock (ReadAllPending queued_store) = [?tx]" "tx_hash ?tx = ''T1''" "ReadAllPending queued_store = [?tx]"
    by (simp_all add: queued_store_facts SortTransactionsVectorClock_def SliceStable_small insertionSort_def tx_hash_def offline_tx_def)
  then have "round_batches ?rs {} = [[?tx], []]" "\<Union> (round_hashes ` set ?rs) = {''T1''}" "seenHashes NewReconciler = {}"
    by (simp_all add: round_hashes_def round_batch_def NewReconciler_def)
  then show ?thesis
    using replays_settle_once[OF run] run by (auto simp: round_settles_def)
qed

text \<open>
  The report adds up. The number processed is the number of pending transactions, and is the sum
  of the successes, the deficits and the duplicates; there is one deficit record per deficit, and the
  deficit log of the reconciler grows by exactly the records of the report.
\<close>

theorem replay_report_adds_up:
  assumes "Replay t0 clk t1 l s r = Some (l', s', r', rep)"
  shows "TotalProcessed rep = length (ReadAllPending s)
    \<and> SuccessfulCount rep + DeficitCount rep + DuplicateCount rep = TotalProcessed rep
    \<and> length (DeficitRecords rep) = DeficitCount rep
    \<and> GetDeficitLogs r' = GetDeficitLogs r @ DeficitRecords rep"
  using Replay_effect[OF assms] by (auto simp: loop_effect_def empty_report_def GetDeficitLogs_def)

theorem replay_report_adds_up_witness:
  "\<exists>l' s' r' rep. Replay 0 (\<lambda>_ _ _. 0) 0 demo_ledger queued_store NewReconciler = Some (l', s', r', rep)
    \<and> SuccessfulCount rep + DeficitCount rep + DuplicateCount rep = 1"
proof -
  obtain l' s' r' rep where run: "Replay 0 (\<lambda>_ _ _. 0) 0 demo_ledger queued_store NewReconciler = Some (l', s', r', rep)"
    using demo_replay_returns by blast
  show ?thesis using run replay_report_adds_up[OF run] by (simp add: queued_store_facts)
qed

text \<open>
  C28. What settling a new offline transaction does, on every branch: for any amount, any accounts and any
  balances. It fails to return exactly when the deficit of a transaction whose payer and payee are one is recorded in
  legacy mode, or a deficit is charged to a reserve that is itself the payee. Otherwise the book
  afterwards is that of \<open>settle_book\<close>: the amount moved from the offline allowance if that covers it, else from the
  online balance if that covers it, else with the reserve what the customer has (nothing if that is
  negative) and the rest from the reserve account, else the whole amount from the customer. The
  transaction is marked and counted as reconciled when one of the first two paid, and as a deficit otherwise. A
  payee other than the payer gets exactly the amount, if that is positive.
\<close>

theorem settlement_moves:
  "case settle_tx clk tx (l, s, r, rep) of
     None \<Rightarrow> settle_blocks (useDeficitReserve r) (DeficitReserveAccountID l) tx (book l)
   | Some (l', s', r', rep') \<Rightarrow> \<not> settle_blocks (useDeficitReserve r) (DeficitReserveAccountID l) tx (book l)
       \<and> book l' = settle_book (useDeficitReserve r) (DeficitReserveAccountID l) tx (book l)
       \<and> s' = UpdateStatus (TxID tx) (if pays tx (book l) then ''RECONCILED'' else ''DEFICIT'') s
       \<and> SuccessfulCount rep' = SuccessfulCount rep + (if pays tx (book l) then 1 else 0)
       \<and> DeficitCount rep' = DeficitCount rep + (if pays tx (book l) then 0 else 1)
       \<and> (0 < sint (tx_Amount tx) \<and> tx_AccountID tx \<noteq> tx_MerchantID tx \<longrightarrow>
            book l' (tx_MerchantID tx, Online) = book l (tx_MerchantID tx, Online) + tx_Amount tx)"
proof (cases "settle_tx clk tx (l, s, r, rep)")
  case None
  then show ?thesis using settle_tx_spec[where clk = clk and tx = tx and l = l and s = s and r = r and rep = rep] by simp
next
  case (Some st')
  let ?b = "settle_book (useDeficitReserve r) (DeficitReserveAccountID l) tx (book l)"
  have spec: "\<not> settle_blocks (useDeficitReserve r) (DeficitReserveAccountID l) tx (book l)" "book (fst st') = ?b"
    "if pays tx (book l) then st' = settled tx (fst st') (l, s, r, rep)
     else \<exists>entry. st' = in_deficit tx entry (fst st') (l, s, r, rep)"
    using settle_tx_spec[where clk = clk and tx = tx and l = l and s = s and r = r and rep = rep] Some by simp_all
  have "?b (tx_MerchantID tx, Online) = book l (tx_MerchantID tx, Online) + tx_Amount tx"
    if "0 < sint (tx_Amount tx)" "tx_AccountID tx \<noteq> tx_MerchantID tx"
    using settle_book_merchant[OF spec(1) that] .
  with Some spec show ?thesis by (cases st') (auto simp: settled_def in_deficit_def split: if_splits)
qed

theorem settlement_moves_witness:
  "\<exists>l' s' r' rep'. settle_tx (\<lambda>_ _. 0) (offline_tx ''T1'' ''ACC'' ''SHOP'' 1500)
      (demo_ledger, queued_store, SetUseDeficitReserve True NewReconciler, empty_report 1 0) = Some (l', s', r', rep')
    \<and> book l' (''SHOP'', Online) = 1500 \<and> book l' (''ACC'', Online) = 0"
proof -
  let ?tx = "offline_tx ''T1'' ''ACC'' ''SHOP'' 1500" and ?r = "SetUseDeficitReserve True NewReconciler"
  have facts: "tx_AccountID ?tx = ''ACC''" "tx_MerchantID ?tx = ''SHOP''" "tx_Amount ?tx = 1500" "useDeficitReserve ?r"
    by (simp_all add: offline_tx_def SetUseDeficitReserve_def)
  have "\<not> settle_blocks (useDeficitReserve ?r) (DeficitReserveAccountID demo_ledger) ?tx (book demo_ledger)"
    by (simp add: settle_blocks_def facts demo_reserve AccountDeficitReserve_def)
  moreover have "settle_book True AccountDeficitReserve ?tx (book demo_ledger) (''ACC'', Online) = 0"
    by (simp add: settle_book_def Let_def facts covered_def demo_book customer_share_def transfer_apply AccountDeficitReserve_def)
  ultimately show ?thesis
    using settlement_moves[where clk = "\<lambda>_ _. 0" and tx = ?tx and l = demo_ledger and s = queued_store and r = ?r and rep = "empty_report 1 0"]
    by (auto simp: facts demo_book demo_reserve split: option.splits prod.splits)
qed

text \<open>
  Replay returns. When no pending transaction names the reserve account as its merchant or has
  the same account on both sides, the replay returns a report (it never blocks on a mutex that it
  holds), for every mode, every ledger and every amount.
\<close>

theorem replay_returns:
  assumes "\<forall>tx \<in> set (ReadAllPending s). tx_MerchantID tx \<noteq> DeficitReserveAccountID l \<and> tx_AccountID tx \<noteq> tx_MerchantID tx"
  shows "\<exists>l' s' r' rep. Replay t0 clk t1 l s r = Some (l', s', r', rep)"
proof -
  have "replay_loop clk 0 (SortTransactionsVectorClock (ReadAllPending s))
      (l, s, r, empty_report (length (ReadAllPending s)) t0) \<noteq> None"
    using assms by (intro replay_loop_returns) (simp add: list_all_iff lock_safe_def)
  then show ?thesis by (auto simp: Replay_unfold)
qed

theorem replay_returns_witness:
  "\<exists>l' s' r' rep. Replay 0 (\<lambda>_ _ _. 0) 0 demo_ledger queued_store NewReconciler = Some (l', s', r', rep)"
  by (rule replay_returns)
    (simp add: queued_store_facts demo_reserve AccountDeficitReserve_def offline_tx_def)

end
