(* ===== verification/Gateway_Claims.thy ===== *)
theory Gateway_Claims
  imports Gateway_Props Reconcile_Claims
begin

text \<open>The properties of the gateway.\<close>

section \<open>Witness data\<close>

definition demo_env :: env where
  "demo_env = \<lparr>env_ed = demo_ed25519, env_codec = demo_codec, env_f2i = 0, env_random = [1, 2, 3, 4, 5, 6, 7, 8],
     env_request_time = 0, env_qr_time = 0, env_auth_time = 0, env_screen_time = 0, env_reserve_clk = \<lambda>_. 0,
     env_commit_clk = \<lambda>_. 0, env_release_clk = \<lambda>_. 0, env_io = io_ok\<rparr>"

definition demo_request :: "string \<Rightarrow> int64 \<Rightarrow> PaymentRequest" where
  "demo_request key amount = \<lparr>IdempotencyKey = key, req_TxID = ''T1'', req_AccountID = ''ACC'', req_MerchantID = ''SHOP'',
     req_TerminalID = ''TERM-1'', req_Amount = amount, req_DeviceID = ''D'', req_IPAddress = ''IP'',
     req_ClientTimestamp = 1, req_QRPayload = None, DynamicQR = None, OfflineToken = Some demo_token,
     req_VectorClock = [], req_SeqNo = 1\<rparr>"

definition demo_gateway :: PaymentGateway where
  "demo_gateway = NewPaymentGateway demo_ledger (Some (NewInMemGraphFraudEngine 0 ''key'')) demo_edge
     (store_of demo_codec ''wal'' []) NewReconciler"

lemma demo_gateway_fields [simp]:
  "gw_ledger demo_gateway = demo_ledger" "edgeWAL demo_gateway = store_of demo_codec ''wal'' []"
  "edgeAuthorizer demo_gateway = demo_edge" "gw_reconciler demo_gateway = NewReconciler"
  "idempotency demo_gateway = Map.empty" "networkStatus demo_gateway = ''ONLINE''"
  "fraudEngine demo_gateway = Some (NewInMemGraphFraudEngine 0 ''key'')" "fraudScreeningEnabled demo_gateway"
  by (simp_all add: demo_gateway_def NewPaymentGateway_def NetworkOnline_def)

lemma demo_request_fields [simp]:
  "IdempotencyKey (demo_request k x) = k" "req_TxID (demo_request k x) = ''T1''"
  "req_AccountID (demo_request k x) = ''ACC''" "req_MerchantID (demo_request k x) = ''SHOP''"
  "req_Amount (demo_request k x) = x" "DynamicQR (demo_request k x) = None"
  "OfflineToken (demo_request k x) = Some demo_token" "req_QRPayload (demo_request k x) = None"
  "fill_defaults ev (demo_request k x) = demo_request k x"
  by (simp_all add: demo_request_def fill_defaults_def)

text \<open>An online payment on the fresh gateway returns and passes the screening.\<close>

lemma online_returns:
  assumes "networkStatus gw \<noteq> NetworkDisconnected"
  shows "\<exists>resp gw'. ProcessPayment ev req gw = Some (resp, gw')"
  using assms by (auto simp: ProcessPayment_def Let_def route_payment_def split: option.splits prod.splits)

lemma demo_screening: "screening_passes demo_env (demo_request k 300) demo_gateway"
  unfolding screening_passes_def
  by (rule exI[of _ "3602879701896397 / 72057594037927936"])
    (simp add: screen_request_def ScreenTransaction_def VerifyQR_def Let_def case_prod_beta
      assess_def periodic_prune_def NewInMemGraphFraudEngine_def demo_env_def Second_def detectCycleBFS_def
      events_of_def devices_of_def getRecentTransferCount_def getDistinctDeviceCount_def velocity_risk_def
      score_simps)

section \<open>Properties\<close>

text \<open>
  C8. Idempotency. Once a payment with a non-empty idempotency key was answered, every later request with
  that key, whatever its other fields, and after any payments, reconciliations and configuration
  calls in between, gets the same answer and changes nothing but the request counter.
\<close>

theorem idempotent_replay:
  assumes "ProcessPayment ev req gw = Some (resp, gw1)" and "IdempotencyKey req \<noteq> ''''"
    and "gateway_step\<^sup>*\<^sup>* gw1 gw2" and "IdempotencyKey req' = IdempotencyKey req"
  shows "ProcessPayment ev' req' gw2 = Some (resp, gw2\<lparr>requestCounter := requestCounter gw2 + 1\<rparr>)"
  using steps_keep_cache[OF assms(3) ProcessPayment_caches[OF assms(1,2)]] assms(2,4)
  by (simp add: ProcessPayment_def Let_def cached_response_def)

theorem idempotent_replay_witness:
  "\<exists>resp gw1. ProcessPayment demo_env (demo_request ''K'' 300) demo_gateway = Some (resp, gw1)
    \<and> ProcessPayment demo_env (demo_request ''K'' 999) gw1 = Some (resp, gw1\<lparr>requestCounter := requestCounter gw1 + 1\<rparr>)"
proof -
  obtain resp gw1 where p: "ProcessPayment demo_env (demo_request ''K'' 300) demo_gateway = Some (resp, gw1)"
    using online_returns[of demo_gateway demo_env "demo_request ''K'' 300"] by (auto simp: NetworkDisconnected_def)
  show ?thesis using p idempotent_replay[OF p, of gw1 "demo_request ''K'' 999" demo_env] by auto
qed

text \<open>
  C7. An online payment, on every path and for every ledger. It is authorized exactly when the dynamic QR
  gate and the fraud screening pass, the online balance of the account covers a positive amount (\<open>funded\<close>), and the
  reserved bucket holds the amount once it was reserved (\<open>committable\<close>, which fails only when that bucket was
  overdrawn or overflows). Then exactly that amount moves from the customer to the merchant. When only the last fails, the
  payment is declined as a system error and the amount stays in the reserved bucket of the account: the rollback tests
  the same bucket and fails too. In every other case no balance of any account changes. The log and the edge
  authorizer are untouched.
\<close>

theorem online_payment_outcome:
  assumes "networkStatus gw \<noteq> NetworkDisconnected" and "cached_response req gw = None"
    and "ProcessPayment ev req gw = Some (resp, gw')"
  shows "(authorized resp \<longleftrightarrow> check_dynamic_qr ev (fill_defaults ev req) gw = None
      \<and> screening_passes ev (fill_defaults ev req) gw
      \<and> funded req (book (gw_ledger gw)) \<and> committable req (book (gw_ledger gw)))
    \<and> book (gw_ledger gw') =
        (if authorized resp
         then transfer (req_AccountID req, Online) (req_MerchantID req, Online) (req_Amount req) (book (gw_ledger gw))
         else if check_dynamic_qr ev (fill_defaults ev req) gw = None \<and> screening_passes ev (fill_defaults ev req) gw
           \<and> funded req (book (gw_ledger gw))
         then transfer (req_AccountID req, Online) (req_AccountID req, Reserved) (req_Amount req) (book (gw_ledger gw))
         else book (gw_ledger gw))
    \<and> (check_dynamic_qr ev (fill_defaults ev req) gw = None \<and> screening_passes ev (fill_defaults ev req) gw
        \<and> funded req (book (gw_ledger gw)) \<and> \<not> authorized resp \<longrightarrow> rsp_ReasonCode resp = CodeSystemError)
    \<and> edgeWAL gw' = edgeWAL gw \<and> edgeAuthorizer gw' = edgeAuthorizer gw"
proof -
  define gw0 where "gw0 = gw\<lparr>requestCounter := requestCounter gw + 1\<rparr>"
  have same: "check_dynamic_qr ev r gw0 = check_dynamic_qr ev r gw" "screening_passes ev r gw0 = screening_passes ev r gw"
    "gw_ledger gw0 = gw_ledger gw" "edgeWAL gw0 = edgeWAL gw" "edgeAuthorizer gw0 = edgeAuthorizer gw" for r
    by (auto simp: gw0_def check_dynamic_qr_def screening_passes_def screen_request_def Let_def case_prod_beta
        split: option.splits)
  from assms(3) show ?thesis
  proof (cases rule: ProcessPayment_cases)
    case (qr g r)
    then show ?thesis
      using check_dynamic_qr_declines[OF qr(4)] same by (simp add: gw0_def[symmetric])
  next
    case (routed g r gw1)
    then have "handleOnlinePayment ev r gw0 = (resp, gw1)" using assms(1) by (simp add: route_payment_def gw0_def)
    from handleOnlinePayment_exact[OF this] routed same
    show ?thesis by (simp add: gw0_def[symmetric] funded_def committable_def)
  qed (use assms(2) in simp)
qed

theorem online_payment_outcome_witness:
  "\<exists>resp gw'. ProcessPayment demo_env (demo_request ''K'' 300) demo_gateway = Some (resp, gw') \<and> authorized resp
    \<and> book (gw_ledger gw') (''ACC'', Online) = 700 \<and> book (gw_ledger gw') (''SHOP'', Online) = 300"
proof -
  obtain resp gw' where p: "ProcessPayment demo_env (demo_request ''K'' 300) demo_gateway = Some (resp, gw')"
    using online_returns[of demo_gateway demo_env "demo_request ''K'' 300"] by (auto simp: NetworkDisconnected_def)
  have "authorized resp" "book (gw_ledger gw') = transfer (''ACC'', Online) (''SHOP'', Online) 300 (book demo_ledger)"
    using online_payment_outcome[OF _ _ p] demo_screening[of "''K''"]
    by (simp_all add: NetworkDisconnected_def cached_response_def check_dynamic_qr_def demo_book funded_def committable_def)
  with p show ?thesis by (simp add: demo_book transfer_apply)
qed

text \<open>
  Conservation across the system. Whatever sequence of payments (online and offline), reconciliations
  in either deficit mode and configuration calls the gateway serves, the total that
  \<open>AuditConservation\<close> reports on its ledger does not change.
\<close>

theorem gateway_conserves:
  assumes "ledger_wf (gw_ledger gw)" and "gateway_step\<^sup>*\<^sup>* gw gw'"
    and "distinct ks" "set ks = account_names (gw_ledger gw)"
    and "distinct ks'" "set ks' = account_names (gw_ledger gw')"
  shows "fst (snd (snd (AuditConservation ks' (gw_ledger gw')))) = fst (snd (snd (AuditConservation ks (gw_ledger gw))))"
  using gw.money_steps[OF assms(2,1)] AuditConservation_total[OF assms(3,4)] AuditConservation_total[OF assms(5,6)]
  by (simp add: gw.money_def)

theorem gateway_conserves_witness:
  "\<exists>resp gw'. ProcessPayment demo_env (demo_request ''K'' 300) demo_gateway = Some (resp, gw')
    \<and> (\<forall>ks ks'. distinct ks \<longrightarrow> set ks = account_names demo_ledger \<longrightarrow> distinct ks' \<longrightarrow>
        set ks' = account_names (gw_ledger gw') \<longrightarrow>
        fst (snd (snd (AuditConservation ks' (gw_ledger gw')))) = fst (snd (snd (AuditConservation ks demo_ledger))))"
proof -
  obtain resp gw' where p: "ProcessPayment demo_env (demo_request ''K'' 300) demo_gateway = Some (resp, gw')"
    using online_returns[of demo_gateway demo_env "demo_request ''K'' 300"] by (auto simp: NetworkDisconnected_def)
  then have st: "gateway_step\<^sup>*\<^sup>* demo_gateway gw'"
    by (intro r_into_rtranclp gateway_step.intros[of "Pay demo_env (demo_request ''K'' 300)"]) simp
  show ?thesis using p gateway_conserves[OF _ st] demo_wf by auto
qed

text \<open>
  Responses are well-formed. Every response of a gateway that starts with an empty cache, at any point of
  any run, fresh or cached, has the ISO code of its reason, is authorized exactly with code 00 and
  reason \<open>CodeApproved\<close>, is otherwise \<open>DECLINED\<close>, and is flagged offline exactly when it was
  authorized offline.
\<close>

theorem responses_consistent:
  assumes "idempotency gw = Map.empty" and "gateway_step\<^sup>*\<^sup>* gw gw1" and "ProcessPayment ev req gw1 = Some (resp, gw2)"
  shows "rsp_ISO8583 resp = MapReasonToISO8583 (rsp_ReasonCode resp)
    \<and> (authorized resp \<longleftrightarrow> rsp_ReasonCode resp = CodeApproved)
    \<and> Status resp = (if \<not> authorized resp then ''DECLINED'' else if IsOffline resp then ''OFFLINE_AUTHORIZED'' else ''APPROVED'')"
proof -
  have "cache_consistent gw1" using steps_consistent[OF assms(2)] assms(1) by (simp add: cache_consistent_def)
  from ProcessPayment_consistent[OF this assms(3)] have "consistent_response resp" ..
  then show ?thesis
    using iso_00[of "rsp_ReasonCode resp"] by (auto simp: consistent_response_def authorized_def simp del: iso_00)
qed

theorem responses_consistent_witness:
  "\<exists>resp gw'. ProcessPayment demo_env (demo_request ''K'' 300) demo_gateway = Some (resp, gw')
    \<and> rsp_ISO8583 resp = MapReasonToISO8583 (rsp_ReasonCode resp)"
proof -
  obtain resp gw' where p: "ProcessPayment demo_env (demo_request ''K'' 300) demo_gateway = Some (resp, gw')"
    using online_returns[of demo_gateway demo_env "demo_request ''K'' 300"] by (auto simp: NetworkDisconnected_def)
  show ?thesis using p responses_consistent[OF _ _ p, of demo_gateway] by simp
qed

section \<open>Offline payments\<close>

lemma offline_process:
  assumes "networkStatus gw = NetworkDisconnected" and "cached_response req gw = None"
    and "ProcessPayment ev req gw = Some (resp, gw')" and "wal_wf (edgeWAL gw)"
  shows "offline_effect ev (fill_defaults ev req) gw resp gw'"
  using assms(3)
proof (cases rule: ProcessPayment_cases)
  case (qr g r)
  then show ?thesis using check_dynamic_qr_declines[OF qr(4)] assms(4) by (simp add: offline_effect_def)
next
  case (routed g r gw1)
  then have "handleOfflinePayment ev r g = Some (resp, gw1)" using assms(1) by (simp add: route_payment_def)
  with assms(4) routed(1) have "offline_effect ev r g resp gw1" by (intro handleOfflinePayment_outcome) simp
  then show ?thesis unfolding routed(1,2,6) by (simp add: offline_effect_def)
qed (use assms(2) in simp)

text \<open>
  C13. Offline payments. During a partition no payment touches the ledger. An authorized one carries a token
  that is authentic, unexpired, not revoked and for this terminal, within its floor and its remaining
  allowance; the token is charged with the amount and exactly one pending record with the account,
  merchant and amount of the request is added at the end of the log. A declined one adds no record.
\<close>

theorem offline_payment_outcome:
  assumes "networkStatus gw = NetworkDisconnected" and "cached_response req gw = None"
    and "ProcessPayment ev req gw = Some (resp, gw')" and "wal_wf (edgeWAL gw)"
  shows "gw_ledger gw' = gw_ledger gw \<and> wal_wf (edgeWAL gw')
    \<and> (authorized resp \<longrightarrow> (\<exists>tok tx. OfflineToken req = Some tok
          \<and> eligible (env_ed ev) (env_auth_time ev) tok (edgeAuthorizer gw)
          \<and> within_floor tok (req_Amount req) (edgeAuthorizer gw)
          \<and> spent_on (edgeAuthorizer gw') (TokenID tok) = spent_on (edgeAuthorizer gw) (TokenID tok) + req_Amount req
          \<and> ReadAllPending (edgeWAL gw') = ReadAllPending (edgeWAL gw) @ [tx]
          \<and> tx_AccountID tx = req_AccountID req \<and> tx_MerchantID tx = req_MerchantID req
          \<and> tx_Amount tx = req_Amount req \<and> tx_TokenID tx = TokenID tok))
    \<and> (\<not> authorized resp \<longrightarrow> ReadAll (edgeWAL gw') = ReadAll (edgeWAL gw))"
  using offline_process[OF assms] by (auto simp: offline_effect_def spent_on_charged)

lemma demo_offline:
  "\<exists>resp gw'. ProcessPayment demo_env (demo_request ''K'' 1200) (demo_gateway\<lparr>networkStatus := NetworkDisconnected\<rparr>) = Some (resp, gw')
    \<and> authorized resp"
proof -
  have "eligible demo_ed25519 0 demo_token demo_edge"
    by (rule demo_token_eligible[of _ _ Map.empty 0]) (simp_all add: Unix_def demo_edge_def NewEdgeAuthorizer_def)
  moreover have "within_floor demo_token 1200 demo_edge"
    by (simp add: within_floor_def demo_token_def IssueToken_fields spent_on_def demo_edge_def NewEdgeAuthorizer_def)
  ultimately obtain d where d: "AuthorizeOffline demo_ed25519 0 demo_token 1200 demo_edge = Some (d, charged demo_token 1200 demo_edge)"
    "dec_Approved d" using AuthorizeOffline_approves by blast
  show ?thesis
    by (simp add: ProcessPayment_def Let_def cached_response_def check_dynamic_qr_def route_payment_def
        handleOfflinePayment_def demo_env_def d Append_store_of)
qed

theorem offline_payment_outcome_witness:
  "\<exists>resp gw'. ProcessPayment demo_env (demo_request ''K'' 1200) (demo_gateway\<lparr>networkStatus := NetworkDisconnected\<rparr>) = Some (resp, gw')
    \<and> (\<exists>tx. ReadAllPending (edgeWAL gw') = [tx] \<and> tx_Amount tx = 1200)"
proof -
  obtain resp gw' where p: "ProcessPayment demo_env (demo_request ''K'' 1200) (demo_gateway\<lparr>networkStatus := NetworkDisconnected\<rparr>) = Some (resp, gw')"
    "authorized resp" using demo_offline by blast
  have "ReadAllPending (store_of demo_codec ''wal'' []) = []" by (simp add: ReadAllPending_def store_of_def)
  then show ?thesis
    using p offline_payment_outcome[OF _ _ p(1)] store_of_wf[of "[]" demo_codec "''wal''"]
    by (auto simp: cached_response_def)
qed

section \<open>From the partition to the settlement\<close>

lemma sort_single: "SortTransactionsVectorClock [tx] = [tx]"
proof -
  obtain x where "SortTransactionsVectorClock [tx] = [x]"
    using set_Sort(2)[of "[tx]"] by (auto simp: length_Suc_conv simp del: set_Sort)
  then show ?thesis using set_Sort(1)[of "[tx]"] by (simp del: set_Sort)
qed

lemma replay_single:
  assumes "ReadAllPending s = [tx]" and "tx_hash tx \<notin> seenHashes r"
    and "\<not> settle_blocks (useDeficitReserve r) (DeficitReserveAccountID l) tx (book l)"
  shows "\<exists>l' s' r' rep. Replay t0 clk t1 l s r = Some (l', s', r', rep)
    \<and> book l' = settle_book (useDeficitReserve r) (DeficitReserveAccountID l) tx (book l)"
  using Replay_settles[where start = t0 and clk = clk and stop = t1 and l = l and s = s and r = r] assms
  by (auto simp: sort_single split: option.splits)

lemma settle_all_append:
  "settle_all u r (txs @ txs') b = (case settle_all u r txs b of None \<Rightarrow> None | Some b' \<Rightarrow> settle_all u r txs' b')"
  by (induction u r txs b rule: settle_all.induct) auto

text \<open>
  A queued transaction whose hash nobody else has, and that was not processed before, is in the batch that is settled,
  once; so the settlement of the batch settles it on the book that the earlier ones leave.
\<close>

lemma settled_in_batch:
  assumes "tx \<in> set txs" and "tx_hash tx \<notin> seen" and "\<forall>t\<in>set txs. tx_hash t = tx_hash tx \<longrightarrow> t = tx"
    and "settle_all u r (fresh seen txs) b = Some b'"
  shows "\<exists>before after b1. fresh seen txs = before @ tx # after \<and> tx_hash tx \<notin> tx_hash ` set (before @ after)
    \<and> settle_all u r before b = Some b1 \<and> \<not> settle_blocks u r tx b1 \<and> settle_all u r after (settle_book u r tx b1) = Some b'"
proof -
  have "tx_hash tx \<in> tx_hash ` set (fresh seen txs)" using assms(1,2) by (simp add: fresh_hashes)
  then have "tx \<in> set (fresh seen txs)" using assms(3) fresh_hashes(3)[of seen txs] by force
  then obtain before after where split: "fresh seen txs = before @ tx # after" by (meson split_list)
  have "distinct (map tx_hash (before @ tx # after))" using fresh_hashes(2)[of seen txs] by (simp only: split)
  then have "tx_hash tx \<notin> tx_hash ` set (before @ after)" by auto
  moreover obtain b1 where "settle_all u r before b = Some b1" "\<not> settle_blocks u r tx b1"
      "settle_all u r after (settle_book u r tx b1) = Some b'"
    using assms(4) by (auto simp: split settle_all_append split: option.splits if_splits)
  ultimately show ?thesis using split by blast
qed

text \<open>
  C12. A payment that was authorized during a partition is settled by the next reconciliation, exactly once. Before, the
  queue may hold any other payments; between, the gateway may serve any payments, online and offline, and any configuration
  calls. When the log is well formed and the hash of the queued payment was not processed before and no other queued payment has it, the
  reconciliation returns unless one of the payments it has to settle blocks; it settles these one after the other in the
  replay order, this payment once among them, on the book \<open>b1\<close> that the earlier ones leave; the queue is then empty. If the
  amount is positive and the merchant is not the payer, this settlement credits the merchant with exactly the
  authorized amount.
\<close>

theorem offline_payment_settles:
  assumes "networkStatus gw = NetworkDisconnected" and "cached_response req gw = None" and "wal_wf (edgeWAL gw)"
    and "ProcessPayment ev req gw = Some (resp, gw1)" and "authorized resp" and "OfflineToken req = Some tok"
    and "tx = queued_tx (fill_defaults ev req) tok (sequenceNum (edgeAuthorizer gw) + 1)"
    and "calm_step\<^sup>*\<^sup>* gw1 gw2"
    and "tx_hash tx \<notin> seenHashes (gw_reconciler gw)"
    and "\<forall>t\<in>set (ReadAllPending (edgeWAL gw2)). tx_hash t = tx_hash tx \<longrightarrow> t = tx"
    and "batch = fresh (seenHashes (gw_reconciler gw)) (SortTransactionsVectorClock (ReadAllPending (edgeWAL gw2)))"
    and "u = useDeficitReserve (gw_reconciler gw)" and "r = DeficitReserveAccountID (gw_ledger gw2)"
  shows "case TriggerReconciliation start clk stop gw2 of
      None \<Rightarrow> settle_all u r batch (book (gw_ledger gw2)) = None
    | Some (rep, gw3) \<Rightarrow> ReadAllPending (edgeWAL gw3) = [] \<and> TotalProcessed rep = length (ReadAllPending (edgeWAL gw2))
        \<and> (\<exists>before after b1. batch = before @ tx # after \<and> tx_hash tx \<notin> tx_hash ` set (before @ after)
            \<and> settle_all u r before (book (gw_ledger gw2)) = Some b1 \<and> \<not> settle_blocks u r tx b1
            \<and> settle_all u r after (settle_book u r tx b1) = Some (book (gw_ledger gw3))
            \<and> (0 < sint (req_Amount req) \<and> req_AccountID req \<noteq> req_MerchantID req \<longrightarrow>
                settle_book u r tx b1 (req_MerchantID req, Online) = b1 (req_MerchantID req, Online) + req_Amount req))"
proof -
  have eff: "gw_reconciler gw1 = gw_reconciler gw" "wal_wf (edgeWAL gw1)" "tx \<in> set (ReadAllPending (edgeWAL gw1))"
    using offline_process[OF assms(1,2,4,3)] assms(5-7) by (auto simp: offline_effect_def)
  have grown: "gw_reconciler gw2 = gw_reconciler gw" "wal_wf (edgeWAL gw2)" "tx \<in> set (ReadAllPending (edgeWAL gw2))"
    using calm_steps_grow[OF assms(8) eff(2)] eff by (auto simp: queue_grows_def)
  have tx: "tx_AccountID tx = req_AccountID req" "tx_MerchantID tx = req_MerchantID req" "tx_Amount tx = req_Amount req"
    by (simp_all add: assms(7))
  show ?thesis
  proof (cases "Replay start clk stop (gw_ledger gw2) (edgeWAL gw2) (gw_reconciler gw2)")
    case None
    then show ?thesis
      using Replay_settles[where start = start and clk = clk and stop = stop and l = "gw_ledger gw2" and s = "edgeWAL gw2" and r = "gw_reconciler gw2"]
      by (simp add: TriggerReconciliation_def assms(11-13) grown(1))
  next
    case (Some st)
    obtain l' s' r' rep where run: "Replay start clk stop (gw_ledger gw2) (edgeWAL gw2) (gw_reconciler gw2) = Some (l', s', r', rep)"
      using Some by (metis surj_pair)
    then have all: "settle_all u r batch (book (gw_ledger gw2)) = Some (book l')"
      using Replay_settles[where start = start and clk = clk and stop = stop and l = "gw_ledger gw2" and s = "edgeWAL gw2" and r = "gw_reconciler gw2"]
      by (simp add: assms(11-13) grown(1))
    have mem: "tx \<in> set (SortTransactionsVectorClock (ReadAllPending (edgeWAL gw2)))"
      and uniq: "\<forall>t\<in>set (SortTransactionsVectorClock (ReadAllPending (edgeWAL gw2))). tx_hash t = tx_hash tx \<longrightarrow> t = tx"
      using grown(3) assms(10) by simp_all
    obtain before after b1 where batch: "batch = before @ tx # after" "tx_hash tx \<notin> tx_hash ` set (before @ after)"
      "settle_all u r before (book (gw_ledger gw2)) = Some b1" "\<not> settle_blocks u r tx b1"
      "settle_all u r after (settle_book u r tx b1) = Some (book l')"
      using settled_in_batch[OF mem assms(9) uniq all[unfolded assms(11)]] unfolding assms(11) by blast
    have "settle_book u r tx b1 (req_MerchantID req, Online) = b1 (req_MerchantID req, Online) + req_Amount req"
      if "0 < sint (req_Amount req)" "req_AccountID req \<noteq> req_MerchantID req"
      using settle_book_merchant[OF batch(4)] that by (simp add: tx)
    with batch have "\<exists>before after b1. batch = before @ tx # after \<and> tx_hash tx \<notin> tx_hash ` set (before @ after)
        \<and> settle_all u r before (book (gw_ledger gw2)) = Some b1 \<and> \<not> settle_blocks u r tx b1
        \<and> settle_all u r after (settle_book u r tx b1) = Some (book l')
        \<and> (0 < sint (req_Amount req) \<and> req_AccountID req \<noteq> req_MerchantID req \<longrightarrow>
            settle_book u r tx b1 (req_MerchantID req, Online) = b1 (req_MerchantID req, Online) + req_Amount req)" by blast
    moreover have "ReadAllPending s' = []" "TotalProcessed rep = length (ReadAllPending (edgeWAL gw2))"
      using Replay_drains[OF grown(2) run] Replay_effect[OF run] by (simp_all add: loop_effect_def empty_report_def)
    ultimately show ?thesis by (simp add: TriggerReconciliation_def run)
  qed
qed

theorem offline_payment_settles_witness:
  "\<exists>resp gw1 rep gw2. ProcessPayment demo_env (demo_request ''K'' 1200) (demo_gateway\<lparr>networkStatus := NetworkDisconnected\<rparr>) = Some (resp, gw1)
    \<and> TriggerReconciliation 0 (\<lambda>_ _ _. 0) 0 (SetNetworkStatus NetworkReconnected gw1) = Some (rep, gw2)
    \<and> book (gw_ledger gw2) (''SHOP'', Online) = 1200"
proof -
  let ?gw = "demo_gateway\<lparr>networkStatus := NetworkDisconnected\<rparr>" and ?req = "demo_request ''K'' 1200"
  let ?tx = "queued_tx ?req demo_token (sequenceNum demo_edge + 1)"
  obtain resp gw1 where p: "ProcessPayment demo_env ?req ?gw = Some (resp, gw1)" "authorized resp"
    using demo_offline by blast
  let ?gw2 = "SetNetworkStatus NetworkReconnected gw1"
  have empty: "ReadAllPending (store_of demo_codec ''wal'' []) = []" "wal_wf (store_of demo_codec ''wal'' [])"
    using store_of_wf[of "[]" demo_codec "''wal''"] by (simp_all add: ReadAllPending_def store_of_def)
  have eff: "gw_ledger ?gw2 = demo_ledger" "gw_reconciler ?gw2 = NewReconciler" "ReadAllPending (edgeWAL ?gw2) = [?tx]"
    using offline_process[OF _ _ p(1)] p(2) empty by (auto simp: offline_effect_def cached_response_def SetNetworkStatus_def)
  have calm: "calm_step\<^sup>*\<^sup>* gw1 ?gw2"
    by (intro r_into_rtranclp calm_step.intros[of "NetworkChange NetworkReconnected"]) simp_all
  have seen: "seenHashes NewReconciler = {}" by (simp add: NewReconciler_def)
  have blocks: "\<not> settle_blocks False AccountDeficitReserve ?tx b" for b by (simp add: settle_blocks_def)
  have "[?tx] = fresh (seenHashes (gw_reconciler ?gw)) (SortTransactionsVectorClock (ReadAllPending (edgeWAL ?gw2)))"
    "False = useDeficitReserve (gw_reconciler ?gw)" "AccountDeficitReserve = DeficitReserveAccountID (gw_ledger ?gw2)"
    by (simp_all add: eff(1,3) sort_single demo_reserve) (simp_all add: NewReconciler_def)
  note here = offline_payment_settles[OF _ _ _ p _ _ calm _ _ this, where tok = demo_token and start = 0 and clk = "\<lambda>_ _ _. 0" and stop = 0]
  have spec: "case TriggerReconciliation 0 (\<lambda>_ _ _. 0) 0 ?gw2 of None \<Rightarrow> False
    | Some (rep, gw3) \<Rightarrow> book (gw_ledger gw3) (''SHOP'', Online) = 1200"
    using here[of ?tx] empty(2)
    by (simp add: cached_response_def eff(1,3) Cons_eq_append_conv seen blocks demo_book split: option.splits prod.splits) metis
  then obtain rep gw3 where "TriggerReconciliation 0 (\<lambda>_ _ _. 0) 0 ?gw2 = Some (rep, gw3)"
    by (cases "TriggerReconciliation 0 (\<lambda>_ _ _. 0) 0 ?gw2") auto
  with spec p show ?thesis by auto
qed

text \<open>
  C32. The gateway does not compare the account of the token with the account of the request: a token issued
  to \<open>ACC-1\<close> authorizes an offline payment of account \<open>ACC\<close>, and the settlement debits \<open>ACC\<close>.
\<close>

theorem token_of_another_account_pays:
  "\<exists>req tok resp gw1 rep gw2. OfflineToken req = Some tok \<and> tok_AccountID tok \<noteq> req_AccountID req
    \<and> ProcessPayment demo_env req (demo_gateway\<lparr>networkStatus := NetworkDisconnected\<rparr>) = Some (resp, gw1) \<and> authorized resp
    \<and> TriggerReconciliation 0 (\<lambda>_ _ _. 0) 0 gw1 = Some (rep, gw2)
    \<and> sint (book (gw_ledger gw2) (req_AccountID req, Online)) = sint (book (gw_ledger demo_gateway) (req_AccountID req, Online)) - sint (req_Amount req)
    \<and> 0 < sint (req_Amount req)"
proof -
  let ?gw = "demo_gateway\<lparr>networkStatus := NetworkDisconnected\<rparr>" and ?req = "demo_request ''K'' 1200"
  let ?tx = "queued_tx ?req demo_token (sequenceNum demo_edge + 1)"
  obtain resp gw1 where p: "ProcessPayment demo_env ?req ?gw = Some (resp, gw1)" "authorized resp"
    using demo_offline by blast
  have empty: "ReadAllPending (store_of demo_codec ''wal'' []) = []" by (simp add: ReadAllPending_def store_of_def)
  have eff: "gw_ledger gw1 = demo_ledger" "gw_reconciler gw1 = NewReconciler" "ReadAllPending (edgeWAL gw1) = [?tx]"
    using offline_process[OF _ _ p(1)] p(2) store_of_wf[of "[]" demo_codec "''wal''"] empty
    by (auto simp: offline_effect_def cached_response_def)
  obtain l' s' r' rep where run: "Replay 0 (\<lambda>_ _ _. 0) 0 (gw_ledger gw1) (edgeWAL gw1) (gw_reconciler gw1) = Some (l', s', r', rep)"
    "book l' = settle_book False AccountDeficitReserve ?tx (book demo_ledger)"
    using replay_single[OF eff(3), of "gw_reconciler gw1" "gw_ledger gw1" 0 "\<lambda>_ _ _. 0" 0]
    by (auto simp: eff NewReconciler_def demo_reserve settle_blocks_def)
  have "tok_AccountID demo_token = ''ACC-1''" by (simp add: demo_token_def IssueToken_fields)
  moreover have "book l' (''ACC'', Online) = - 200"
    by (simp add: run(2) settle_book_def Let_def demo_book transfer_apply covered_def)
  ultimately show ?thesis
    using p run(1)
    by (intro exI[of _ ?req] exI[of _ demo_token] exI[of _ resp] exI[of _ gw1] exI[of _ rep]
        exI[of _ "gw1\<lparr>gw_ledger := l', edgeWAL := s', gw_reconciler := r'\<rparr>"])
      (simp add: TriggerReconciliation_def demo_book)
qed

end
