(* ===== verification/Gateway_Threads.thy ===== *)
theory Gateway_Threads
  imports Gateway_Claims
begin

text \<open>
  Concurrent payments of the gateway (\<open>ProcessPayment\<close> and its handlers in \<open>internal/gateway/m1_api.go\<close>), at the
  granularity of the calls into the components: every goroutine of the HTTP server runs its own \<open>ProcessPayment\<close>, and between two accesses to shared
  state other requests may run. One step is one access: the atomic counter, the lookup under
  \<open>idempotencyMu\<close>, the read of a registered key, the read of the network status, and one call of the
  authorizer, the log, the fraud engine or the ledger, each of which locks itself (for the ledger, \<open>Ledger_Concurrent\<close>
  shows that such a call may be taken as one step). The screening step also reads the switch before it, and the
  log gets its clock and outcome from the \<open>env\<close> of the request.
\<close>

section \<open>A payment under way\<close>

datatype payment =
    Arriving env PaymentRequest
  | Looking env PaymentRequest
  | Verifying env PaymentRequest
  | Routing env PaymentRequest
  | Authorizing env PaymentRequest
  | Queueing env PaymentRequest OfflineAuthorizationToken int64
  | Screening env PaymentRequest
  | Reserving env PaymentRequest float64
  | Committing env PaymentRequest float64
  | Releasing env PaymentRequest float64 ledger_error
  | Remembering PaymentRequest PaymentResponse
  | Answered PaymentRequest PaymentResponse
  | Replayed PaymentResponse
  | Panicked

text \<open>The next access of a payment to shared state; \<open>None\<close> when it is over.\<close>

fun payment_step :: "payment \<Rightarrow> PaymentGateway \<Rightarrow> (payment \<times> PaymentGateway) option" where
  "payment_step (Arriving ev req) gw = Some (Looking ev (fill_defaults ev req), gw\<lparr>requestCounter := requestCounter gw + 1\<rparr>)"
| "payment_step (Looking ev req) gw =
     (case cached_response req gw of Some cached \<Rightarrow> Some (Replayed cached, gw) | None \<Rightarrow> Some (Verifying ev req, gw))"
| "payment_step (Verifying ev req) gw =
     (case check_dynamic_qr ev req gw of Some resp \<Rightarrow> Some (Remembering req resp, gw) | None \<Rightarrow> Some (Routing ev req, gw))"
| "payment_step (Routing ev req) gw =
     (if networkStatus gw = NetworkDisconnected then Some (Authorizing ev req, gw) else Some (Screening ev req, gw))"
| "payment_step (Authorizing ev req) gw =
     (case OfflineToken req of
        None \<Rightarrow> Some (Remembering req (NewDeclineResponse CodeOfflineTokenInvalid
                  ''Network partition active: Offline authorization token is required.'' 0), gw)
      | Some tok \<Rightarrow>
          (case AuthorizeOffline (env_ed ev) (env_auth_time ev) tok (req_Amount req) (edgeAuthorizer gw) of
             None \<Rightarrow> Some (Panicked, gw)
           | Some (decision, ea) \<Rightarrow>
               let gw1 = gw\<lparr>edgeAuthorizer := ea\<rparr> in
               if \<not> dec_Approved decision then
                 Some (Remembering req (NewDeclineResponse (dec_ReasonCode decision) (dec_Message decision) 0), gw1)
               else Some (Queueing ev req tok (dec_SequenceNum decision), gw1)))"
| "payment_step (Queueing ev req tok n) gw =
     (case Append (env_codec ev) (env_io ev) (queued_tx req tok n) (edgeWAL gw) of
        (Some e, wal) \<Rightarrow> Some (Remembering req (NewDeclineResponse CodeSystemError
           (''Failed to commit to local edge storage: '' @ wal_error_text e) 0), gw\<lparr>edgeWAL := wal\<rparr>)
      | (None, wal) \<Rightarrow> Some (Remembering req (NewOfflineApprovalResponse (req_TxID req) (req_AccountID req)
           (req_Amount req) (TokenID tok)), gw\<lparr>edgeWAL := wal\<rparr>))"
| "payment_step (Screening ev req) gw =
     (case screen_request ev req gw of
        (Inl resp, gw1) \<Rightarrow> Some (Remembering req resp, gw1)
      | (Inr fraudScore, gw1) \<Rightarrow> Some (Reserving ev req fraudScore, gw1))"
| "payment_step (Reserving ev req fraudScore) gw =
     (case ReserveFunds (env_reserve_clk ev) (req_AccountID req) (req_Amount req) (req_TxID req) (gw_ledger gw) of
        (Inl err, l) \<Rightarrow>
          Some (Remembering req
            (if err = ErrInsufficientFunds then
               NewDeclineResponse CodeInsufficientFunds ''Account has insufficient available funds.'' fraudScore
             else NewDeclineResponse CodeSystemError (''Ledger reservation failure: '' @ ledger_error_text err) fraudScore),
            gw\<lparr>gw_ledger := l\<rparr>)
      | (Inr resID, l) \<Rightarrow> Some (Committing ev req fraudScore, gw\<lparr>gw_ledger := l\<rparr>))"
| "payment_step (Committing ev req fraudScore) gw =
     (case CommitHold (env_commit_clk ev) (req_AccountID req) (req_MerchantID req) (req_Amount req) (req_TxID req) (gw_ledger gw) of
        (Some err, l) \<Rightarrow> Some (Releasing ev req fraudScore err, gw\<lparr>gw_ledger := l\<rparr>)
      | (None, l) \<Rightarrow> Some (Remembering req (NewApprovalResponse (req_TxID req) (req_AccountID req) (req_Amount req) fraudScore),
          gw\<lparr>gw_ledger := l\<rparr>))"
| "payment_step (Releasing ev req fraudScore err) gw =
     Some (Remembering req (NewDeclineResponse CodeSystemError (''Ledger commit failure: '' @ ledger_error_text err) fraudScore),
       gw\<lparr>gw_ledger := snd (ReleaseHold (env_release_clk ev) (req_AccountID req) (req_Amount req) (req_TxID req) (gw_ledger gw))\<rparr>)"
| "payment_step (Remembering req resp) gw = Some (Answered req resp, remember (IdempotencyKey req) resp gw)"
| "payment_step (Answered req resp) gw = None"
| "payment_step (Replayed resp) gw = None"
| "payment_step Panicked gw = None"

text \<open>Payments side by side, and the configuration calls of the server between their steps.\<close>

inductive payments_step :: "payment list \<times> PaymentGateway \<Rightarrow> payment list \<times> PaymentGateway \<Rightarrow> bool" where
  pay: "i < length ps \<Longrightarrow> payment_step (ps ! i) gw = Some (p, gw') \<Longrightarrow> payments_step (ps, gw) (ps[i := p], gw')"
| network: "payments_step (ps, gw) (ps, SetNetworkStatus st gw)"
| screening: "payments_step (ps, gw) (ps, SetFraudScreeningEnabled b gw)"
| key: "payments_step (ps, gw) (ps, RegisterTerminalKey t k gw)"

inductive_cases payments_stepE: "payments_step (ps, gw) s"

text \<open>A payment that nobody interrupts, for at most \<open>n\<close> steps.\<close>

fun run_payment :: "nat \<Rightarrow> payment \<Rightarrow> PaymentGateway \<Rightarrow> payment \<times> PaymentGateway" where
  "run_payment 0 p gw = (p, gw)"
| "run_payment (Suc n) p gw =
     (case payment_step p gw of None \<Rightarrow> (p, gw) | Some (p', gw') \<Rightarrow> run_payment n p' gw')"

fun answer_of :: "payment \<Rightarrow> PaymentResponse option" where
  "answer_of (Answered req resp) = Some resp"
| "answer_of (Replayed resp) = Some resp"
| "answer_of _ = None"

section \<open>One payment alone\<close>

lemma run_over [simp]: "run_payment n (Answered req resp) gw = (Answered req resp, gw)" "run_payment n (Replayed resp) gw = (Replayed resp, gw)"
    "run_payment n Panicked gw = (Panicked, gw)"
  by (cases n, simp_all)+

lemma run_step: "payment_step p gw = Some (p', gw') \<Longrightarrow> run_payment (Suc n) p gw = run_payment n p' gw'"
  by simp

lemma run_reserving:
  assumes "pay_from_ledger ev req score (gw_ledger gw) = (resp, l)"
  shows "run_payment (4 + n) (Reserving ev req score) gw =
    (Answered req resp, remember (IdempotencyKey req) resp (gw\<lparr>gw_ledger := l\<rparr>))"
proof (cases "ReserveFunds (env_reserve_clk ev) (req_AccountID req) (req_Amount req) (req_TxID req) (gw_ledger gw)")
  case (Pair r l1)
  show ?thesis
  proof (cases r)
    case (Inl err)
    with Pair assms show ?thesis by (auto simp: eval_nat_numeral pay_from_ledger_def split: if_splits)
  next
    case (Inr resID)
    obtain e l2 where "CommitHold (env_commit_clk ev) (req_AccountID req) (req_MerchantID req) (req_Amount req) (req_TxID req) l1 = (e, l2)"
      by force
    with Pair Inr assms show ?thesis by (cases e) (auto simp: eval_nat_numeral pay_from_ledger_def)
  qed
qed

lemma run_screening:
  assumes "handleOnlinePayment ev req gw = (resp, gw')"
  shows "run_payment (5 + n) (Screening ev req) gw = (Answered req resp, remember (IdempotencyKey req) resp gw')"
proof -
  obtain out gw1 where s: "screen_request ev req gw = (out, gw1)" by force
  show ?thesis
  proof (cases out)
    case (Inl d)
    with s assms show ?thesis by (simp add: eval_nat_numeral handleOnlinePayment_def)
  next
    case (Inr score)
    obtain resp' l where p: "pay_from_ledger ev req score (gw_ledger gw1) = (resp', l)" by force
    have "run_payment (Suc (4 + n)) (Screening ev req) gw = run_payment (4 + n) (Reserving ev req score) gw1"
      by (rule run_step) (use s Inr in simp)
    moreover have "resp = resp'" "gw' = gw1\<lparr>gw_ledger := l\<rparr>" using s Inr assms p by (simp_all add: handleOnlinePayment_def)
    ultimately show ?thesis using run_reserving[OF p, of n] by simp
  qed
qed

lemma run_authorizing:
  "run_payment (3 + n) (Authorizing ev req) gw =
    (case handleOfflinePayment ev req gw of None \<Rightarrow> (Panicked, gw)
     | Some (resp, gw') \<Rightarrow> (Answered req resp, remember (IdempotencyKey req) resp gw'))"
proof (cases "OfflineToken req")
  case (Some tok)
  show ?thesis
  proof (cases "AuthorizeOffline (env_ed ev) (env_auth_time ev) tok (req_Amount req) (edgeAuthorizer gw)")
    case (Some d)
    obtain dec ea where d: "d = (dec, ea)" by force
    obtain e wal where "Append (env_codec ev) (env_io ev) (queued_tx req tok (dec_SequenceNum dec)) (edgeWAL gw) = (e, wal)" by force
    with Some \<open>OfflineToken req = Some tok\<close> d show ?thesis
      by (cases e) (simp_all add: eval_nat_numeral handleOfflinePayment_def Let_def)
  qed (use Some in \<open>simp add: eval_nat_numeral handleOfflinePayment_def\<close>)
qed (simp add: eval_nat_numeral handleOfflinePayment_def)

lemma run_routing:
  "run_payment (6 + n) (Routing ev req) gw =
    (case route_payment ev req gw of None \<Rightarrow> (Panicked, gw)
     | Some (resp, gw') \<Rightarrow> (Answered req resp, remember (IdempotencyKey req) resp gw'))"
proof (cases "networkStatus gw = NetworkDisconnected")
  case True
  then have "run_payment (Suc (3 + (n + 2))) (Routing ev req) gw = run_payment (3 + (n + 2)) (Authorizing ev req) gw"
    by (intro run_step) simp
  then show ?thesis using True run_authorizing[of "n + 2" ev req gw] by (simp add: route_payment_def)
next
  case False
  obtain resp gw' where "handleOnlinePayment ev req gw = (resp, gw')" by force
  moreover have "run_payment (Suc (5 + n)) (Routing ev req) gw = run_payment (5 + n) (Screening ev req) gw"
    by (rule run_step) (use False in simp)
  ultimately show ?thesis using False run_screening[of ev req gw resp gw' n] by (simp add: route_payment_def)
qed

lemma run_verifying:
  "run_payment (7 + n) (Verifying ev req) gw =
    (case check_dynamic_qr ev req gw of Some resp \<Rightarrow> (Answered req resp, remember (IdempotencyKey req) resp gw)
     | None \<Rightarrow> (case route_payment ev req gw of None \<Rightarrow> (Panicked, gw)
         | Some (resp, gw') \<Rightarrow> (Answered req resp, remember (IdempotencyKey req) resp gw')))"
proof (cases "check_dynamic_qr ev req gw")
  case None
  then have "run_payment (Suc (6 + n)) (Verifying ev req) gw = run_payment (6 + n) (Routing ev req) gw"
    by (intro run_step) simp
  with None run_routing[of n ev req gw] show ?thesis by simp
next
  case (Some resp)
  then have "run_payment (Suc (6 + n)) (Verifying ev req) gw = run_payment (6 + n) (Remembering req resp) gw"
    by (intro run_step) simp
  moreover have "run_payment (Suc (5 + n)) (Remembering req resp) gw = run_payment (5 + n) (Answered req resp) (remember (IdempotencyKey req) resp gw)"
    by (rule run_step) simp
  ultimately show ?thesis using Some by simp
qed

text \<open>
  The steps are those of the sequential model: a payment that nobody interrupts, run step by step from its arrival,
  ends after at most nine steps with the answer and the gateway that \<open>ProcessPayment\<close> computes in one go, and panics
  exactly when that does.
\<close>

theorem payment_alone:
  "map_option (\<lambda>resp. (resp, snd (run_payment 9 (Arriving ev req) gw))) (answer_of (fst (run_payment 9 (Arriving ev req) gw)))
     = ProcessPayment ev req gw"
proof -
  let ?gw = "gw\<lparr>requestCounter := requestCounter gw + 1\<rparr>" and ?req = "fill_defaults ev req"
  have "run_payment 9 (Arriving ev req) gw =
      (case cached_response ?req ?gw of Some c \<Rightarrow> (Replayed c, ?gw) | None \<Rightarrow> run_payment 7 (Verifying ev ?req) ?gw)"
    using run_payment.simps(2)[of 8 "Arriving ev req" gw] run_payment.simps(2)[of 7 "Looking ev ?req" ?gw]
    by (simp split: option.split)
  then show ?thesis
    using run_verifying[of 0 ev ?req ?gw]
    by (simp add: ProcessPayment_def Let_def split: option.split prod.split)
qed

end
