(* ===== verification/Gateway_Concurrent.thy ===== *)
theory Gateway_Concurrent
  imports Gateway_Threads
begin

text \<open>
  What concurrent payments guarantee: every cent is accounted for at every moment and no approved hold is rolled
  back; and what they do not: two requests with one idempotency key may both be paid.
\<close>

section \<open>What a payment has moved so far\<close>

definition shift :: "position \<Rightarrow> position \<Rightarrow> int \<Rightarrow> position \<Rightarrow> int" where
  "shift p q x r = (if r = q then x else 0) - (if r = p then x else 0)"

definition charge :: "PaymentRequest \<Rightarrow> PaymentResponse \<Rightarrow> position \<Rightarrow> int" where
  "charge req resp =
     (if Status resp = ''APPROVED'' then shift (req_AccountID req, Online) (req_MerchantID req, Online) (sint (req_Amount req))
      else (\<lambda>_. 0))"

fun moved :: "payment \<Rightarrow> position \<Rightarrow> int" where
  "moved (Committing ev req score) = shift (req_AccountID req, Online) (req_AccountID req, Reserved) (sint (req_Amount req))"
| "moved (Remembering req resp) = charge req resp"
| "moved (Answered req resp) = charge req resp"
| "moved _ = (\<lambda>_. 0)"

fun is_Arriving :: "payment \<Rightarrow> bool" where
  "is_Arriving (Arriving ev req) = True"
| "is_Arriving _ = False"

fun is_Releasing :: "payment \<Rightarrow> bool" where
  "is_Releasing (Releasing ev req score err) = True"
| "is_Releasing _ = False"

text \<open>A hold that was taken is positive and no hold has failed to commit.\<close>

fun sound_phase :: "payment \<Rightarrow> bool" where
  "sound_phase (Committing ev req score) = (0 < sint (req_Amount req))"
| "sound_phase p = (\<not> is_Releasing p)"

lemma charge_declined [simp]: "charge req (NewDeclineResponse c m s) = (\<lambda>_. 0)"
  "charge req (NewOfflineApprovalResponse t a x k) = (\<lambda>_. 0)"
  "charge req (NewApprovalResponse t a x score) = shift (req_AccountID req, Online) (req_MerchantID req, Online) (sint (req_Amount req))"
  by (simp_all add: charge_def NewDeclineResponse_def NewOfflineApprovalResponse_def NewApprovalResponse_def)

lemma charge_not_authorized: "\<not> authorized resp \<Longrightarrow> charge req resp = (\<lambda>_. 0)"
  by (simp add: charge_def authorized_def)

lemma sint_shift:
  assumes "finite K" "fst p \<in> K" "fst q \<in> K" and "p \<noteq> q" and "solvent K b" and "covered x p b"
  shows "sint (transfer p q x b r) = sint (b r) + shift p q (sint x) r"
  using fun_cong[OF sint_transfer[OF assms(1-5)], of x r] assms(4,6) by (auto simp: covered_def shift_def)

text \<open>A checked ledger call keeps the ledger well-formed and solvent.\<close>

lemma checked_exec_solvent:
  assumes "ledger_wf l" and "solvent (account_names l) (book l)" and "checked op" and "exec_op op l = Some l'"
  shows "ledger_wf l'" and "solvent (account_names l') (book l')"
proof -
  have "checked_step l l'" using assms(3,4) by (rule checked_step.intros)
  then show "solvent (account_names l') (book l')" using cled.solvent_step[of l l'] assms(1,2) by blast
  show "ledger_wf l'" using assms(1,4) by (rule ledger_wf_exec)
qed

lemma reserve_moves:
  assumes wf: "ledger_wf l" and sol: "solvent (account_names l) (book l)" and r: "ReserveFunds clk a x t l = (r, l')"
  shows "ledger_wf l'" and "solvent (account_names l') (book l')"
    and "r = Inr resID \<Longrightarrow> 0 < sint x \<and> (\<forall>q. sint (book l' q) = sint (book l q) + shift (a, Online) (a, Reserved) (sint x) q)"
    and "r = Inl err \<Longrightarrow> book l' = book l"
proof -
  have "exec_op (Op_Reserve clk a x t) l = Some l'" using r by simp
  then show "ledger_wf l'" "solvent (account_names l') (book l')"
    using checked_exec_solvent[OF wf sol, of "Op_Reserve clk a x t"] by simp_all
  note ok = ReserveFunds_ok[of clk a x t l] and bk = ReserveFunds_book[of clk a x t l]
  show "book l' = book l" if "r = Inl err" using that r ok bk by (simp add: guarded_transfer_def)
  show "0 < sint x \<and> (\<forall>q. sint (book l' q) = sint (book l q) + shift (a, Online) (a, Reserved) (sint x) q)" if "r = Inr resID"
  proof -
    have c: "covered x (a, Online) (book l)" using that r ok by simp
    moreover have "a \<in> account_names l" "finite (account_names l)" using coveredD[OF c] wf by (simp_all add: ledger_wf_def)
    ultimately show ?thesis
      using r bk sint_shift[of "account_names l" "(a, Online)" "(a, Reserved)" "book l" x] sol
      by (simp add: guarded_transfer_def covered_def)
  qed
qed

lemma commit_moves:
  assumes wf: "ledger_wf l" and sol: "solvent (account_names l) (book l)" and r: "CommitHold clk a d x t l = (r, l')"
    and held: "0 < sint x" "sint x \<le> sint (book l (a, Reserved))"
  shows "ledger_wf l'" and "solvent (account_names l') (book l')" and "r = None"
    and "sint (book l' q) = sint (book l q) + shift (a, Reserved) (d, Online) (sint x) q"
proof -
  have ex: "exec_op (Op_CommitHold clk a d x t) l = Some l'" using r by simp
  then show wf': "ledger_wf l'" and "solvent (account_names l') (book l')"
    using checked_exec_solvent[OF wf sol, of "Op_CommitHold clk a d x t"] by simp_all
  have c: "covered x (a, Reserved) (book l)" using held by (simp add: covered_def)
  then show "r = None" using r CommitHold_ok[of clk a d x t l] by simp
  let ?K = "insert d (account_names l)"
  have a: "a \<in> ?K" using coveredD[OF c] by simp
  have fin: "finite ?K" using wf by (simp add: ledger_wf_def)
  then have "solvent ?K (book l)" using solvent_extend[of ?K "account_names l" "book l"] sol by (auto simp: book_outside)
  with a fin c have "sint (transfer (a, Reserved) (d, Online) x (book l) q) = sint (book l q) + shift (a, Reserved) (d, Online) (sint x) q"
    by (intro sint_shift[of ?K]) auto
  with c r CommitHold_book[of clk a d x t l] show "sint (book l' q) = sint (book l q) + shift (a, Reserved) (d, Online) (sint x) q"
    by (simp add: guarded_transfer_def)
qed

section \<open>One step\<close>

definition sound_ledger :: "ConservingLedger \<Rightarrow> bool" where
  "sound_ledger l \<longleftrightarrow> ledger_wf l \<and> solvent (account_names l) (book l)"

lemma payment_step_moves:
  assumes "payment_step p gw = Some (p', gw')" and "sound_ledger (gw_ledger gw)" and "sound_phase p"
    and "\<And>ev req score. p = Committing ev req score \<Longrightarrow> sint (req_Amount req) \<le> sint (book (gw_ledger gw) (req_AccountID req, Reserved))"
  shows "sound_ledger (gw_ledger gw') \<and> sound_phase p' \<and>
    (\<forall>q. sint (book (gw_ledger gw') q) - moved p' q = sint (book (gw_ledger gw) q) - moved p q)"
proof (cases p)
  case (Reserving ev req score)
  obtain r l where r: "ReserveFunds (env_reserve_clk ev) (req_AccountID req) (req_Amount req) (req_TxID req) (gw_ledger gw) = (r, l)" by force
  have s: "ledger_wf (gw_ledger gw)" "solvent (account_names (gw_ledger gw)) (book (gw_ledger gw))"
    using assms(2) by (simp_all add: sound_ledger_def)
  note m = reserve_moves[OF s r]
  show ?thesis
  proof (cases r)
    case (Inl e)
    with assms(1) Reserving r m show ?thesis by (auto simp: sound_ledger_def)
  next
    case (Inr resID)
    with assms(1) Reserving r m show ?thesis by (simp add: sound_ledger_def) (elim conjE, hypsubst, simp)
  qed
next
  case (Committing ev req score)
  obtain r l where r: "CommitHold (env_commit_clk ev) (req_AccountID req) (req_MerchantID req) (req_Amount req) (req_TxID req) (gw_ledger gw) = (r, l)"
    by force
  have s: "ledger_wf (gw_ledger gw)" "solvent (account_names (gw_ledger gw)) (book (gw_ledger gw))"
    using assms(2) by (simp_all add: sound_ledger_def)
  note m = commit_moves[OF s r] 
  have "0 < sint (req_Amount req)" "sint (req_Amount req) \<le> sint (book (gw_ledger gw) (req_AccountID req, Reserved))"
    using assms(3,4) Committing by simp_all
  note m = m[OF this]
  have "p' = Remembering req (NewApprovalResponse (req_TxID req) (req_AccountID req) (req_Amount req) score)" "gw_ledger gw' = l"
    using assms(1) Committing r m(3) by auto
  with m Committing show ?thesis by (simp add: sound_ledger_def shift_def)
next
  case (Screening ev req)
  obtain out gw1 where s: "screen_request ev req gw = (out, gw1)" by force
  show ?thesis
  proof (cases out)
    case (Inl resp)
    then have "charge req resp = (\<lambda>_. 0)" using s screen_request_declines[of ev req gw resp] charge_not_authorized by simp
    with Inl s assms(1,2) Screening screen_request_frame(2)[OF s] show ?thesis by auto
  next
    case (Inr score)
    with s assms(1,2) Screening screen_request_frame(2)[OF s] show ?thesis by auto
  qed
next
  case (Verifying ev req)
  show ?thesis
  proof (cases "check_dynamic_qr ev req gw")
    case (Some resp)
    then have "charge req resp = (\<lambda>_. 0)" using check_dynamic_qr_declines[of ev req gw resp] charge_not_authorized by simp
    with Some assms(1,2) Verifying show ?thesis by auto
  qed (use assms(1,2) Verifying in auto)
qed (use assms in \<open>auto simp: Let_def split: option.splits prod.splits if_splits\<close>)

section \<open>Every interleaving\<close>

definition accounted :: "(position \<Rightarrow> int) \<Rightarrow> payment list \<times> PaymentGateway \<Rightarrow> bool" where
  "accounted b0 s \<longleftrightarrow> sound_ledger (gw_ledger (snd s)) \<and> list_all sound_phase (fst s) \<and>
     (\<forall>q. sint (book (gw_ledger (snd s)) q) = b0 q + (\<Sum>p\<leftarrow>fst s. moved p q))"

lemma moved_reserved: "sound_phase p \<Longrightarrow> 0 \<le> moved p (k, Reserved)"
  by (cases p) (auto simp: shift_def charge_def)

lemma accounted_step:
  assumes "payments_step s s'" and "accounted b0 s" and "\<And>q. 0 \<le> b0 q"
  shows "accounted b0 s'"
  using assms(1)
proof cases
  case (pay i ps gw p gw')
  have inv: "sound_ledger (gw_ledger gw)" "list_all sound_phase ps"
    "\<And>q. sint (book (gw_ledger gw) q) = b0 q + (\<Sum>p\<leftarrow>ps. moved p q)" using assms(2) pay(1) by (auto simp: accounted_def)
  define xs ys where "xs = take i ps" and "ys = drop (Suc i) ps"
  have ps: "ps = xs @ ps ! i # ys" "ps[i := p] = xs @ p # ys"
    using pay(3) by (simp_all add: xs_def ys_def id_take_nth_drop upd_conv_take_nth_drop)
  have total: "(\<Sum>p\<leftarrow>ps. moved p q) = (\<Sum>p\<leftarrow>xs. moved p q) + moved (ps ! i) q + (\<Sum>p\<leftarrow>ys. moved p q)" for q
    by (subst ps(1)) simp
  have sound: "list_all sound_phase xs" "sound_phase (ps ! i)" "list_all sound_phase ys"
    using inv(2) by (subst (asm) ps(1), simp)+
  have rest: "0 \<le> (\<Sum>p\<leftarrow>zs. moved p (k, Reserved))" if "list_all sound_phase zs" for zs k
    using that by (intro sum_list_nonneg) (auto simp: list_all_iff moved_reserved)
  have "sint (req_Amount req) \<le> sint (book (gw_ledger gw) (req_AccountID req, Reserved))" if "ps ! i = Committing ev req score" for ev req score
    using that assms(3)[of "(req_AccountID req, Reserved)"] rest[OF sound(1), of "req_AccountID req"] rest[OF sound(3), of "req_AccountID req"]
    by (simp add: inv(3) total shift_def)
  from payment_step_moves[OF pay(4) inv(1) sound(2) this]
  have s': "sound_ledger (gw_ledger gw')" "sound_phase p"
    "\<And>q. sint (book (gw_ledger gw') q) = sint (book (gw_ledger gw) q) - moved (ps ! i) q + moved p q" by (auto simp: algebra_simps)
  then show ?thesis using sound unfolding pay(2) by (simp add: accounted_def ps(2) inv(3) total)
qed (use assms(2) in \<open>simp_all add: accounted_def SetNetworkStatus_def SetFraudScreeningEnabled_def RegisterTerminalKey_def\<close>)

lemma accounted_steps:
  "payments_step\<^sup>*\<^sup>* s s' \<Longrightarrow> accounted b0 s \<Longrightarrow> (\<And>q. 0 \<le> b0 q) \<Longrightarrow> accounted b0 s'"
  by (induction rule: rtranclp_induct) (auto intro: accounted_step)

text \<open>
  C4. Concurrent payments are accounted for: let any number of requests be processed side by side, interleaved in any way
  with each other and with changes of the network, the screening switch and the terminal keys, on a ledger that is
  well-formed and solvent. At every moment the buckets of every account are, over the integers, what
  they were plus what the payments moved: an approved online payment has moved its amount from the account to
  the merchant, one between reservation and commit has it in the reserved bucket, every other one has moved nothing. No
  payment is ever rolled back after its reservation, and the ledger stays solvent, so that the approved payments never spend more than there was.
\<close>

theorem concurrent_payments_accounted:
  assumes "ledger_wf (gw_ledger gw)" and "solvent (account_names (gw_ledger gw)) (book (gw_ledger gw))"
    and "list_all is_Arriving ps" and "payments_step\<^sup>*\<^sup>* (ps, gw) (ps', gw')"
  shows "(\<forall>q. sint (book (gw_ledger gw') q) = sint (book (gw_ledger gw) q) + (\<Sum>p\<leftarrow>ps'. moved p q)) \<and>
    (\<forall>q. 0 \<le> sint (book (gw_ledger gw') q)) \<and> \<not> list_ex is_Releasing ps'"
proof -
  have nonneg: "0 \<le> sint (book l q)" if "sound_ledger l" for l q
    using that book_outside[of "fst q" l "snd q"] by (cases "fst q \<in> account_names l"; cases q) (auto simp: sound_ledger_def solvent_def)
  have sl: "sound_ledger (gw_ledger gw)" using assms(1,2) by (simp add: sound_ledger_def)
  have "moved p q = 0 \<and> sound_phase p" if "is_Arriving p" for p q using that by (cases p) auto
  then have "list_all sound_phase ps \<and> (\<forall>q. (\<Sum>p\<leftarrow>ps. moved p q) = 0)" using assms(3) by (induction ps) auto
  then have "accounted (\<lambda>q. sint (book (gw_ledger gw) q)) (ps, gw)" using sl by (simp add: accounted_def)
  then have "accounted (\<lambda>q. sint (book (gw_ledger gw) q)) (ps', gw')"
    using accounted_steps[OF assms(4)] nonneg[OF sl] by simp
  moreover have "\<not> is_Releasing p" if "sound_phase p" for p using that by (cases p) auto
  ultimately show ?thesis using nonneg[of "gw_ledger gw'"] by (auto simp: accounted_def list_all_iff list_ex_iff)
qed

section \<open>Two requests with one key\<close>

text \<open>The part of \<open>ProcessPayment\<close> between the lookup in the cache and the write to it.\<close>

definition uncached :: "env \<Rightarrow> PaymentRequest \<Rightarrow> PaymentGateway \<Rightarrow> (PaymentResponse \<times> PaymentGateway) option" where
  "uncached ev req gw = (case check_dynamic_qr ev req gw of Some resp \<Rightarrow> Some (resp, gw) | None \<Rightarrow> route_payment ev req gw)"

definition recached :: "(string \<rightharpoonup> PaymentResponse) \<Rightarrow> int64 \<Rightarrow> PaymentGateway \<Rightarrow> PaymentGateway" where
  "recached m n gw = gw\<lparr>idempotency := m, requestCounter := n\<rparr>"

lemma recached_fields [simp]:
  "gw_ledger (recached m n gw) = gw_ledger gw" "edgeWAL (recached m n gw) = edgeWAL gw"
  "networkStatus (recached m n gw) = networkStatus gw" "terminalKeys (recached m n gw) = terminalKeys gw"
  "fraudEngine (recached m n gw) = fraudEngine gw" "edgeAuthorizer (recached m n gw) = edgeAuthorizer gw"
  "fraudScreeningEnabled (recached m n gw) = fraudScreeningEnabled gw"
  "(recached m n gw)\<lparr>gw_ledger := l\<rparr> = recached m n (gw\<lparr>gw_ledger := l\<rparr>)"
  "(recached m n gw)\<lparr>edgeWAL := w\<rparr> = recached m n (gw\<lparr>edgeWAL := w\<rparr>)"
  "(recached m n gw)\<lparr>edgeAuthorizer := a\<rparr> = recached m n (gw\<lparr>edgeAuthorizer := a\<rparr>)"
  "(recached m n gw)\<lparr>fraudEngine := f\<rparr> = recached m n (gw\<lparr>fraudEngine := f\<rparr>)"
  "recached m n (recached m' n' gw) = recached m n gw"
  by (simp_all add: recached_def)

lemma remember_recached: "remember k r (recached m n gw) = recached (if k \<noteq> '''' then m(k \<mapsto> r) else m) n gw"
  by (cases gw) (simp add: remember_def recached_def)

lemma screen_request_recached:
  "screen_request ev req (recached m n gw) = map_prod id (recached m n) (screen_request ev req gw)"
  by (simp add: screen_request_def Let_def split: option.split prod.split)

lemma handleOnlinePayment_recached:
  "handleOnlinePayment ev req (recached m n gw) = map_prod id (recached m n) (handleOnlinePayment ev req gw)"
  by (simp add: handleOnlinePayment_def screen_request_recached split: prod.split sum.split)

lemma handleOfflinePayment_recached:
  "handleOfflinePayment ev req (recached m n gw) = map_option (map_prod id (recached m n)) (handleOfflinePayment ev req gw)"
  by (simp add: handleOfflinePayment_def Let_def split: prod.split option.split)

lemma uncached_recached:
  "uncached ev req (recached m n gw) = map_option (map_prod id (recached m n)) (uncached ev req gw)"
proof -
  have "check_dynamic_qr ev req (recached m n gw) = check_dynamic_qr ev req gw"
    by (simp add: check_dynamic_qr_def split: option.split)
  then show ?thesis
    by (simp add: uncached_def route_payment_def handleOnlinePayment_recached handleOfflinePayment_recached split: option.split)
qed

lemma uncached_key: "uncached ev (req\<lparr>IdempotencyKey := k\<rparr>) gw = uncached ev req gw"
proof -
  let ?req = "req\<lparr>IdempotencyKey := k\<rparr>"
  have "queued_tx ?req tok n = queued_tx req tok n" for tok n by (simp add: queued_tx_def)
  then have "handleOfflinePayment ev ?req gw = handleOfflinePayment ev req gw"
    by (simp add: handleOfflinePayment_def Let_def split: option.split prod.split)
  moreover have "screen_request ev ?req gw = screen_request ev req gw"
    by (simp add: screen_request_def split: option.split)
  moreover have "pay_from_ledger ev ?req score l = pay_from_ledger ev req score l" for score l
    by (simp add: pay_from_ledger_def split: sum.split prod.split option.split)
  ultimately have "route_payment ev ?req gw = route_payment ev req gw"
    by (simp add: route_payment_def handleOnlinePayment_def split: sum.split prod.split)
  moreover have "check_dynamic_qr ev ?req gw = check_dynamic_qr ev req gw"
    by (simp add: check_dynamic_qr_def split: option.split)
  ultimately show ?thesis by (simp add: uncached_def split: option.split)
qed

lemma ProcessPayment_no_key:
  "ProcessPayment ev (req\<lparr>IdempotencyKey := ''''\<rparr>) gw = uncached ev (fill_defaults ev req) (gw\<lparr>requestCounter := requestCounter gw + 1\<rparr>)"
proof -
  have "fill_defaults ev (req\<lparr>IdempotencyKey := ''''\<rparr>) = (fill_defaults ev req)\<lparr>IdempotencyKey := ''''\<rparr>"
    by (simp add: fill_defaults_def Let_def)
  then have "ProcessPayment ev (req\<lparr>IdempotencyKey := ''''\<rparr>) gw =
      uncached ev ((fill_defaults ev req)\<lparr>IdempotencyKey := ''''\<rparr>) (gw\<lparr>requestCounter := requestCounter gw + 1\<rparr>)"
    by (simp add: ProcessPayment_def Let_def cached_response_def remember_def uncached_def split: option.split prod.split)
  then show ?thesis by (simp add: uncached_key)
qed

lemma run_uncached:
  "uncached ev req gw = Some (resp, gw') \<Longrightarrow> run_payment 7 (Verifying ev req) gw = (Answered req resp, remember (IdempotencyKey req) resp gw')"
  using run_verifying[of 0 ev req gw] by (simp add: uncached_def split: option.splits)

lemma run_payment_steps:
  "run_payment n p gw = (p', gw') \<Longrightarrow> i < length ps \<Longrightarrow> ps ! i = p \<Longrightarrow> payments_step\<^sup>*\<^sup>* (ps, gw) (ps[i := p'], gw')"
proof (induction n arbitrary: p gw ps)
  case 0
  then show ?case by (metis list_update_id rtranclp.rtrancl_refl prod.inject run_payment.simps(1))
next
  case (Suc n)
  show ?case
  proof (cases "payment_step p gw")
    case None
    with Suc.prems show ?thesis by (auto simp: list_update_same_conv)
  next
    case (Some a)
    obtain p1 gw1 where a: "a = (p1, gw1)" by force
    have "payments_step (ps, gw) (ps[i := p1], gw1)" using Some a Suc.prems by (intro payments_step.pay) simp_all
    moreover have "payments_step\<^sup>*\<^sup>* (ps[i := p1], gw1) (ps[i := p1, i := p'], gw')"
      by (rule Suc.IH) (use Some a Suc.prems in simp_all)
    ultimately show ?thesis by (simp add: converse_rtranclp_into_rtranclp)
  qed
qed

text \<open>
  C10. Idempotency is not kept under concurrency: the lookup of a key and the write of the answer are separate critical
  sections. Two requests with the same new key that run side by side can both find the cache empty; each is
  then answered, and the ledger and the log are left, as if they were two payments without any key, one after the other.
\<close>

theorem same_key_pays_twice:
  assumes "cached_response req gw = None"
    and "ProcessPayment ev1 (req\<lparr>IdempotencyKey := ''''\<rparr>) gw = Some (r1, gw1)"
    and "ProcessPayment ev2 (req\<lparr>IdempotencyKey := ''''\<rparr>) gw1 = Some (r2, gw2)"
  shows "\<exists>gw'. payments_step\<^sup>*\<^sup>* ([Arriving ev1 req, Arriving ev2 req], gw)
      ([Answered (fill_defaults ev1 req) r1, Answered (fill_defaults ev2 req) r2], gw') \<and>
    gw_ledger gw' = gw_ledger gw2 \<and> edgeWAL gw' = edgeWAL gw2"
proof -
  let ?q1 = "fill_defaults ev1 req" and ?q2 = "fill_defaults ev2 req"
  have key: "cached_response (fill_defaults ev req) (gw\<lparr>requestCounter := n\<rparr>) = None" for ev n
    using assms(1) by (auto simp: cached_response_def split: if_splits)
  have re: "g\<lparr>requestCounter := n\<rparr> = recached (idempotency g) n g" for g n by (simp add: recached_def)
  have u1: "uncached ev1 ?q1 (recached m n gw) = Some (r1, recached m n gw1)" for m n
    using assms(2) uncached_recached[of ev1 ?q1 _ _ gw] by (auto simp: ProcessPayment_no_key re)
  have u2: "uncached ev2 ?q2 (recached m n gw1) = Some (r2, recached m n gw2)" for m n
    using assms(3) uncached_recached[of ev2 ?q2 _ _ gw1] by (auto simp: ProcessPayment_no_key re)
  let ?m = "idempotency gw" and ?n = "requestCounter gw + 1 + 1"
  let ?g = "recached ?m ?n gw"
  have r: "run_payment 2 (Arriving ev1 req) gw = (Verifying ev1 ?q1, recached ?m (requestCounter gw + 1) gw)"
      "run_payment 2 (Arriving ev2 req) (recached ?m (requestCounter gw + 1) gw) = (Verifying ev2 ?q2, ?g)"
    using key by (simp_all add: eval_nat_numeral recached_def)
  define m' where "m' = (if IdempotencyKey ?q1 \<noteq> '''' then ?m(IdempotencyKey ?q1 \<mapsto> r1) else ?m)"
  then have m': "remember (IdempotencyKey ?q1) r1 (recached ?m ?n gw1) = recached m' ?n gw1" by (simp add: remember_recached)
  let ?ps = "[Arriving ev1 req, Arriving ev2 req]"
  have "payments_step\<^sup>*\<^sup>* (?ps, gw) ([Verifying ev1 ?q1, Arriving ev2 req], recached ?m (requestCounter gw + 1) gw)"
    using run_payment_steps[OF r(1), of 0 ?ps] by simp
  also have "payments_step\<^sup>*\<^sup>* \<dots> ([Verifying ev1 ?q1, Verifying ev2 ?q2], ?g)"
    using run_payment_steps[OF r(2), of 1 "[Verifying ev1 ?q1, Arriving ev2 req]"] by simp
  also have "payments_step\<^sup>*\<^sup>* \<dots> ([Answered ?q1 r1, Verifying ev2 ?q2], recached m' ?n gw1)"
    using run_payment_steps[OF run_uncached[OF u1], of 0 "[Verifying ev1 ?q1, Verifying ev2 ?q2]" ?m ?n] m' by simp
  also have "payments_step\<^sup>*\<^sup>* \<dots> ([Answered ?q1 r1, Answered ?q2 r2], remember (IdempotencyKey ?q2) r2 (recached m' ?n gw2))"
    using run_payment_steps[OF run_uncached[OF u2], of 1 "[Answered ?q1 r1, Verifying ev2 ?q2]" m' ?n] by simp
  finally show ?thesis by (intro exI[of _ "remember (IdempotencyKey ?q2) r2 (recached m' ?n gw2)"]) simp
qed

text \<open>Payments without screening, for the witnesses.\<close>

definition quiet_gateway :: PaymentGateway where
  "quiet_gateway = SetFraudScreeningEnabled False demo_gateway"

lemma pay_from_ledger_sound:
  assumes "sound_ledger l"
  shows "sound_ledger (snd (pay_from_ledger ev req score l))"
proof -
  obtain r l1 where r: "ReserveFunds (env_reserve_clk ev) (req_AccountID req) (req_Amount req) (req_TxID req) l = (r, l1)" by force
  have s: "ledger_wf l" "solvent (account_names l) (book l)" using assms by (simp_all add: sound_ledger_def)
  note m = reserve_moves[OF s r]
  obtain c l2 where c: "CommitHold (env_commit_clk ev) (req_AccountID req) (req_MerchantID req) (req_Amount req) (req_TxID req) l1 = (c, l2)"
    by force
  show ?thesis
  proof (cases r)
    case (Inl e)
    with r m show ?thesis by (simp add: pay_from_ledger_def sound_ledger_def)
  next
    case (Inr resID)
    have "0 \<le> sint (book l (req_AccountID req, Reserved))"
      using s book_outside[of "req_AccountID req" l Reserved]
      by (cases "req_AccountID req \<in> account_names l") (auto simp: solvent_def)
    then have "sint (req_Amount req) \<le> sint (book l1 (req_AccountID req, Reserved))" "0 < sint (req_Amount req)"
      using m(3)[OF Inr] by (simp_all add: shift_def)
    with commit_moves[OF m(1,2) c] Inr r c show ?thesis by (simp add: pay_from_ledger_def sound_ledger_def)
  qed
qed

lemma unscreened_pays:
  assumes "\<not> fraudScreeningEnabled gw" and "networkStatus gw = ''ONLINE''" and "sound_ledger (gw_ledger gw)" and "DynamicQR req = None"
  obtains r gw' where "ProcessPayment ev (req\<lparr>IdempotencyKey := ''''\<rparr>) gw = Some (r, gw')" "\<not> fraudScreeningEnabled gw'"
    "networkStatus gw' = ''ONLINE''" "sound_ledger (gw_ledger gw')"
    "book (gw_ledger gw') = guarded_transfer (req_AccountID req, Online) (req_MerchantID req, Online) (req_Amount req) (book (gw_ledger gw))"
proof -
  let ?q = "fill_defaults ev req" and ?g = "gw\<lparr>requestCounter := requestCounter gw + 1\<rparr>"
  obtain r l where p: "pay_from_ledger ev ?q 0 (gw_ledger gw) = (r, l)" by force
  have "DynamicQR ?q = None" using assms(4) by (simp add: fill_defaults_def Let_def)
  then have "uncached ev ?q ?g = Some (r, ?g\<lparr>gw_ledger := l\<rparr>)"
    using assms p by (simp add: uncached_def check_dynamic_qr_def route_payment_def NetworkDisconnected_def handleOnlinePayment_def screen_request_def)
  with p assms pay_from_ledger_sound[of "gw_ledger gw" ev ?q 0] pay_from_ledger_outcome(2)[of "gw_ledger gw" ev ?q 0] show ?thesis
    by (intro that[of r "?g\<lparr>gw_ledger := l\<rparr>"]) (simp_all add: ProcessPayment_no_key sound_ledger_def)
qed

theorem same_key_pays_twice_witness:
  "\<exists>q1 q2 r1 r2 gw'. payments_step\<^sup>*\<^sup>*
       ([Arriving demo_env (demo_request ''K'' 300), Arriving demo_env (demo_request ''K'' 300)], quiet_gateway)
       ([Answered q1 r1, Answered q2 r2], gw') \<and>
     book (gw_ledger gw') (''ACC'', Online) = 400 \<and> book (gw_ledger gw') (''SHOP'', Online) = 600"
proof -
  let ?req = "demo_request ''K'' 300"
  have q: "\<not> fraudScreeningEnabled quiet_gateway" "networkStatus quiet_gateway = ''ONLINE''" "sound_ledger (gw_ledger quiet_gateway)"
    "cached_response ?req quiet_gateway = None" "book (gw_ledger quiet_gateway) = book demo_ledger" "DynamicQR ?req = None"
    using demo_wf demo_solvent by (simp_all add: quiet_gateway_def SetFraudScreeningEnabled_def sound_ledger_def cached_response_def)
  obtain r1 g1 where p1: "ProcessPayment demo_env (?req\<lparr>IdempotencyKey := ''''\<rparr>) quiet_gateway = Some (r1, g1)" "\<not> fraudScreeningEnabled g1"
      "networkStatus g1 = ''ONLINE''" "sound_ledger (gw_ledger g1)"
      "book (gw_ledger g1) = guarded_transfer (''ACC'', Online) (''SHOP'', Online) 300 (book demo_ledger)"
    by (rule unscreened_pays[OF q(1-3,6), of demo_env]) (use q(5) in simp)
  obtain r2 g2 where p2: "ProcessPayment demo_env (?req\<lparr>IdempotencyKey := ''''\<rparr>) g1 = Some (r2, g2)"
      "book (gw_ledger g2) = guarded_transfer (''ACC'', Online) (''SHOP'', Online) 300 (book (gw_ledger g1))"
    by (rule unscreened_pays[OF p1(2-4) q(6), of demo_env]) simp
  have "book (gw_ledger g2) (''ACC'', Online) = 400" "book (gw_ledger g2) (''SHOP'', Online) = 600"
    by (simp_all add: p2(2) p1(5) guarded_transfer_def covered_def transfer_apply demo_book)
  moreover obtain gw' where "payments_step\<^sup>*\<^sup>* ([Arriving demo_env ?req, Arriving demo_env ?req], quiet_gateway)
      ([Answered (fill_defaults demo_env ?req) r1, Answered (fill_defaults demo_env ?req) r2], gw')" "gw_ledger gw' = gw_ledger g2"
    using same_key_pays_twice[OF q(4) p1(1) p2(1)] by blast
  ultimately show ?thesis by metis
qed

theorem concurrent_payments_accounted_witness:
  "\<exists>q1 r1 gw'. payments_step\<^sup>*\<^sup>* ([Arriving demo_env (demo_request ''K'' 300)], quiet_gateway) ([Answered q1 r1], gw') \<and>
     sint (book (gw_ledger gw') (''ACC'', Online)) = 1000 + moved (Answered q1 r1) (''ACC'', Online)"
proof -
  let ?req = "demo_request ''K'' 300"
  have q: "\<not> fraudScreeningEnabled quiet_gateway" "networkStatus quiet_gateway = ''ONLINE''" "gw_ledger quiet_gateway = demo_ledger"
    "cached_response ?req (quiet_gateway\<lparr>requestCounter := n\<rparr>) = None" for n
    by (simp_all add: quiet_gateway_def SetFraudScreeningEnabled_def cached_response_def)
  obtain r l where p: "pay_from_ledger demo_env ?req 0 demo_ledger = (r, l)" by force
  let ?g = "quiet_gateway\<lparr>requestCounter := requestCounter quiet_gateway + 1\<rparr>"
  have "uncached demo_env ?req ?g = Some (r, ?g\<lparr>gw_ledger := l\<rparr>)"
    using q p by (simp add: uncached_def check_dynamic_qr_def route_payment_def NetworkDisconnected_def handleOnlinePayment_def screen_request_def)
  then have "run_payment 7 (Verifying demo_env ?req) ?g = (Answered ?req r, remember ''K'' r (?g\<lparr>gw_ledger := l\<rparr>))"
    using run_uncached[of demo_env ?req ?g] by simp
  from run_payment_steps[OF this, of 0 "[Verifying demo_env ?req]"]
  have "payments_step\<^sup>*\<^sup>* ([Verifying demo_env ?req], ?g) ([Answered ?req r], remember ''K'' r (?g\<lparr>gw_ledger := l\<rparr>))" by simp
  moreover have "payments_step ([Arriving demo_env ?req], quiet_gateway) ([Looking demo_env ?req], ?g)"
    "payments_step ([Looking demo_env ?req], ?g) ([Verifying demo_env ?req], ?g)"
    using payments_step.pay[of 0 "[Arriving demo_env ?req]" quiet_gateway "Looking demo_env ?req" ?g]
      payments_step.pay[of 0 "[Looking demo_env ?req]" ?g "Verifying demo_env ?req" ?g] q by simp_all
  ultimately have "payments_step\<^sup>*\<^sup>* ([Arriving demo_env ?req], quiet_gateway) ([Answered ?req r], remember ''K'' r (?g\<lparr>gw_ledger := l\<rparr>))"
    by (meson converse_rtranclp_into_rtranclp)
  moreover from concurrent_payments_accounted[OF _ _ _ this] have
    "sint (book (gw_ledger (remember ''K'' r (?g\<lparr>gw_ledger := l\<rparr>))) (''ACC'', Online)) = 1000 + moved (Answered ?req r) (''ACC'', Online)"
    using demo_wf demo_solvent by (simp add: q(3) demo_book)
  ultimately show ?thesis by blast
qed

end
