(* ===== verification/Reconcile_Threads.thy ===== *)
theory Reconcile_Threads
  imports Reconcile_Props
begin

text \<open>
  The settlement of one transaction in \<open>Replay\<close> (\<open>internal/reconcile/m6_engine.go\<close>) beside other ledger calls. The reconciler holds its own
  mutex, but not the ledger: it reads a snapshot of the account and then makes up to three calls that each lock for
  themselves, and payments run in between. One step here is one call of the ledger: that such calls are
  atomic for each other is the linearizability of \<open>Ledger_Concurrent\<close>, and that the calls which lock without sorting the
  names can deadlock before they return is a theorem there too. So a settlement that ends here is one that
  no such deadlock stopped.
\<close>

section \<open>A settlement under way\<close>

text \<open>Every phase after the first carries the snapshot; \<open>InDeficit\<close> also the shortfall that is recorded.\<close>

datatype settling =
    Reading
  | TryingOffline AccountSnapshot
  | TryingOnline AccountSnapshot
  | ChargingCustomer AccountSnapshot
  | ChargingReserve AccountSnapshot
  | Overdrawing AccountSnapshot
  | Reconciled
  | InDeficit AccountSnapshot int64

fun settle_step :: "bool \<Rightarrow> (nat \<Rightarrow> clock) \<Rightarrow> QueuedTransaction \<Rightarrow> settling \<Rightarrow> ConservingLedger \<Rightarrow> (settling \<times> ConservingLedger) option" where
  "settle_step reserve clk tx Reading l = Some (TryingOffline (core_snapshot (tx_AccountID tx) l), l)"
| "settle_step reserve clk tx (TryingOffline snap) l =
     (if sint (snap_OfflineAllowance snap) \<ge> sint (tx_Amount tx) then
        (case CommitOfflineAllowance (clk 0) (tx_AccountID tx) (tx_MerchantID tx) (tx_Amount tx) (TxID tx) l of
           (None, l1) \<Rightarrow> Some (Reconciled, l1)
         | (Some e, l1) \<Rightarrow> Some (TryingOnline snap, l1))
      else Some (TryingOnline snap, l))"
| "settle_step reserve clk tx (TryingOnline snap) l =
     (let deficit = (if reserve then ChargingCustomer snap else Overdrawing snap) in
      if sint (snap_OnlineAvailable snap) \<ge> sint (tx_Amount tx) then
        (case DirectCommit (clk 1) (tx_AccountID tx) (tx_MerchantID tx) (tx_Amount tx) (TxID tx) l of
           (None, l1) \<Rightarrow> Some (Reconciled, l1)
         | (Some e, l1) \<Rightarrow> Some (deficit, l1))
      else Some (deficit, l))"
| "settle_step reserve clk tx (ChargingCustomer snap) l =
     (let customerCovered = customer_covered tx snap in
      Some (ChargingReserve snap,
        if sint customerCovered > 0
        then snd (DirectCommit (clk 2) (tx_AccountID tx) (tx_MerchantID tx) customerCovered (TxID tx @ ''-USER'') l)
        else l))"
| "settle_step reserve clk tx (ChargingReserve snap) l =
     (let uncoveredDelta = tx_Amount tx - customer_covered tx snap in
      if sint uncoveredDelta > 0 then
        map_option (\<lambda>(e, l1). (InDeficit snap uncoveredDelta, l1))
          (DebitDeficitReserve (clk 3) (tx_MerchantID tx) uncoveredDelta (TxID tx @ ''-RESERVE'') l)
      else Some (InDeficit snap uncoveredDelta, l))"
| "settle_step reserve clk tx (Overdrawing snap) l =
     (let d = tx_Amount tx - snap_OnlineAvailable snap;
          deficitAmount = (if sint d < 0 then tx_Amount tx else d)
      in map_option (\<lambda>(e, l1). (InDeficit snap deficitAmount, l1))
           (RecordDeficit (clk 3) (tx_AccountID tx) (tx_MerchantID tx) (tx_Amount tx) (TxID tx) l))"
| "settle_step reserve clk tx Reconciled l = None"
| "settle_step reserve clk tx (InDeficit snap x) l = None"

text \<open>A settlement beside other calls of the ledger.\<close>

inductive settle_beside :: "bool \<Rightarrow> (nat \<Rightarrow> clock) \<Rightarrow> QueuedTransaction \<Rightarrow> settling \<times> ConservingLedger \<Rightarrow> settling \<times> ConservingLedger \<Rightarrow> bool"
  for reserve clk tx where
  own: "settle_step reserve clk tx p l = Some (p', l') \<Longrightarrow> settle_beside reserve clk tx (p, l) (p', l')"
| other: "exec_op op l = Some l' \<Longrightarrow> settle_beside reserve clk tx (p, l) (p, l')"

fun run_settle :: "nat \<Rightarrow> bool \<Rightarrow> (nat \<Rightarrow> clock) \<Rightarrow> QueuedTransaction \<Rightarrow> settling \<Rightarrow> ConservingLedger \<Rightarrow> settling \<times> ConservingLedger" where
  "run_settle 0 reserve clk tx p l = (p, l)"
| "run_settle (Suc n) reserve clk tx p l =
     (case settle_step reserve clk tx p l of None \<Rightarrow> (p, l) | Some (p', l') \<Rightarrow> run_settle n reserve clk tx p' l')"

section \<open>Alone\<close>

lemma run_settle_over [simp]: "run_settle n reserve clk tx Reconciled l = (Reconciled, l)"
    "run_settle n reserve clk tx (InDeficit snap x) l = (InDeficit snap x, l)"
  by (cases n; simp)+

text \<open>The steps are those of the sequential model: the ledger that a settlement leaves when nothing runs beside it.\<close>

lemma run_charging:
  assumes "charge_reserve clk tx snap st = Some st'"
  shows "snd (run_settle 2 reserve clk tx (ChargingCustomer snap) (fst st)) = fst st'"
  using assms by (cases st) (auto simp: eval_nat_numeral charge_reserve_def in_deficit_def Let_def split: option.splits if_splits)

lemma run_overdrawing:
  assumes "overdraw clk tx snap st = Some st'"
  shows "snd (run_settle 2 reserve clk tx (Overdrawing snap) (fst st)) = fst st'"
  using assms by (cases st) (auto simp: eval_nat_numeral overdraw_def in_deficit_def Let_def split: option.splits)

lemma run_settle_step:
  "settle_step reserve clk tx p l = Some (p', l') \<Longrightarrow> run_settle (Suc n) reserve clk tx p l = run_settle n reserve clk tx p' l'"
  by simp

lemma settle_alone:
  assumes "settle_tx clk tx (l, s, r, rep) = Some st"
  shows "snd (run_settle 5 (useDeficitReserve r) clk tx Reading l) = fst st"
proof -
  define snap where "snap = core_snapshot (tx_AccountID tx) l"
  let ?u = "useDeficitReserve r" and ?D = "if useDeficitReserve r then ChargingCustomer snap else Overdrawing snap"
  obtain e1 l1 where 1: "(if sint (snap_OfflineAllowance snap) \<ge> sint (tx_Amount tx)
      then CommitOfflineAllowance (clk 0) (tx_AccountID tx) (tx_MerchantID tx) (tx_Amount tx) (TxID tx) l
      else (Some ErrInsufficientFunds, l)) = (e1, l1)" by force
  obtain e2 l2 where 2: "(if sint (snap_OnlineAvailable snap) \<ge> sint (tx_Amount tx)
      then DirectCommit (clk 1) (tx_AccountID tx) (tx_MerchantID tx) (tx_Amount tx) (TxID tx) l1
      else (Some ErrInsufficientFunds, l1)) = (e2, l2)" by force
  have st: "(if e1 = None then Some (settled tx l1 (l, s, r, rep)) else if e2 = None then Some (settled tx l2 (l, s, r, rep))
      else if ?u then charge_reserve clk tx snap (l2, s, r, rep) else overdraw clk tx snap (l2, s, r, rep)) = Some st"
    using assms unfolding settle_tx_def Let_def fst_conv snd_conv snap_def[symmetric] 1 prod.case 2 by simp
  have 3: "settle_step ?u clk tx (TryingOffline snap) l = Some (if e1 = None then Reconciled else TryingOnline snap, l1)"
    using 1 by (auto split: if_splits option.splits prod.splits)
  have 4: "settle_step ?u clk tx (TryingOnline snap) l1 = Some (if e2 = None then Reconciled else ?D, l2)"
    using 2 by (auto simp: Let_def split: if_splits option.splits prod.splits)
  have run: "run_settle 5 ?u clk tx Reading l = (if e1 = None then (Reconciled, l1) else if e2 = None then (Reconciled, l2) else run_settle 2 ?u clk tx ?D l2)"
  proof -
    have "run_settle (Suc 4) ?u clk tx Reading l = run_settle 4 ?u clk tx (TryingOffline snap) l"
      by (rule run_settle_step) (simp add: snap_def)
    moreover have "run_settle (Suc 3) ?u clk tx (TryingOffline snap) l = run_settle 3 ?u clk tx (if e1 = None then Reconciled else TryingOnline snap) l1"
      by (rule run_settle_step[OF 3])
    moreover have "run_settle (Suc 2) ?u clk tx (TryingOnline snap) l1 = run_settle 2 ?u clk tx (if e2 = None then Reconciled else ?D) l2"
      by (rule run_settle_step[OF 4])
    ultimately show ?thesis by (cases e1; cases e2; cases "useDeficitReserve r") simp_all
  qed
  show ?thesis
    unfolding run using st run_charging[of clk tx snap "(l2, s, r, rep)" st ?u] run_overdrawing[of clk tx snap "(l2, s, r, rep)" st ?u]
    by (auto simp: settled_def split: if_splits)
qed

section \<open>A payment in between\<close>

text \<open>
  C27. The snapshot goes stale: let an offline payment wait for settlement whose account has the amount online, and let that account
  spend all it has online on someone else after the reconciler has read the snapshot and before it commits. In reserve mode the direct commit then
  fails, the shortfall is computed from the stale snapshot as zero, the second commit fails as well and its error is ignored: the settlement ends
  in deficit with nothing charged to the reserve, and the merchant of the authorized payment gets nothing.
\<close>

theorem stale_snapshot_pays_nothing:
  assumes "0 < sint (tx_Amount tx)" and "sint (book l (tx_AccountID tx, Offline)) < sint (tx_Amount tx)"
    and "sint (tx_Amount tx) \<le> sint (book l (tx_AccountID tx, Online))" and "d \<noteq> tx_AccountID tx"
  shows "\<exists>snap l'. (settle_beside True clk tx)\<^sup>*\<^sup>* (Reading, l) (InDeficit snap 0, l') \<and>
    book l' = transfer (tx_AccountID tx, Online) (d, Online) (book l (tx_AccountID tx, Online)) (book l)"
proof -
  let ?a = "tx_AccountID tx" and ?m = "tx_MerchantID tx" and ?x = "tx_Amount tx" and ?t = "TxID tx"
  define snap where "snap = core_snapshot ?a l"
  have snap: "snap_OnlineAvailable snap = book l (?a, Online)" "snap_OfflineAllowance snap = book l (?a, Offline)"
    by (simp_all add: snap_def core_snapshot_book)
  define l1 where "l1 = snd (DirectCommit (\<lambda>_. 0) ?a d (book l (?a, Online)) ''OTHER'' l)"
  define l2 where "l2 = snd (DirectCommit (clk 1) ?a ?m ?x ?t l1)"
  define l3 where "l3 = snd (DirectCommit (clk 2) ?a ?m ?x (?t @ ''-USER'') l2)"
  have l1: "book l1 = transfer (?a, Online) (d, Online) (book l (?a, Online)) (book l)"
    using assms(1,3) by (simp add: l1_def DirectCommit_book guarded_transfer_def covered_def)
  have zero: "book l1 (?a, Online) = 0" using assms(4) by (simp add: l1 transfer_apply)
  have l2: "book l2 = book l1" and e2: "fst (DirectCommit (clk 1) ?a ?m ?x ?t l1) \<noteq> None"
    using zero assms(1) DirectCommit_ok[of "clk 1" ?a ?m ?x ?t l1] by (simp_all add: l2_def DirectCommit_book guarded_transfer_def covered_def)
  have l3: "book l3 = book l2" using l2 zero assms(1) by (simp add: l3_def DirectCommit_book guarded_transfer_def covered_def)
  have cover: "customer_covered tx snap = ?x"
    using assms(1,3) by (auto simp: customer_covered_def snap Let_def sint64_inject)
  let ?S = "settle_beside True clk tx"
  have "?S (Reading, l) (TryingOffline snap, l)" by (rule settle_beside.own) (simp add: snap_def)
  moreover have "?S (TryingOffline snap, l) (TryingOffline snap, l1)"
    by (rule settle_beside.other[of "Op_Direct (\<lambda>_. 0) ?a d (book l (?a, Online)) ''OTHER''"]) (simp add: l1_def)
  moreover have "?S (TryingOffline snap, l1) (TryingOnline snap, l1)" using assms(2) by (intro settle_beside.own) (simp add: snap)
  moreover have "?S (TryingOnline snap, l1) (ChargingCustomer snap, l2)"
    using assms(3) e2 by (intro settle_beside.own) (auto simp: snap Let_def l2_def split: prod.split option.split)
  moreover have "?S (ChargingCustomer snap, l2) (ChargingReserve snap, l3)"
    using assms(1) by (intro settle_beside.own) (simp add: Let_def cover l3_def)
  moreover have "?S (ChargingReserve snap, l3) (InDeficit snap 0, l3)" by (rule settle_beside.own) (simp add: cover Let_def)
  ultimately have "?S\<^sup>*\<^sup>* (Reading, l) (InDeficit snap 0, l3)" by (meson converse_rtranclp_into_rtranclp rtranclp.rtrancl_refl)
  then show ?thesis using l1 l2 l3 by auto
qed

lemma witness_book:
  "transfer (''ACC'', Online) (''OTHER'', Online) 1000 ((\<lambda>_. 0)((''ACC'', Online) := 1000)) = (\<lambda>_. 0)((''OTHER'', Online) := 1000)"
  by (auto simp: transfer_apply fun_eq_iff)

theorem stale_snapshot_pays_nothing_witness:
  "\<exists>snap l'. (settle_beside True (\<lambda>_ _. 0) (offline_tx ''T1'' ''ACC'' ''SHOP'' 800))\<^sup>*\<^sup>* (Reading, demo_ledger) (InDeficit snap 0, l') \<and>
     book l' = (\<lambda>_. 0)((''OTHER'', Online) := 1000)"
proof -
  let ?tx = "offline_tx ''T1'' ''ACC'' ''SHOP'' 800"
  have tx: "tx_Amount ?tx = 800" "tx_AccountID ?tx = ''ACC''" by (simp_all add: offline_tx_def)
  from stale_snapshot_pays_nothing[of ?tx demo_ledger "''OTHER''" "\<lambda>_ _. 0"] show ?thesis
    by (auto simp: tx demo_book witness_book)
qed

end
