(* ===== verification/Reconcile_Rely.thy ===== *)
theory Reconcile_Rely
  imports Reconcile_Threads
begin

text \<open>
  A settlement of \<open>Reconcile_Threads\<close> beside calls that leave the customer's money alone, in the manner of rely and guarantee: the
  other calls may do anything that lowers neither the online balance nor the allowance of the customer. Then the settlement moves
  what it would have moved alone, on the ledger its snapshot was read from.
\<close>

section \<open>What the settlement relies on\<close>

definition spares :: "string \<Rightarrow> ConservingLedger \<Rightarrow> ConservingLedger \<Rightarrow> bool" where
  "spares a l l' \<longleftrightarrow> sint (book l (a, Online)) \<le> sint (book l' (a, Online)) \<and> sint (book l (a, Offline)) \<le> sint (book l' (a, Offline))"

text \<open>The third component adds up what the other calls changed, position by position.\<close>

inductive settle_quietly ::
  "bool \<Rightarrow> (nat \<Rightarrow> clock) \<Rightarrow> QueuedTransaction \<Rightarrow> settling \<times> ConservingLedger \<times> book \<Rightarrow> settling \<times> ConservingLedger \<times> book \<Rightarrow> bool"
  for reserve clk tx where
  own: "settle_step reserve clk tx p l = Some (p', l') \<Longrightarrow> settle_quietly reserve clk tx (p, l, c) (p', l', c)"
| other: "exec_op op l = Some l' \<Longrightarrow> spares (tx_AccountID tx) l l' \<Longrightarrow>
    settle_quietly reserve clk tx (p, l, c) (p, l', \<lambda>q. c q + (book l' q - book l q))"

section \<open>What it has done so far\<close>

fun unmoved :: "settling \<Rightarrow> bool" where
  "unmoved (ChargingReserve snap) = False"
| "unmoved Reconciled = False"
| "unmoved (InDeficit snap x) = False"
| "unmoved _ = True"

fun over :: "settling \<Rightarrow> bool" where
  "over Reconciled = True"
| "over (InDeficit snap x) = True"
| "over _ = False"

text \<open>
  What the customer pays of a deficit with the reserve, and the change of every position, for a snapshot read from the
  book \<open>b\<close>.
\<close>

definition deficit_share :: "QueuedTransaction \<Rightarrow> book \<Rightarrow> int64" where
  "deficit_share tx b = (if sint (tx_Amount tx) \<le> 0 then 0 else customer_share (tx_AccountID tx) b)"

definition own_change :: "bool \<Rightarrow> string \<Rightarrow> QueuedTransaction \<Rightarrow> book \<Rightarrow> settling \<Rightarrow> position \<Rightarrow> int64" where
  "own_change reserve r tx b p q =
     (if over p then settle_book reserve r tx b q - b q
      else if unmoved p then 0
      else transfer (tx_AccountID tx, Online) (tx_MerchantID tx, Online) (deficit_share tx b) b q - b q)"

lemma own_change_unmoved: "unmoved p \<Longrightarrow> own_change reserve r tx b p = (\<lambda>_. 0)"
  by (cases p) (simp_all add: own_change_def fun_eq_iff)

lemma own_change_over: "over p \<Longrightarrow> own_change reserve r tx b p = (\<lambda>q. settle_book reserve r tx b q - b q)"
  by (simp add: own_change_def fun_eq_iff)

lemma own_change_charging:
  "own_change reserve r tx b (ChargingReserve snap) =
     (\<lambda>q. transfer (tx_AccountID tx, Online) (tx_MerchantID tx, Online) (deficit_share tx b) b q - b q)"
  by (simp add: own_change_def fun_eq_iff)

lemmas own_changes = own_change_unmoved own_change_over own_change_charging

text \<open>A book is an earlier one with the changes of the others and of the settlement.\<close>

definition accounts_for :: "book \<Rightarrow> (position \<Rightarrow> int64) \<Rightarrow> (position \<Rightarrow> int64) \<Rightarrow> book \<Rightarrow> bool" where
  "accounts_for b0 c d bk \<longleftrightarrow> (\<forall>q. bk q = b0 q + c q + d q)"

lemma accounts_forD: "accounts_for b0 c d bk \<Longrightarrow> bk q = b0 q + c q + d q"
  by (simp only: accounts_for_def)

lemma accounts_for_other: "accounts_for b0 c d bk \<Longrightarrow> accounts_for b0 (\<lambda>q. c q + (bk' q - bk q)) d bk'"
  by (simp only: accounts_for_def) (simp add: algebra_simps)

lemma accounts_for_own: "accounts_for b0 c d bk \<Longrightarrow> (\<And>q. bk' q = bk q + (d' q - d q)) \<Longrightarrow> accounts_for b0 c d' bk'"
  by (simp only: accounts_for_def) (simp add: algebra_simps)

text \<open>What is known of the snapshot in each phase.\<close>

definition read_from :: "string \<Rightarrow> book \<Rightarrow> AccountSnapshot \<Rightarrow> bool" where
  "read_from a b snap \<longleftrightarrow> snap_OnlineAvailable snap = b (a, Online) \<and> snap_OfflineAllowance snap = b (a, Offline)"

text \<open>What a phase says of the book that the snapshot was read from.\<close>

fun phase_ok :: "bool \<Rightarrow> string \<Rightarrow> QueuedTransaction \<Rightarrow> book \<Rightarrow> settling \<Rightarrow> bool" where
  "phase_ok reserve r tx b Reading = True"
| "phase_ok reserve r tx b (TryingOffline snap) = read_from (tx_AccountID tx) b snap"
| "phase_ok reserve r tx b (TryingOnline snap) =
     (read_from (tx_AccountID tx) b snap \<and> \<not> covered (tx_Amount tx) (tx_AccountID tx, Offline) b)"
| "phase_ok reserve r tx b (ChargingCustomer snap) = (reserve \<and> read_from (tx_AccountID tx) b snap \<and> \<not> pays tx b)"
| "phase_ok reserve r tx b (ChargingReserve snap) = (reserve \<and> read_from (tx_AccountID tx) b snap \<and> \<not> pays tx b)"
| "phase_ok reserve r tx b (Overdrawing snap) = (\<not> reserve \<and> read_from (tx_AccountID tx) b snap \<and> \<not> pays tx b)"
| "phase_ok reserve r tx b Reconciled = pays tx b"
| "phase_ok reserve r tx b (InDeficit snap x) = (\<not> pays tx b \<and> \<not> settle_blocks reserve r tx b)"

definition settle_inv ::
  "bool \<Rightarrow> string \<Rightarrow> QueuedTransaction \<Rightarrow> book \<Rightarrow> book \<Rightarrow> settling \<times> ConservingLedger \<times> book \<Rightarrow> bool" where
  "settle_inv reserve r tx b0 b s \<longleftrightarrow>
     (case s of (p, l, c) \<Rightarrow>
        DeficitReserveAccountID l = r \<and> phase_ok reserve r tx b p \<and>
        accounts_for b0 c (own_change reserve r tx b p) (book l) \<and>
        (unmoved p \<longrightarrow> sint (b (tx_AccountID tx, Online)) \<le> sint (book l (tx_AccountID tx, Online)) \<and>
                       sint (b (tx_AccountID tx, Offline)) \<le> sint (book l (tx_AccountID tx, Offline))))"

section \<open>Every step keeps it\<close>

text \<open>A transfer changes every book by the same amounts.\<close>

lemma transfer_change: "transfer p q x b1 r = b1 r + (transfer p q x b2 r - b2 r)"
  by (simp add: transfer_apply)

lemma settle_other:
  assumes "settle_inv reserve r tx b0 b (p, l, c)" and "exec_op op l = Some l'" and "spares (tx_AccountID tx) l l'"
  shows "settle_inv reserve r tx b0 b (p, l', \<lambda>q. c q + (book l' q - book l q))"
  using assms exec_op_reserve[OF assms(2)] accounts_for_other[of b0 c _ "book l" "book l'"] by (auto simp: settle_inv_def spares_def)

text \<open>The bookkeeping that every step of the settlement shares: it changes the book by the difference of the two phases.\<close>

lemma settle_inv_step:
  assumes "settle_inv reserve r tx b0 b (p, l, c)" and "DeficitReserveAccountID l' = DeficitReserveAccountID l"
    and "phase_ok reserve r tx b p'" and "unmoved p' \<Longrightarrow> unmoved p \<and> book l' = book l"
    and "\<And>q. book l' q = book l q + (own_change reserve r tx b p' q - own_change reserve r tx b p q)"
  shows "settle_inv reserve r tx b0 b (p', l', c)"
  using assms accounts_for_own[of b0 c "own_change reserve r tx b p" "book l" "book l'" "own_change reserve r tx b p'"]
  by (auto simp: settle_inv_def)

lemma covered_mono: "covered x p b \<Longrightarrow> sint (b p) \<le> sint (b' p) \<Longrightarrow> covered x p b'"
  by (simp add: covered_def)

lemma settle_offline:
  fixes tx
  defines "a \<equiv> tx_AccountID tx" and "m \<equiv> tx_MerchantID tx" and "x \<equiv> tx_Amount tx"
  assumes inv: "settle_inv reserve r tx b0 b (TryingOffline snap, l, c)"
    and step: "settle_step reserve clk tx (TryingOffline snap) l = Some (p', l')"
  shows "settle_inv reserve r tx b0 b (p', l', c)"
proof -
  have b: "sint (b (a, Offline)) \<le> sint (book l (a, Offline))" "snap_OfflineAllowance snap = b (a, Offline)" "read_from a b snap"
    using inv by (simp_all add: settle_inv_def read_from_def a_def)
  let ?C = "CommitOfflineAllowance (clk 0) a m x (TxID tx) l"
  show ?thesis
  proof (cases "covered x (a, Offline) b")
    case True
    then have "covered x (a, Offline) (book l)" using b(1) by (rule covered_mono)
    then have "fst ?C = None" "book (snd ?C) = transfer (a, Offline) (m, Online) x (book l)"
      by (simp_all add: CommitOfflineAllowance_ok CommitOfflineAllowance_book guarded_transfer_def)
    then have s: "p' = Reconciled" "l' = snd ?C" "book l' = transfer (a, Offline) (m, Online) x (book l)"
      using step True b(2) by (auto simp: a_def m_def x_def covered_def split: prod.splits option.splits)
    have "settle_book reserve r tx b = transfer (a, Offline) (m, Online) x b" "pays tx b"
      using True by (simp_all add: settle_book_def pays_def Let_def a_def m_def x_def)
    then show ?thesis
      using transfer_change[of "(a, Offline)" "(m, Online)" x "book l" _ b] s
      by (intro settle_inv_step[OF inv]) (simp_all add: own_changes)
  next
    case False
    then have "p' = TryingOnline snap \<and> (l' = l \<or> \<not> 0 < sint x \<and> l' = snd ?C)"
      using step b(2) CommitOfflineAllowance_ok[of "clk 0" a m x "TxID tx" l]
      by (auto simp: a_def m_def x_def covered_def split: prod.splits option.splits if_splits)
    moreover have "book (snd ?C) = book l" if "\<not> 0 < sint x"
      using that by (simp add: CommitOfflineAllowance_book guarded_transfer_def covered_def)
    ultimately have s: "p' = TryingOnline snap" "book l' = book l" "DeficitReserveAccountID l' = DeficitReserveAccountID l" by auto
    show ?thesis using s b(3) False by (intro settle_inv_step[OF inv]) (simp_all add: own_changes a_def x_def)
  qed
qed

lemma settle_online:
  fixes tx
  defines "a \<equiv> tx_AccountID tx" and "m \<equiv> tx_MerchantID tx" and "x \<equiv> tx_Amount tx"
  assumes inv: "settle_inv reserve r tx b0 b (TryingOnline snap, l, c)"
    and step: "settle_step reserve clk tx (TryingOnline snap) l = Some (p', l')"
  shows "settle_inv reserve r tx b0 b (p', l', c)"
proof -
  have b: "sint (b (a, Online)) \<le> sint (book l (a, Online))" "snap_OnlineAvailable snap = b (a, Online)" "read_from a b snap"
    "\<not> covered x (a, Offline) b"
    using inv by (simp_all add: settle_inv_def read_from_def a_def x_def)
  let ?C = "DirectCommit (clk 1) a m x (TxID tx) l"
  show ?thesis
  proof (cases "covered x (a, Online) b")
    case True
    then have "covered x (a, Online) (book l)" using b(1) by (rule covered_mono)
    then have "fst ?C = None" "book (snd ?C) = transfer (a, Online) (m, Online) x (book l)"
      by (simp_all add: DirectCommit_ok DirectCommit_book guarded_transfer_def)
    then have s: "p' = Reconciled" "l' = snd ?C" "book l' = transfer (a, Online) (m, Online) x (book l)"
      using step True b(2) by (auto simp: a_def m_def x_def covered_def Let_def split: prod.splits option.splits)
    have "settle_book reserve r tx b = transfer (a, Online) (m, Online) x b" "pays tx b"
      using True b(4) by (simp_all add: settle_book_def pays_def Let_def a_def m_def x_def)
    then show ?thesis
      using transfer_change[of "(a, Online)" "(m, Online)" x "book l" _ b] s
      by (intro settle_inv_step[OF inv]) (simp_all add: own_changes)
  next
    case False
    then have "p' = (if reserve then ChargingCustomer snap else Overdrawing snap) \<and> (l' = l \<or> \<not> 0 < sint x \<and> l' = snd ?C)"
      using step b(2) DirectCommit_ok[of "clk 1" a m x "TxID tx" l]
      by (auto simp: a_def m_def x_def covered_def Let_def split: prod.splits option.splits if_splits)
    moreover have "book (snd ?C) = book l" if "\<not> 0 < sint x"
      using that by (simp add: DirectCommit_book guarded_transfer_def covered_def)
    ultimately have s: "p' = (if reserve then ChargingCustomer snap else Overdrawing snap)" "book l' = book l"
      "DeficitReserveAccountID l' = DeficitReserveAccountID l" by auto
    have "\<not> pays tx b" using False b(4) by (simp add: pays_def a_def x_def)
    then show ?thesis using s b(3) by (intro settle_inv_step[OF inv]) (simp_all add: own_changes a_def)
  qed
qed

lemma settle_charging_customer:
  fixes tx
  defines "a \<equiv> tx_AccountID tx" and "m \<equiv> tx_MerchantID tx" and "x \<equiv> tx_Amount tx"
  assumes inv: "settle_inv reserve r tx b0 b (ChargingCustomer snap, l, c)"
    and step: "settle_step reserve clk tx (ChargingCustomer snap) l = Some (p', l')"
  shows "settle_inv reserve r tx b0 b (p', l', c)"
proof -
  let ?k = "customer_covered tx snap"
  have b: "reserve" "sint (b (a, Online)) \<le> sint (book l (a, Online))" "snap_OnlineAvailable snap = b (a, Online)" "read_from a b snap"
    "\<not> pays tx b" using inv by (simp_all add: settle_inv_def read_from_def a_def)
  then have nc: "\<not> covered x (a, Online) b" by (simp add: pays_def a_def x_def)
  have cov: "?k = (if sint x \<le> 0 then x else customer_share a b)"
    using customer_covered_share[of tx a b snap] nc b(3) by (simp add: x_def)
  have s: "p' = ChargingReserve snap" "l' = (if 0 < sint ?k then snd (DirectCommit (clk 2) a m ?k (TxID tx @ ''-USER'') l) else l)"
    using step by (simp_all add: a_def m_def Let_def split: if_splits)
  have "book l' = transfer (a, Online) (m, Online) (deficit_share tx b) (book l)"
  proof (cases "0 < sint x")
    case True
    then have k: "?k = customer_share a b" "deficit_share tx b = customer_share a b" using cov by (simp_all add: deficit_share_def a_def x_def)
    show ?thesis
    proof (cases "0 < sint (customer_share a b)")
      case pos: True
      then have "covered (customer_share a b) (a, Online) (book l)"
        using customer_share_bounds(3)[OF nc True] b(2) covered_mono by blast
      then show ?thesis using pos by (simp add: s(2) k DirectCommit_book guarded_transfer_def)
    next
      case False
      then have "customer_share a b = 0"
        using customer_share_bounds(1)[OF nc True] sint64_inject[of "customer_share a b" 0] by simp
      then show ?thesis using False by (simp add: s(2) k)
    qed
  next
    case False
    then show ?thesis using cov by (simp add: s(2) deficit_share_def x_def)
  qed
  then show ?thesis
    using s(1) b(1,4,5) transfer_change[of "(a, Online)" "(m, Online)" "deficit_share tx b" "book l" _ b]
    by (intro settle_inv_step[OF inv]) (simp_all add: own_changes a_def m_def s(2))
qed

lemma settle_charging_reserve:
  fixes tx
  defines "a \<equiv> tx_AccountID tx" and "m \<equiv> tx_MerchantID tx" and "x \<equiv> tx_Amount tx"
  assumes inv: "settle_inv reserve r tx b0 b (ChargingReserve snap, l, c)"
    and step: "settle_step reserve clk tx (ChargingReserve snap) l = Some (p', l')"
  shows "settle_inv reserve r tx b0 b (p', l', c)"
proof -
  let ?k = "customer_covered tx snap"
  have b: "reserve" "snap_OnlineAvailable snap = b (a, Online)" "\<not> pays tx b" "DeficitReserveAccountID l = r"
    using inv by (simp_all add: settle_inv_def read_from_def a_def)
  then have nc: "\<not> covered x (a, Online) b" "\<not> covered x (a, Offline) b" by (simp_all add: pays_def a_def x_def)
  have cov: "?k = (if sint x \<le> 0 then x else customer_share a b)"
    using customer_covered_share[of tx a b snap] nc b(2) by (simp add: x_def)
  show ?thesis
  proof (cases "0 < sint x")
    case True
    let ?u = "x - customer_share a b"
    have u: "0 < sint ?u" by (rule customer_share_bounds(4)[OF nc(1) True])
    then obtain e where d: "DebitDeficitReserve (clk 3) m ?u (TxID tx @ ''-RESERVE'') l = Some (e, l')" and p': "p' = InDeficit snap ?u"
      using step cov True by (auto simp: a_def m_def x_def Let_def)
    have l': "book l' = transfer (r, Online) (m, Online) ?u (book l)" using DebitDeficitReserve_book(1)[OF d] u b(4) by simp
    have "DeficitReserveAccountID l' = DeficitReserveAccountID l"
      using exec_op_reserve[of "Op_DebitDeficit (clk 3) m ?u (TxID tx @ ''-RESERVE'')" l l'] d by simp
    moreover have "m \<noteq> r" using DebitDeficitReserve_blocks[of "clk 3" m ?u "TxID tx @ ''-RESERVE''" l] d u b(4) by auto
    moreover have "settle_book reserve r tx b = transfer (r, Online) (m, Online) ?u (transfer (a, Online) (m, Online) (deficit_share tx b) b)"
      using b(1) nc True by (simp add: settle_book_def deficit_share_def Let_def a_def m_def x_def)
    ultimately show ?thesis
      using p' b(1,3) l' transfer_change[of "(r, Online)" "(m, Online)" ?u "book l" _ "transfer (a, Online) (m, Online) (deficit_share tx b) b"]
      by (intro settle_inv_step[OF inv]) (simp_all add: own_changes settle_blocks_def a_def m_def)
  next
    case False
    then have s: "p' = InDeficit snap 0" "l' = l" using step cov by (auto simp: x_def Let_def)
    have "settle_book reserve r tx b = b" "deficit_share tx b = 0"
      using False b(1) nc by (simp_all add: settle_book_def deficit_share_def Let_def a_def x_def)
    then show ?thesis
      using s b(1,3) False by (intro settle_inv_step[OF inv]) (simp_all add: own_changes settle_blocks_def x_def)
  qed
qed

lemma settle_overdrawing:
  fixes tx
  defines "a \<equiv> tx_AccountID tx" and "m \<equiv> tx_MerchantID tx" and "x \<equiv> tx_Amount tx"
  assumes inv: "settle_inv reserve r tx b0 b (Overdrawing snap, l, c)"
    and step: "settle_step reserve clk tx (Overdrawing snap) l = Some (p', l')"
  shows "settle_inv reserve r tx b0 b (p', l', c)"
proof -
  have b: "\<not> reserve" "\<not> pays tx b" using inv by (simp_all add: settle_inv_def)
  obtain e y where d: "RecordDeficit (clk 3) a m x (TxID tx) l = Some (e, l')" and p': "p' = InDeficit snap y"
    using step by (auto simp: a_def m_def x_def Let_def)
  have "book l' = transfer (a, Online) (m, Online) x (book l)" by (rule RecordDeficit_book(1)[OF d])
  moreover have "DeficitReserveAccountID l' = DeficitReserveAccountID l"
    using exec_op_reserve[of "Op_RecordDeficit (clk 3) a m x (TxID tx)" l l'] d by simp
  moreover have "a \<noteq> m" using RecordDeficit_blocks[of "clk 3" a m x "TxID tx" l] d by auto
  moreover have "settle_book reserve r tx b = transfer (a, Online) (m, Online) x b"
    using b by (simp add: settle_book_def pays_def Let_def a_def m_def x_def)
  ultimately show ?thesis
    using p' b transfer_change[of "(a, Online)" "(m, Online)" x "book l" _ b]
    by (intro settle_inv_step[OF inv]) (simp_all add: own_changes settle_blocks_def a_def m_def)
qed

lemma settle_own:
  assumes "settle_inv reserve r tx b0 b (p, l, c)" and "settle_step reserve clk tx p l = Some (p', l')" and "p \<noteq> Reading"
  shows "settle_inv reserve r tx b0 b (p', l', c)"
  using assms
  by (cases p) (auto intro: settle_offline settle_online settle_charging_customer settle_charging_reserve settle_overdrawing
      simp del: settle_step.simps(2-6))

section \<open>Up to the snapshot\<close>

definition undisturbed :: "ConservingLedger \<Rightarrow> ConservingLedger \<Rightarrow> book \<Rightarrow> bool" where
  "undisturbed l l1 c \<longleftrightarrow> DeficitReserveAccountID l1 = DeficitReserveAccountID l \<and> accounts_for (book l) c (\<lambda>_. 0) (book l1)"

lemma undisturbed_other:
  "undisturbed l l1 c \<Longrightarrow> exec_op op l1 = Some l2 \<Longrightarrow> undisturbed l l2 (\<lambda>q. c q + (book l2 q - book l1 q))"
  using accounts_for_other[of "book l" c _ "book l1" "book l2"] exec_op_reserve[of op l1 l2] by (auto simp: undisturbed_def)

lemma split_at_snapshot:
  assumes "(settle_quietly reserve clk tx)\<^sup>*\<^sup>* (Reading, l, \<lambda>_. 0) s"
  shows "(case s of (p, l', c) \<Rightarrow> p = Reading \<and> undisturbed l l' c) \<or>
    (\<exists>l1 c1. (settle_quietly reserve clk tx)\<^sup>*\<^sup>* (Reading, l, \<lambda>_. 0) (Reading, l1, c1) \<and> undisturbed l l1 c1 \<and>
       (settle_quietly reserve clk tx)\<^sup>*\<^sup>* (TryingOffline (core_snapshot (tx_AccountID tx) l1), l1, c1) s)"
  using assms
proof (induction rule: rtranclp_induct)
  case base
  then show ?case by (simp add: undisturbed_def accounts_for_def)
next
  case (step s s')
  from step.IH show ?case
  proof
    assume reading: "case s of (p, l', c) \<Rightarrow> p = Reading \<and> undisturbed l l' c"
    then obtain l' c where s: "s = (Reading, l', c)" and u: "undisturbed l l' c" by (cases s) auto
    show ?thesis
      using step.hyps(2)
    proof (cases rule: settle_quietly.cases)
      case (own q l2 q' l3 c2)
      with s have "s' = (TryingOffline (core_snapshot (tx_AccountID tx) l'), l', c)" by auto
      with step.hyps(1) u show ?thesis unfolding s by blast
    next
      case (other op l2 l3 q c2)
      with s u undisturbed_other[of l l' c op l3] show ?thesis by simp
    qed
  next
    assume "\<exists>l1 c1. (settle_quietly reserve clk tx)\<^sup>*\<^sup>* (Reading, l, \<lambda>_. 0) (Reading, l1, c1) \<and> undisturbed l l1 c1 \<and>
       (settle_quietly reserve clk tx)\<^sup>*\<^sup>* (TryingOffline (core_snapshot (tx_AccountID tx) l1), l1, c1) s"
    then show ?thesis using step.hyps(2) by (meson rtranclp.rtrancl_into_rtrancl)
  qed
qed

lemma after_snapshot:
  assumes "(settle_quietly reserve clk tx)\<^sup>*\<^sup>* s0 s" and "settle_inv reserve r tx b0 b s0" and "fst s0 \<noteq> Reading"
  shows "settle_inv reserve r tx b0 b s \<and> fst s \<noteq> Reading"
  using assms(1)
proof (induction rule: rtranclp_induct)
  case base
  with assms show ?case by simp
next
  case (step s s')
  have later: "p' \<noteq> Reading" if "settle_step reserve clk tx p l = Some (p', l')" for p p' l l'
    using that by (cases p) (auto simp: Let_def split: prod.splits option.splits if_splits)
  from step.hyps(2) show ?case
  proof (cases rule: settle_quietly.cases)
    case (own p l p' l' c)
    with step.IH settle_own[of reserve r tx b0 b p l c clk p' l'] later[OF own(3)] show ?thesis by simp
  next
    case (other op l l' p c)
    with step.IH settle_other[of reserve r tx b0 b p l c op l'] show ?thesis by simp
  qed
qed

section \<open>Properties\<close>

text \<open>
  C26. A settlement beside other calls, each ledger call being one step. While a settlement is under way any other calls of the
  ledger may run, on any accounts, as long as none lowers the customer's online balance or allowance. Once it has ended, for
  any amount, accounts and balances and in both modes, every balance is what it was, plus what the other calls changed, plus what
  the settlement would have moved alone on the ledger \<open>l1\<close> from which it read its snapshot, and the payment is reconciled
  exactly when the customer could pay there; a payee other than the payer gets exactly the amount, if that is positive.
\<close>

theorem settlement_beside_others:
  assumes "(settle_quietly reserve clk tx)\<^sup>*\<^sup>* (Reading, l, \<lambda>_. 0) (p, l', c)" and "over p"
  shows "(\<exists>l1 c1. (settle_quietly reserve clk tx)\<^sup>*\<^sup>* (Reading, l, \<lambda>_. 0) (Reading, l1, c1) \<and>
       (settle_quietly reserve clk tx)\<^sup>*\<^sup>* (TryingOffline (core_snapshot (tx_AccountID tx) l1), l1, c1) (p, l', c) \<and>
       (p = Reconciled \<longleftrightarrow> pays tx (book l1)) \<and> \<not> settle_blocks reserve (DeficitReserveAccountID l) tx (book l1) \<and>
       (\<forall>q. book l' q = book l q + c q + (settle_book reserve (DeficitReserveAccountID l) tx (book l1) q - book l1 q))) \<and>
    (0 < sint (tx_Amount tx) \<and> tx_AccountID tx \<noteq> tx_MerchantID tx \<longrightarrow>
       book l' (tx_MerchantID tx, Online) = book l (tx_MerchantID tx, Online) + c (tx_MerchantID tx, Online) + tx_Amount tx)"
proof -
  let ?r = "DeficitReserveAccountID l" and ?m = "(tx_MerchantID tx, Online)"
  obtain l1 c1 where run: "(settle_quietly reserve clk tx)\<^sup>*\<^sup>* (Reading, l, \<lambda>_. 0) (Reading, l1, c1)"
      "(settle_quietly reserve clk tx)\<^sup>*\<^sup>* (TryingOffline (core_snapshot (tx_AccountID tx) l1), l1, c1) (p, l', c)"
    and u: "undisturbed l l1 c1"
    using split_at_snapshot[OF assms(1)] assms(2) by auto
  have "settle_inv reserve ?r tx (book l) (book l1) (TryingOffline (core_snapshot (tx_AccountID tx) l1), l1, c1)"
    using u by (simp add: settle_inv_def undisturbed_def read_from_def core_snapshot_book own_changes)
  then have inv: "settle_inv reserve ?r tx (book l) (book l1) (p, l', c)"
    using after_snapshot[OF run(2)] by simp
  with assms(2) have "accounts_for (book l) c (\<lambda>q. settle_book reserve ?r tx (book l1) q - book l1 q) (book l')"
    by (simp add: settle_inv_def own_changes)
  then have book: "book l' q = book l q + c q + (settle_book reserve ?r tx (book l1) q - book l1 q)" for q
    by (rule accounts_forD)
  have out: "(p = Reconciled \<longleftrightarrow> pays tx (book l1)) \<and> \<not> settle_blocks reserve ?r tx (book l1)"
    using inv assms(2) by (cases p) (auto simp: settle_inv_def settle_blocks_def)
  have "settle_book reserve ?r tx (book l1) ?m - book l1 ?m = tx_Amount tx"
    if "0 < sint (tx_Amount tx)" "tx_AccountID tx \<noteq> tx_MerchantID tx"
    using settle_book_merchant[of reserve ?r tx "book l1"] out that by simp
  then show ?thesis using run book out by auto
qed

theorem settlement_beside_others_witness:
  "\<exists>l' c. (settle_quietly True (\<lambda>_ _. 0) (offline_tx ''T1'' ''ACC'' ''SHOP'' 800))\<^sup>*\<^sup>* (Reading, demo_ledger, \<lambda>_. 0) (Reconciled, l', c) \<and>
     book l' (''SHOP'', Online) = 800"
proof -
  let ?tx = "offline_tx ''T1'' ''ACC'' ''SHOP'' 800"
  let ?S = "settle_quietly True (\<lambda>_ _. 0) ?tx"
  define snap where "snap = core_snapshot ''ACC'' demo_ledger"
  define l1 where "l1 = snd (FundAccount (\<lambda>_. 0) ''ACC'' 50 demo_ledger)"
  define c where "c = (\<lambda>q. 0 + (book l1 q - book demo_ledger q))"
  define l2 where "l2 = snd (DirectCommit (\<lambda>_. 0) ''ACC'' ''SHOP'' 800 ''T1'' l1)"
  have tx: "tx_Amount ?tx = 800" "tx_AccountID ?tx = ''ACC''" "tx_MerchantID ?tx = ''SHOP''" "TxID ?tx = ''T1''" by (simp_all add: offline_tx_def)
  have snap: "snap_OnlineAvailable snap = 1000" "snap_OfflineAllowance snap = 0" by (simp_all add: snap_def core_snapshot_book demo_book)
  have l1: "book l1 = (\<lambda>_. 0)((''ACC'', Online) := 1050)" by (simp add: l1_def FundAccount_book demo_names demo_book)
  then have e: "fst (DirectCommit (\<lambda>_. 0) ''ACC'' ''SHOP'' 800 ''T1'' l1) = None" by (simp add: DirectCommit_ok covered_def)
  have "?S (Reading, demo_ledger, \<lambda>_. 0) (TryingOffline snap, demo_ledger, \<lambda>_. 0)" by (rule settle_quietly.own) (simp add: snap_def tx)
  moreover have "?S (TryingOffline snap, demo_ledger, \<lambda>_. 0) (TryingOffline snap, l1, c)"
    unfolding c_def by (rule settle_quietly.other[of "Op_Fund (\<lambda>_. 0) ''ACC'' 50"]) (simp_all add: l1_def[symmetric] spares_def tx l1 demo_book)
  moreover have "?S (TryingOffline snap, l1, c) (TryingOnline snap, l1, c)" by (rule settle_quietly.own) (simp add: snap tx)
  moreover have "?S (TryingOnline snap, l1, c) (Reconciled, l2, c)"
    using e by (intro settle_quietly.own) (auto simp: snap tx Let_def l2_def split: prod.split option.split)
  ultimately have run: "?S\<^sup>*\<^sup>* (Reading, demo_ledger, \<lambda>_. 0) (Reconciled, l2, c)" by (meson converse_rtranclp_into_rtranclp rtranclp.rtrancl_refl)
  have "book l2 (''SHOP'', Online) = 800"
    using settlement_beside_others[OF run] by (simp add: tx demo_book c_def l1)
  with run show ?thesis by blast
qed

end
