(* ===== verification/Server.thy ===== *)
theory Server
  imports Gateway
begin

text \<open>
  \<open>cmd/server/main.go\<close>: the wiring of the components and the HTTP handlers.

  \<^item> The server keeps pointers to the components it also hands to the gateway. They are the same
    objects, so the model keeps them once, in the gateway: \<open>coreLedger\<close>, \<open>fraudEngine\<close>,
    \<open>edgeAuthorizer\<close>, \<open>reconciler\<close>, \<open>edgeWAL\<close> and \<open>compactFilter\<close> (the filter mounted in the
    authorizer) are read through it.
  \<^item> A handler gets the decoded request (\<open>None\<close> when decoding fails) and returns the status, the
    value it encodes and the new server; \<open>None\<close> is a panic or a call that blocks. JSON decoding of
    the payment body is the parameter \<open>json\<close>; encoding is not modelled.
  \<^item> The routes and \<open>main\<close> are in \<open>Http_Mux\<close>; the listener is not modelled.
\<close>

section \<open>Responses\<close>

datatype http_body =
    ErrorBody string
  | PaymentBody PaymentResponse
  | ToggleBody NetworkStatus bool "ReconciliationReport option"
  | ReportBody ReconciliationReport
  | SnapshotBody AccountSnapshot
  | AccountBody "Account option"
  | TokenBody OfflineAuthorizationToken
  | AuditBody int64 int64 int64 nat
  | HealthBody string NetworkStatus time
  | ReserveModeBody bool
  | RevocationBody string bool uint32
  | StatsBody uint32 nat float64 float64 string string
  | QRBody DynamicQRPayload
  | MessageBody string string

type_synonym http_response = "nat \<times> http_body"

definition StatusOK :: nat where "StatusOK = 200"
definition StatusBadRequest :: nat where "StatusBadRequest = 400"
definition StatusPaymentRequired :: nat where "StatusPaymentRequired = 402"
definition StatusNotFound :: nat where "StatusNotFound = 404"
definition StatusInternalServerError :: nat where "StatusInternalServerError = 500"

section \<open>The server\<close>

record Server =
  srv_gw :: PaymentGateway
  tokenAuth :: TokenAuthority
  terminalPrivKey :: "byte list"
  terminalPubKey :: "byte list"

definition coreLedger :: "Server \<Rightarrow> ConservingLedger" where
  "coreLedger s = gw_ledger (srv_gw s)"

definition compactFilter :: "Server \<Rightarrow> CompactFilter option" where
  "compactFilter s = revocationFilter (edgeAuthorizer (srv_gw s))"

definition set_ledger :: "ConservingLedger \<Rightarrow> Server \<Rightarrow> Server" where
  "set_ledger l s = s\<lparr>srv_gw := (srv_gw s)\<lparr>gw_ledger := l\<rparr>\<rparr>"

definition on_fraud :: "(InMemGraphFraudEngine \<Rightarrow> InMemGraphFraudEngine) \<Rightarrow> Server \<Rightarrow> Server" where
  "on_fraud f s = s\<lparr>srv_gw := (srv_gw s)\<lparr>fraudEngine := map_option f (fraudEngine (srv_gw s))\<rparr>\<rparr>"

definition set_filter :: "CompactFilter \<Rightarrow> Server \<Rightarrow> Server" where
  "set_filter f s =
     s\<lparr>srv_gw := (srv_gw s)\<lparr>edgeAuthorizer := SetRevocationFilter (Some f) (edgeAuthorizer (srv_gw s))\<rparr>\<rparr>"

section \<open>Start-up\<close>

text \<open>What the start-up reads: clocks, random seeds of the two key pairs, draws of the filter, the disk.\<close>

record boot =
  boot_ed :: ed25519
  boot_ledger_clk :: clock
  boot_account_time :: clock
  boot_alloc_clk :: clock
  boot_fund_clk :: clock
  boot_fraud_time :: time
  boot_authority_seed :: "byte list option"
  boot_draws :: draws
  boot_disk :: disk
  boot_codec :: tx_codec
  boot_file :: "byte list option"
  boot_terminal_seed :: "byte list option"

definition seed_ledger :: "boot \<Rightarrow> ConservingLedger" where
  "seed_ledger b =
     (let l = NewConservingLedger (boot_ledger_clk b);
          l = CreateAccount (boot_account_time b 0) ''ACC-BENCH-1'' 100000 l;
          l = CreateAccount (boot_account_time b 1) ''ACC-BENCH-2'' 500000 l;
          l = CreateAccount (boot_account_time b 2) ''MERCHANT-POS-01'' 0 l;
          l = snd (AllocateOfflineAllowance (boot_alloc_clk b) ''ACC-BENCH-1'' 20000 l)
      in snd (FundAccount (boot_fund_clk b) AccountDeficitReserve 100000000 l))"

text \<open>The outer \<open>None\<close> is a constructor or an insertion that does not return.\<close>

definition setupServer :: "boot \<Rightarrow> string \<Rightarrow> (string + Server) option" where
  "setupServer b walPath =
     (let led = seed_ledger b;
          fra = RegisterTerminal ''TERM-001'' ''MERCHANT-POS-01''
            (NewInMemGraphFraudEngine (boot_fraud_time b) ''POS-SECRET-KEY-HMAC-2026'')
      in case NewTokenAuthority (boot_ed b) (boot_authority_seed b) of
           Inl e \<Rightarrow> Some (Inl (''failed to init token authority: '' @ e))
         | Inr ta \<Rightarrow>
             let edg = NewEdgeAuthorizer (PublicKey ta) ''TERM-001'' in
             (case NewCompactFilter 16384 of
                None \<Rightarrow> None
              | Some f \<Rightarrow>
                  (case Insert (boot_draws b) ''ACC-REVOKED-DEMO'' f of
                     None \<Rightarrow> None
                   | Some (_, f1) \<Rightarrow>
                       let edg1 = SetRevocationFilter (Some f1) edg in
                       (case NewWALStore (boot_disk b) (boot_codec b) walPath (boot_file b) of
                          Inl e \<Rightarrow> Some (Inl (''failed to init WAL store: '' @ e))
                        | Inr wal \<Rightarrow>
                            let rec = SetUseDeficitReserve True NewReconciler;
                                gw = NewPaymentGateway led (Some fra) edg1 wal rec
                            in (case boot_terminal_seed b of
                                  None \<Rightarrow> Some (Inl ''failed to generate terminal key'')
                                | Some seed \<Rightarrow>
                                    (case NewKeyPair (boot_ed b) seed of
                                       (termPub, termPriv) \<Rightarrow>
                                         Some (Inr \<lparr>srv_gw = RegisterTerminalKey ''TERM-001'' termPub gw,
                                                    tokenAuth = ta, terminalPrivKey = termPriv,
                                                    terminalPubKey = termPub\<rparr>)))))))"

section \<open>Payments and the network\<close>

definition BOM :: "byte list" where "BOM = [0xEF, 0xBB, 0xBF]"

definition trim_prefix :: "'a list \<Rightarrow> 'a list \<Rightarrow> 'a list" where
  "trim_prefix p s = (if take (length p) s = p then drop (length p) s else s)"

definition handlePay ::
  "(byte list \<Rightarrow> PaymentRequest option) \<Rightarrow> env \<Rightarrow> byte list option \<Rightarrow> Server \<Rightarrow> (http_response \<times> Server) option" where
  "handlePay json ev body s =
     (case body of
        None \<Rightarrow> Some ((StatusBadRequest, ErrorBody ''failed to read request body''), s)
      | Some bs \<Rightarrow>
          (case json (trim_prefix BOM bs) of
             None \<Rightarrow> Some ((StatusBadRequest, ErrorBody ''invalid JSON request format''), s)
           | Some req \<Rightarrow>
               (case ProcessPayment ev req (srv_gw s) of
                  None \<Rightarrow> None
                | Some (resp, gw) \<Rightarrow>
                    Some ((if Status resp = ''DECLINED'' then StatusPaymentRequired else StatusOK, PaymentBody resp),
                      s\<lparr>srv_gw := gw\<rparr>))))"

text \<open>
  \<open>strings.ToUpper\<close>: the fast path on ASCII strings; on others the Unicode table, the parameter
  \<open>unicode\<close>.
\<close>

definition upper_char :: "char \<Rightarrow> char" where
  "upper_char c = (let n = of_char c :: nat in if 97 \<le> n \<and> n \<le> 122 then char_of (n - 32) else c)"

definition ToUpper :: "(string \<Rightarrow> string) \<Rightarrow> string \<Rightarrow> string" where
  "ToUpper unicode s =
     (if list_all (\<lambda>c. (of_char c :: nat) < 128) s then map upper_char s else unicode s)"

record recon_clock =
  rc_start :: time
  rc_clk :: "nat \<Rightarrow> nat \<Rightarrow> clock"
  rc_end :: time

definition handleNetworkToggle ::
  "(string \<Rightarrow> string) \<Rightarrow> recon_clock \<Rightarrow> string option \<Rightarrow> Server \<Rightarrow> (http_response \<times> Server) option" where
  "handleNetworkToggle unicode rc body s =
     (case body of
        None \<Rightarrow> Some ((StatusBadRequest, ErrorBody ''invalid request''), s)
      | Some st \<Rightarrow>
          let status = ToUpper unicode st;
              gw = SetNetworkStatus status (srv_gw s)
          in if status = NetworkReconnected then
               (case TriggerReconciliation (rc_start rc) (rc_clk rc) (rc_end rc) gw of
                  None \<Rightarrow> None
                | Some (rep, gw1) \<Rightarrow> Some ((StatusOK, ToggleBody status True (Some rep)), s\<lparr>srv_gw := gw1\<rparr>))
             else Some ((StatusOK, ToggleBody status False None), s\<lparr>srv_gw := gw\<rparr>))"

definition handleReconcile :: "recon_clock \<Rightarrow> Server \<Rightarrow> (http_response \<times> Server) option" where
  "handleReconcile rc s =
     (case TriggerReconciliation (rc_start rc) (rc_clk rc) (rc_end rc) (srv_gw s) of
        None \<Rightarrow> None
      | Some (rep, gw) \<Rightarrow> Some ((StatusOK, ReportBody rep), s\<lparr>srv_gw := gw\<rparr>))"

section \<open>Ledger end points\<close>

definition handleGetAccount :: "string \<Rightarrow> Server \<Rightarrow> http_response \<times> Server" where
  "handleGetAccount path s =
     (let accountID = trim_prefix ''/api/v1/account/'' path in
      if accountID = '''' then ((StatusBadRequest, ErrorBody ''missing account id''), s)
      else (case GetAccount accountID (coreLedger s) of
              (acc, Some e) \<Rightarrow> ((StatusNotFound, ErrorBody ''account not found''), s)
            | (acc, None) \<Rightarrow> ((StatusOK, SnapshotBody acc), s)))"

definition handleAuditConservation :: "string list \<Rightarrow> Server \<Rightarrow> http_response \<times> Server" where
  "handleAuditConservation ks s =
     (case AuditConservation ks (coreLedger s) of
        (avail, reserved, sum_all, n) \<Rightarrow> ((StatusOK, AuditBody avail reserved sum_all n), s))"

definition handleAllocateAllowance :: "clock \<Rightarrow> (string \<times> int64) option \<Rightarrow> Server \<Rightarrow> http_response \<times> Server" where
  "handleAllocateAllowance clk body s =
     (case body of
        None \<Rightarrow> ((StatusBadRequest, ErrorBody ''invalid request''), s)
      | Some (accountID, amount) \<Rightarrow>
          (case AllocateOfflineAllowance clk accountID amount (coreLedger s) of
             (Some e, l) \<Rightarrow> ((StatusBadRequest, ErrorBody (ledger_error_text e)), set_ledger l s)
           | (None, l) \<Rightarrow> ((StatusOK, SnapshotBody (GetAccountSnapshot accountID l)), set_ledger l s)))"

definition handleGetReserve :: "Server \<Rightarrow> http_response \<times> Server" where
  "handleGetReserve s = ((StatusOK, SnapshotBody (GetAccountSnapshot AccountDeficitReserve (coreLedger s))), s)"

definition handleToggleReserve :: "bool option \<Rightarrow> Server \<Rightarrow> http_response \<times> Server" where
  "handleToggleReserve body s =
     (case body of
        None \<Rightarrow> ((StatusBadRequest, ErrorBody ''invalid request''), s)
      | Some enabled \<Rightarrow>
          ((StatusOK, ReserveModeBody enabled),
           s\<lparr>srv_gw := (srv_gw s)\<lparr>gw_reconciler := SetUseDeficitReserve enabled (gw_reconciler (srv_gw s))\<rparr>\<rparr>))"

definition handleCreateAccount ::
  "time \<Rightarrow> clock \<Rightarrow> (string \<times> int64 \<times> int64) option \<Rightarrow> Server \<Rightarrow> http_response \<times> Server" where
  "handleCreateAccount now clk body s =
     (case body of
        None \<Rightarrow> ((StatusBadRequest, ErrorBody ''invalid request format''), s)
      | Some (accountID, balance, offlineAllowance) \<Rightarrow>
          if accountID = '''' then ((StatusBadRequest, ErrorBody ''account_id is required''), s)
          else
            let l = CreateAccount now accountID balance (coreLedger s);
                l1 = (if sint offlineAllowance > 0 then snd (AllocateOfflineAllowance clk accountID offlineAllowance l) else l);
                s1 = on_fraud (ClearAccountHistory accountID) (set_ledger l1 s)
            in ((StatusOK, AccountBody (accounts l1 accountID)), s1))"

section \<open>Tokens, revocation and QR codes\<close>

record token_request =
  tr_AccountID :: string
  tr_MaxFloorAmount :: int64
  tr_DurationSec :: int64
  tr_TerminalID :: string

definition handleIssueToken :: "ed25519 \<Rightarrow> clock \<Rightarrow> token_request option \<Rightarrow> Server \<Rightarrow> http_response \<times> Server" where
  "handleIssueToken ed clk body s =
     (case body of
        None \<Rightarrow> ((StatusBadRequest, ErrorBody ''invalid request''), s)
      | Some req \<Rightarrow>
          let duration = (if tr_DurationSec req = 0 then 3600 else tr_DurationSec req);
              terminalID = (if tr_TerminalID req = '''' then ''*'' else tr_TerminalID req)
          in (case IssueToken ed clk (tr_AccountID req) (tr_MaxFloorAmount req) (duration * word_of_int Second) terminalID
                (tokenAuth s) of
                (tok, ta) \<Rightarrow> ((StatusOK, TokenBody tok), s\<lparr>tokenAuth := ta\<rparr>)))"

definition handleRevocationAdd :: "draws \<Rightarrow> string option \<Rightarrow> Server \<Rightarrow> (http_response \<times> Server) option" where
  "handleRevocationAdd rnd body s =
     (case body of
        None \<Rightarrow> Some ((StatusBadRequest, ErrorBody ''invalid request''), s)
      | Some accountID \<Rightarrow>
          (case compactFilter s of
             None \<Rightarrow> None
           | Some f \<Rightarrow>
               (case Insert rnd accountID f of
                  None \<Rightarrow> None
                | Some (inserted, f1) \<Rightarrow>
                    Some ((StatusOK, RevocationBody accountID inserted (Count f1)), set_filter f1 s))))"

definition handleRevocationStats :: "Server \<Rightarrow> (http_response \<times> Server) option" where
  "handleRevocationStats s =
     (case compactFilter s of
        None \<Rightarrow> None
      | Some f \<Rightarrow>
          let data = Serialize f in
          Some ((StatusOK, StatsBody (Count f) (length data) (fl (of_nat (length data) / 1024)) (fl (1548 / 100))
                   ''<= 1.2%'' ''0.00%''), s))"

record qr_request =
  qreq_MerchantID :: string
  qreq_TerminalID :: string
  TamperMode :: string

record qr_inputs =
  qi_sign_time :: time
  qi_now :: time
  qi_nonce :: "byte list option"
  qi_fake_seed :: "byte list option"

definition handleGenerateQR ::
  "ed25519 \<Rightarrow> qr_inputs \<Rightarrow> qr_request \<Rightarrow> Server \<Rightarrow> (http_response \<times> Server) option" where
  "handleGenerateQR ed qi req0 s =
     (let merchantID = (if qreq_MerchantID req0 = '''' then ''MERCHANT-POS-01'' else qreq_MerchantID req0);
          terminalID = (if qreq_TerminalID req0 = '''' then ''TERM-001'' else qreq_TerminalID req0);
          sign = (\<lambda>priv mer. SignDynamicQR ed (qi_sign_time qi) (qi_nonce qi) priv mer terminalID);
          payload =
            (if TamperMode req0 = ''EXPIRED'' then
               Some (case sign (terminalPrivKey s) merchantID of
                 Inl e \<Rightarrow> Inl e
               | Inr p \<Rightarrow>
                   let p1 = p\<lparr>EpochSalt := Unix (qi_now qi) - 120\<rparr>;
                       digest = ComputeQRDigest (qr_MerchantID p1) (qr_TerminalID p1) (EpochSalt p1) (qr_Nonce p1)
                   in Inr (p1\<lparr>qr_Signature := hex_encode (Sign ed (terminalPrivKey s) digest)\<rparr>))
             else if TamperMode req0 = ''STICKER_MISMATCH'' then Some (sign (terminalPrivKey s) ''ATTACKER-EVIL-MERCHANT'')
             else if TamperMode req0 = ''FORGED'' then
               (case qi_fake_seed qi of None \<Rightarrow> None | Some seed \<Rightarrow> Some (sign (snd (NewKeyPair ed seed)) merchantID))
             else Some (sign (terminalPrivKey s) merchantID))
      in case payload of
           None \<Rightarrow> None
         | Some (Inl e) \<Rightarrow> Some ((StatusInternalServerError, ErrorBody e), s)
         | Some (Inr p) \<Rightarrow> Some ((StatusOK, QRBody p), s))"

section \<open>The rest\<close>

definition handleResetFraud :: "time \<Rightarrow> Server \<Rightarrow> http_response \<times> Server" where
  "handleResetFraud now s =
     ((StatusOK, MessageBody ''RESET'' ''Graph fraud engine in-memory state reset.''), on_fraud (Reset now) s)"

definition handleHealth :: "time \<Rightarrow> Server \<Rightarrow> http_response \<times> Server" where
  "handleHealth now s = ((StatusOK, HealthBody ''UP'' (GetNetworkStatus (srv_gw s)) now), s)"

end
