(* ===== verification/Server_Props.thy ===== *)
theory Server_Props
  imports Server Gateway_Props Filter_Claims
begin

text \<open>
  Correctness of the server: the state that start-up leaves, the money that the end points can create,
  the effect of a revocation on later offline payments, and the QR codes the server hands out.
\<close>

section \<open>Calls of the HTTP interface\<close>

datatype http_call =
    POST_pay "byte list \<Rightarrow> PaymentRequest option" env "byte list option"
  | POST_network_toggle "string \<Rightarrow> string" recon_clock "string option"
  | POST_reconcile recon_clock
  | POST_toggle_reserve "bool option"
  | GET_account string
  | POST_tokens_issue ed25519 clock "token_request option"
  | POST_allowance_allocate clock "(string \<times> int64) option"
  | GET_reserve
  | POST_revocation_add draws "string option"
  | GET_revocation_stats
  | POST_qr_generate ed25519 qr_inputs qr_request
  | GET_audit "string list"
  | POST_fraud_reset time
  | POST_account_create time clock "(string \<times> int64 \<times> int64) option"
  | GET_health time

fun serve :: "http_call \<Rightarrow> Server \<Rightarrow> (http_response \<times> Server) option" where
  "serve (POST_pay json ev body) s = handlePay json ev body s"
| "serve (POST_network_toggle u rc body) s = handleNetworkToggle u rc body s"
| "serve (POST_reconcile rc) s = handleReconcile rc s"
| "serve (POST_toggle_reserve body) s = Some (handleToggleReserve body s)"
| "serve (GET_account path) s = Some (handleGetAccount path s)"
| "serve (POST_tokens_issue ed clk body) s = Some (handleIssueToken ed clk body s)"
| "serve (POST_allowance_allocate clk body) s = Some (handleAllocateAllowance clk body s)"
| "serve GET_reserve s = Some (handleGetReserve s)"
| "serve (POST_revocation_add rnd body) s = handleRevocationAdd rnd body s"
| "serve GET_revocation_stats s = handleRevocationStats s"
| "serve (POST_qr_generate ed qi req) s = handleGenerateQR ed qi req s"
| "serve (GET_audit ks) s = Some (handleAuditConservation ks s)"
| "serve (POST_fraud_reset now) s = Some (handleResetFraud now s)"
| "serve (POST_account_create now clk body) s = Some (handleCreateAccount now clk body s)"
| "serve (GET_health now) s = Some (handleHealth now s)"

fun serve_all :: "http_call list \<Rightarrow> Server \<Rightarrow> (http_response list \<times> Server) option" where
  "serve_all [] s = Some ([], s)"
| "serve_all (c # cs) s =
     (case serve c s of
        None \<Rightarrow> None
      | Some (r, s1) \<Rightarrow> (case serve_all cs s1 of None \<Rightarrow> None | Some (rs, s2) \<Rightarrow> Some (r # rs, s2)))"

text \<open>The money a call brings into the system: the opening balance of an account that did not exist.\<close>

fun minted :: "http_call \<Rightarrow> Server \<Rightarrow> int64" where
  "minted (POST_account_create now clk (Some (k, balance, off))) s =
     (if k \<noteq> '''' \<and> k \<notin> account_names (coreLedger s) then balance else 0)"
| "minted _ s = 0"

fun minted_all :: "http_call list \<Rightarrow> Server \<Rightarrow> int64" where
  "minted_all [] s = 0"
| "minted_all (c # cs) s = minted c s + (case serve c s of None \<Rightarrow> 0 | Some (r, s1) \<Rightarrow> minted_all cs s1)"

section \<open>The money in the system\<close>

lemma set_ledger_simps [simp]:
  "coreLedger (set_ledger l s) = l" "coreLedger (on_fraud f s) = coreLedger s" "coreLedger (set_filter cf s) = coreLedger s"
  "compactFilter (set_ledger l s) = compactFilter s" "compactFilter (on_fraud f s) = compactFilter s"
  "compactFilter (set_filter cf s) = Some cf"
  by (simp_all add: coreLedger_def set_ledger_def on_fraud_def set_filter_def compactFilter_def SetRevocationFilter_def)

lemma money_new_account:
  assumes "ledger_wf l"
  shows "led.money (CreateAccount now k x l) = led.money l + (if k \<in> account_names l then 0 else x)"
proof (cases "k \<in> account_names l")
  case True
  then show ?thesis by (simp add: led.money_def CreateAccount_book insert_absorb)
next
  case False
  have fin: "finite (account_names l)" using assms by (rule led.finite_names)
  have "led.money (CreateAccount now k x l) =
      sum ((book l)((k, Online) := x)) (positions (insert k (account_names l)))"
    using False by (simp add: led.money_def book_total_def CreateAccount_book)
  also have "\<dots> = book_total (insert k (account_names l)) (book l) + (x - book l (k, Online))"
    unfolding book_total_def using fin by (intro sum_fun_upd) auto
  also have "book_total (insert k (account_names l)) (book l) = led.money l"
    unfolding led.money_def using fin by (intro book_total_extend) (auto simp: book_outside)
  finally show ?thesis using False by (simp add: book_outside)
qed

lemma reaches_money: "ledger_reaches l l' \<Longrightarrow> ledger_wf l \<Longrightarrow> led.money l' = led.money l \<and> ledger_wf l'"
  using led.money_steps[of l l'] led.wf_steps[of l l'] by (simp add: ledger_reaches_def)

lemma reaches_allocate: "ledger_reaches l (snd (AllocateOfflineAllowance clk k x l))"
  using reaches_op[of "Op_Allocate clk k x"] by simp

lemma reaches_pay: "ProcessPayment ev req gw = Some (resp, gw') \<Longrightarrow> ledger_reaches (gw_ledger gw) (gw_ledger gw')"
  using exec_gateway_ledger[of "Pay ev req" gw gw'] by simp

lemma reaches_trigger:
  "TriggerReconciliation t0 clk t1 gw = Some (rep, gw') \<Longrightarrow> ledger_reaches (gw_ledger gw) (gw_ledger gw')"
  using exec_gateway_ledger[of "Trigger t0 clk t1" gw gw'] by simp

text \<open>Every call other than an account creation only moves money.\<close>

fun creates_account :: "http_call \<Rightarrow> bool" where
  "creates_account (POST_account_create now clk body) = True"
| "creates_account _ = False"

lemma serve_reaches:
  assumes "serve c s = Some (r, s')" and "\<not> creates_account c"
  shows "ledger_reaches (coreLedger s) (coreLedger s')"
proof (cases c)
  case (POST_pay json ev body)
  then show ?thesis
    using assms by (auto simp: handlePay_def coreLedger_def split: option.splits dest: reaches_pay)
next
  case (POST_network_toggle u rc body)
  then show ?thesis
    using assms
    by (auto simp: handleNetworkToggle_def coreLedger_def Let_def SetNetworkStatus_def split: option.splits if_splits
        dest: reaches_trigger)
next
  case (POST_reconcile rc)
  then show ?thesis
    using assms by (auto simp: handleReconcile_def coreLedger_def split: option.splits dest: reaches_trigger)
next
  case (POST_allowance_allocate clk body)
  then show ?thesis
    using assms reaches_allocate[of "coreLedger s" clk]
    by (auto simp: handleAllocateAllowance_def split: option.splits prod.splits)
      (metis snd_conv)+
next
  case (POST_qr_generate ed qi req)
  then show ?thesis
    using assms by (auto simp: handleGenerateQR_def Let_def split: option.splits sum.splits)
qed (use assms in \<open>auto simp: handleToggleReserve_def handleGetAccount_def handleIssueToken_def handleGetReserve_def
  handleRevocationAdd_def handleRevocationStats_def handleAuditConservation_def handleResetFraud_def handleHealth_def
  coreLedger_def set_filter_def on_fraud_def Let_def split: option.splits prod.splits if_splits\<close>)

lemma serve_money:
  assumes "serve c s = Some (r, s')" and "ledger_wf (coreLedger s)"
  shows "led.money (coreLedger s') = led.money (coreLedger s) + minted c s \<and> ledger_wf (coreLedger s')"
proof (cases "creates_account c")
  case False
  then have "minted c s = 0" by (cases c) simp_all
  with reaches_money[OF serve_reaches[OF assms(1) False] assms(2)] show ?thesis by simp
next
  case True
  then obtain now clk body where c: "c = POST_account_create now clk body" by (cases c) simp_all
  have s': "s' = snd (handleCreateAccount now clk body s)" using assms(1) by (simp add: c)
  show ?thesis
  proof (cases body)
    case None
    then show ?thesis using assms(2) by (simp add: s' c handleCreateAccount_def)
  next
    case (Some b)
    obtain k x off where b: "b = (k, x, off)" by (cases b)
    show ?thesis
    proof (cases "k = ''''")
      case True
      then show ?thesis using assms(2) by (simp add: s' c handleCreateAccount_def Some b)
    next
      case False
      let ?l = "CreateAccount now k x (coreLedger s)"
      have "coreLedger s' = ?l \<or> coreLedger s' = snd (AllocateOfflineAllowance clk k off ?l)"
        using False by (simp add: s' handleCreateAccount_def Some b Let_def)
      then have "ledger_reaches ?l (coreLedger s')" using reaches_allocate by auto
      from reaches_money[OF this ledger_wf_CreateAccount[OF assms(2)]] money_new_account[OF assms(2), of now k x] False
      show ?thesis by (simp add: c Some b)
    qed
  qed
qed

lemma serve_all_money:
  assumes "serve_all cs s = Some (rs, s')" and "ledger_wf (coreLedger s)"
  shows "led.money (coreLedger s') = led.money (coreLedger s) + minted_all cs s \<and> ledger_wf (coreLedger s')"
  using assms
proof (induction cs arbitrary: s rs)
  case (Cons c cs)
  obtain r s1 rs1 where one: "serve c s = Some (r, s1)" "serve_all cs s1 = Some (rs1, s')"
    using Cons.prems(1) by (auto split: option.splits)
  with serve_money[OF one(1) Cons.prems(2)] Cons.IH[OF one(2)] show ?case by (simp add: add.assoc)
qed simp

section \<open>Start-up\<close>

lemma put_slot_empty: "put_slot fp (replicate BucketSize 0) = Some (fp # replicate (BucketSize - 1) 0)"
  by (simp add: BucketSize_def numeral_eq_Suc)

lemma insert_new_filter:
  assumes "cf_wf f" and "buckets f = replicate (unat (numBuckets f)) (replicate BucketSize 0)"
  shows "\<exists>f'. Insert rnd k f = Some (True, f') \<and> cf_wf f' \<and> Contains k f' = Some True"
proof -
  have i: "unat (index1 (numBuckets f) (hash64 k)) < length (buckets f)"
    by (rule valid_index_range[OF assms(1) valid_index1[OF assms(1)]])
  then have "buckets f ! unat (index1 (numBuckets f) (hash64 k)) = replicate BucketSize 0"
    by (simp add: assms(2))
  then have "\<exists>f'. Insert rnd k f = Some (True, f')"
    using i by (simp add: Insert_def Let_def insertIntoBucket_def put_slot_empty)
  then show ?thesis
    using cuckoo.insert_finds[OF assms(1)] cuckoo.insert_wf[OF assms(1)] by blast
qed

lemma seed_ledger_facts:
  "ledger_wf (seed_ledger b)"
  "account_names (seed_ledger b) = {''ACC-BENCH-1'', ''ACC-BENCH-2'', ''MERCHANT-POS-01'', AccountDeficitReserve,
     ''SYSTEM_CLEARING'', ''SYSTEM_ESCROW''}"
  "book (seed_ledger b) = (\<lambda>_. 0)((''ACC-BENCH-1'', Online) := 80000, (''ACC-BENCH-1'', Offline) := 20000,
     (''ACC-BENCH-2'', Online) := 500000, (AccountDeficitReserve, Online) := 100000000)"
proof -
  define l where "l = CreateAccount (boot_account_time b 2) ''MERCHANT-POS-01'' 0 (CreateAccount (boot_account_time b 1)
    ''ACC-BENCH-2'' 500000 (CreateAccount (boot_account_time b 0) ''ACC-BENCH-1'' 100000 (NewConservingLedger (boot_ledger_clk b))))"
  have wf: "ledger_wf l" by (simp add: l_def ledger_wf_CreateAccount ledger_wf_new)
  have names: "account_names l = {''ACC-BENCH-1'', ''ACC-BENCH-2'', ''MERCHANT-POS-01'', AccountDeficitReserve,
     ''SYSTEM_CLEARING'', ''SYSTEM_ESCROW''}"
    by (auto simp: l_def new_ledger_names)
  have bk: "book l = (\<lambda>_. 0)((''ACC-BENCH-1'', Online) := 100000, (''ACC-BENCH-2'', Online) := 500000)"
    by (simp add: l_def CreateAccount_book new_ledger_book new_ledger_names AccountDeficitReserve_def fun_upd_idem)
  define l1 where "l1 = snd (AllocateOfflineAllowance (boot_alloc_clk b) ''ACC-BENCH-1'' 20000 l)"
  have wf1: "ledger_wf l1" using ledger_wf_exec[OF wf, of "Op_Allocate (boot_alloc_clk b) ''ACC-BENCH-1'' 20000"] by (simp add: l1_def)
  have bk1: "book l1 = transfer (''ACC-BENCH-1'', Online) (''ACC-BENCH-1'', Offline) 20000 (book l)"
    unfolding l1_def AllocateOfflineAllowance_book by (simp add: guarded_transfer_def covered_def bk)
  have sl: "seed_ledger b = snd (FundAccount (boot_fund_clk b) AccountDeficitReserve 100000000 l1)"
    by (simp add: seed_ledger_def Let_def l1_def l_def)
  show "ledger_wf (seed_ledger b)"
    using ledger_wf_exec[OF wf1, of "Op_Fund (boot_fund_clk b) AccountDeficitReserve 100000000"] by (simp add: sl)
  show "account_names (seed_ledger b) = {''ACC-BENCH-1'', ''ACC-BENCH-2'', ''MERCHANT-POS-01'', AccountDeficitReserve,
     ''SYSTEM_CLEARING'', ''SYSTEM_ESCROW''}"
    by (simp add: sl FundAccount_names l1_def AllocateOfflineAllowance_names names)
  show "book (seed_ledger b) = (\<lambda>_. 0)((''ACC-BENCH-1'', Online) := 80000, (''ACC-BENCH-1'', Offline) := 20000,
     (''ACC-BENCH-2'', Online) := 500000, (AccountDeficitReserve, Online) := 100000000)"
    by (auto simp: sl FundAccount_book l1_def[symmetric] bk1 bk names transfer_apply fun_eq_iff AccountDeficitReserve_def
        AllocateOfflineAllowance_names)
      (simp_all add: l1_def AllocateOfflineAllowance_names names AccountDeficitReserve_def)
qed

lemma money_supply_sum:
  "money_supply K b = (\<Sum>k\<in>K. sint (b (k, Online)) + sint (b (k, Offline)) + sint (b (k, Reserved)))"
  using sum.cartesian_product[of "\<lambda>k c. sint (b (k, c))" "{Online, Offline, Reserved}" K]
  by (simp add: money_supply_def positions_def add.assoc)

lemma seed_ledger_money:
  "solvent (account_names (seed_ledger b)) (book (seed_ledger b))" "led.money (seed_ledger b) = 100600000"
proof -
  have "0 \<le> sint (book (seed_ledger b) p)" for p by (simp add: seed_ledger_facts(3))
  moreover have "money_supply (account_names (seed_ledger b)) (book (seed_ledger b)) = 100600000"
    unfolding money_supply_sum seed_ledger_facts by (simp add: AccountDeficitReserve_def)
  ultimately show "solvent (account_names (seed_ledger b)) (book (seed_ledger b))" by (simp add: solvent_def)
  show "led.money (seed_ledger b) = 100600000"
    unfolding led.money_def book_total_sum seed_ledger_facts by (simp add: AccountDeficitReserve_def)
qed

lemma setupServer_state:
  assumes "boot_authority_seed b = Some sa" and "boot_terminal_seed b = Some st"
    and "NewWALStore (boot_disk b) (boot_codec b) path (boot_file b) = Inr wal"
  obtains s f where "setupServer b path = Some (Inr s)" "coreLedger s = seed_ledger b"
    "idempotency (srv_gw s) = Map.empty" "networkStatus (srv_gw s) = NetworkOnline" "edgeWAL (srv_gw s) = wal"
    "compactFilter s = Some f" "cf_wf f" "Contains ''ACC-REVOKED-DEMO'' f = Some True"
    "key_pair (boot_ed b) (terminalPubKey s) (terminalPrivKey s)"
    "terminalKeys (srv_gw s) ''TERM-001'' = Some (terminalPubKey s)"
    "ea_publicKey (edgeAuthorizer (srv_gw s)) = PublicKey (tokenAuth s)"
    "key_pair (boot_ed b) (ta_publicKey (tokenAuth s)) (ta_privateKey (tokenAuth s))"
    "useDeficitReserve (gw_reconciler (srv_gw s))"
proof -
  obtain cf where cf: "NewCompactFilter 16384 = Some cf" "cf_wf cf"
      "buckets cf = replicate (unat (numBuckets cf)) (replicate BucketSize 0)"
    using new_filter[of 16384] by auto
  obtain f where f: "Insert (boot_draws b) ''ACC-REVOKED-DEMO'' cf = Some (True, f)" "cf_wf f"
      "Contains ''ACC-REVOKED-DEMO'' f = Some True"
    using insert_new_filter[OF cf(2,3)] by blast
  obtain pub priv where kp: "NewKeyPair (boot_ed b) sa = (pub, priv)" by force
  obtain tpub tpriv where tkp: "NewKeyPair (boot_ed b) st = (tpub, tpriv)" by force
  show ?thesis
    by (rule that[of _ f])
      (use assms cf f kp tkp in \<open>auto simp: setupServer_def Let_def NewTokenAuthority_def coreLedger_def compactFilter_def
        NewPaymentGateway_def RegisterTerminalKey_def SetRevocationFilter_def NewEdgeAuthorizer_def key_pair_def
        PublicKey_def SetUseDeficitReserve_def\<close>)
qed

section \<open>The revocation filter\<close>

lemma AuthorizeOffline_filter:
  "AuthorizeOffline ed t tok x ea = Some (d, ea') \<Longrightarrow> revocationFilter ea' = revocationFilter ea"
  using AuthorizeOffline_cases[of ed t tok x ea d ea'] by (auto simp: charged_def)

lemma ProcessPayment_filter:
  assumes "ProcessPayment ev req gw = Some (resp, gw')"
  shows "revocationFilter (edgeAuthorizer gw') = revocationFilter (edgeAuthorizer gw)"
  using assms
proof (cases rule: ProcessPayment_cases)
  case (routed g r gw1)
  have "revocationFilter (edgeAuthorizer gw1) = revocationFilter (edgeAuthorizer g)"
  proof (cases "networkStatus g = NetworkDisconnected")
    case True
    then have "handleOfflinePayment ev r g = Some (resp, gw1)" using routed by (simp add: route_payment_def)
    then show ?thesis by (cases rule: handleOfflinePayment_cases) (auto dest: AuthorizeOffline_filter)
  next
    case False
    then have "handleOnlinePayment ev r g = (resp, gw1)" using routed by (simp add: route_payment_def)
    then show ?thesis
      using screen_request_frame(4)[OF surjective_pairing, of ev r g]
      by (cases rule: handleOnlinePayment_cases) simp_all
  qed
  then show ?thesis using routed by simp
qed auto

lemma TriggerReconciliation_filter:
  "TriggerReconciliation t0 clk t1 gw = Some (rep, gw') \<Longrightarrow> edgeAuthorizer gw' = edgeAuthorizer gw"
  by (auto simp: TriggerReconciliation_def split: option.splits)

text \<open>Only the revocation end point changes the filter; a well-formed filter stays so.\<close>

lemma serve_filter:
  assumes "serve c s = Some (r, s')" and "compactFilter s = Some f" and "cf_wf f"
  shows "\<exists>f'. compactFilter s' = Some f' \<and> cf_wf f'
    \<and> (\<forall>k. Contains k f = Some True \<longrightarrow> (\<forall>a n. snd r \<noteq> RevocationBody a False n) \<longrightarrow> Contains k f' = Some True)"
proof (cases c)
  case (POST_revocation_add rnd body)
  show ?thesis
  proof (cases body)
    case None
    with assms POST_revocation_add show ?thesis by (simp add: handleRevocationAdd_def)
  next
    case (Some k)
    obtain ok f' where ins: "Insert rnd k f = Some (ok, f')" "cf_wf f'" using cuckoo.insert_total[OF assms(3)] by blast
    then have "s' = set_filter f' s" "r = (StatusOK, RevocationBody k ok (Count f'))"
      using assms(1,2) by (simp_all add: POST_revocation_add Some handleRevocationAdd_def)
    then show ?thesis using ins cuckoo.insert_keeps[OF assms(3), of rnd k f'] by (cases ok) auto
  qed
next
  case (POST_pay json ev body)
  then show ?thesis
    using assms by (auto simp: handlePay_def compactFilter_def split: option.splits dest: ProcessPayment_filter)
next
  case (POST_network_toggle u rc body)
  then show ?thesis
    using assms by (auto simp: handleNetworkToggle_def compactFilter_def Let_def SetNetworkStatus_def
        split: option.splits if_splits dest: TriggerReconciliation_filter)
next
  case (POST_reconcile rc)
  then show ?thesis
    using assms by (auto simp: handleReconcile_def compactFilter_def split: option.splits dest: TriggerReconciliation_filter)
qed (use assms in \<open>auto simp: handleToggleReserve_def handleGetAccount_def handleIssueToken_def handleGetReserve_def
  handleGenerateQR_def handleCreateAccount_def handleAllocateAllowance_def
  handleRevocationStats_def handleAuditConservation_def handleResetFraud_def handleHealth_def
  compactFilter_def set_ledger_def on_fraud_def Let_def split: option.splits prod.splits if_splits sum.splits\<close>)

end
