(* ===== verification/Server_Claims.thy ===== *)
theory Server_Claims
  imports Server_Props Gateway_Claims
begin

text \<open>The properties of the server.\<close>

section \<open>Witness data\<close>

definition demo_boot :: boot where
  "demo_boot = \<lparr>boot_ed = demo_ed25519, boot_ledger_clk = \<lambda>_. 0, boot_account_time = \<lambda>_. 0, boot_alloc_clk = \<lambda>_. 0,
     boot_fund_clk = \<lambda>_. 0, boot_fraud_time = 0, boot_authority_seed = Some [7], boot_draws = \<lambda>_. 0,
     boot_disk = healthy_disk, boot_codec = demo_codec, boot_file = Some [], boot_terminal_seed = Some [9]\<rparr>"

lemma demo_boot_wal: "NewWALStore (boot_disk demo_boot) (boot_codec demo_boot) ''wal'' (boot_file demo_boot) = Inr (store_of demo_codec ''wal'' [])"
  using recover_cut[of demo_codec "[]" "''wal''" 0] by (simp add: demo_boot_def codec_ok_def records_def)

lemma demo_boot_fields [simp]:
  "boot_authority_seed demo_boot = Some [7]" "boot_terminal_seed demo_boot = Some [9]" "boot_ed demo_boot = demo_ed25519"
  by (simp_all add: demo_boot_def)

section \<open>Properties\<close>

text \<open>
  C33. Start-up. When the two key pairs can be generated and the log opens, start-up returns a server whose
  ledger is well formed and solvent and holds exactly 1,006,000.00 (the two benchmark accounts and the
  deficit reserve), with an empty response cache, the network online, a well-formed revocation filter
  that reports the demo account, a terminal key that matches the private key of the QR end point,
  and an authorizer that trusts the server's token authority.
\<close>

theorem setup_ready:
  assumes "boot_authority_seed b = Some sa" and "boot_terminal_seed b = Some st"
    and "NewWALStore (boot_disk b) (boot_codec b) path (boot_file b) = Inr wal"
  shows "\<exists>s f. setupServer b path = Some (Inr s) \<and> ledger_wf (coreLedger s)
    \<and> solvent (account_names (coreLedger s)) (book (coreLedger s))
    \<and> (\<forall>ks. distinct ks \<longrightarrow> set ks = account_names (coreLedger s) \<longrightarrow>
         fst (snd (snd (AuditConservation ks (coreLedger s)))) = 100600000)
    \<and> idempotency (srv_gw s) = Map.empty \<and> GetNetworkStatus (srv_gw s) = NetworkOnline \<and> edgeWAL (srv_gw s) = wal
    \<and> compactFilter s = Some f \<and> cf_wf f \<and> Contains ''ACC-REVOKED-DEMO'' f = Some True
    \<and> key_pair (boot_ed b) (terminalPubKey s) (terminalPrivKey s)
    \<and> terminalKeys (srv_gw s) ''TERM-001'' = Some (terminalPubKey s)
    \<and> ea_publicKey (edgeAuthorizer (srv_gw s)) = PublicKey (tokenAuth s)"
proof -
  obtain s f where s: "setupServer b path = Some (Inr s)" "coreLedger s = seed_ledger b"
    "idempotency (srv_gw s) = Map.empty" "networkStatus (srv_gw s) = NetworkOnline" "edgeWAL (srv_gw s) = wal"
    "compactFilter s = Some f" "cf_wf f" "Contains ''ACC-REVOKED-DEMO'' f = Some True"
    "key_pair (boot_ed b) (terminalPubKey s) (terminalPrivKey s)"
    "terminalKeys (srv_gw s) ''TERM-001'' = Some (terminalPubKey s)"
    "ea_publicKey (edgeAuthorizer (srv_gw s)) = PublicKey (tokenAuth s)"
    using setupServer_state[OF assms] by metis
  have "fst (snd (snd (AuditConservation ks (coreLedger s)))) = 100600000"
    if "distinct ks" "set ks = account_names (coreLedger s)" for ks
    using AuditConservation_total[OF that] seed_ledger_money(2)[of b] by (simp add: led.money_def s(2))
  then show ?thesis
    using s seed_ledger_facts(1)[of b] seed_ledger_money(1)[of b]
    by (intro exI[of _ s] exI[of _ f]) (simp add: GetNetworkStatus_def)
qed

theorem setup_ready_witness:
  "\<exists>s. setupServer demo_boot ''wal'' = Some (Inr s) \<and> GetNetworkStatus (srv_gw s) = NetworkOnline"
  using setup_ready[OF _ _ demo_boot_wal, of "[7]" "[9]"] by auto

text \<open>
  C14. Where money comes from. Over any sequence of requests to the server the audited total changes by
  exactly the opening balances of the accounts that were created and did not exist; payments, network
  changes, reconciliations, allowances and every other request leave it as it is.
\<close>

theorem served_money:
  assumes "serve_all cs s = Some (rs, s')" and "ledger_wf (coreLedger s)"
    and "distinct ks" "set ks = account_names (coreLedger s)"
    and "distinct ks'" "set ks' = account_names (coreLedger s')"
  shows "fst (snd (snd (AuditConservation ks' (coreLedger s')))) =
    fst (snd (snd (AuditConservation ks (coreLedger s)))) + minted_all cs s"
  using serve_all_money[OF assms(1,2)] AuditConservation_total[OF assms(3,4)] AuditConservation_total[OF assms(5,6)]
  by (simp add: led.money_def)

theorem served_money_witness:
  "\<exists>s rs s'. serve_all [POST_account_create 0 (\<lambda>_. 0) (Some (''NEW'', 500, 100))] s = Some (rs, s')
    \<and> (\<forall>ks ks'. distinct ks \<longrightarrow> set ks = account_names (coreLedger s) \<longrightarrow> distinct ks' \<longrightarrow>
        set ks' = account_names (coreLedger s') \<longrightarrow>
        fst (snd (snd (AuditConservation ks' (coreLedger s')))) = fst (snd (snd (AuditConservation ks (coreLedger s)))) + 500)"
proof -
  obtain s where s: "coreLedger s = seed_ledger demo_boot"
    using setupServer_state[OF _ _ demo_boot_wal, of "[7]" "[9]"] by auto
  let ?cs = "[POST_account_create 0 (\<lambda>_. 0) (Some (''NEW'', 500, 100))]"
  obtain rs s' where run: "serve_all ?cs s = Some (rs, s')" by (cases "serve_all ?cs s") (auto split: prod.splits)
  have "minted_all ?cs s = 500"
    by (simp add: s seed_ledger_facts(2) AccountDeficitReserve_def split: prod.split)
  then show ?thesis
    using run served_money[OF run] seed_ledger_facts(1)[of demo_boot] by (intro exI[of _ s]) (auto simp: s)
qed

section \<open>Revocation\<close>

lemma serve_all_filter:
  assumes "serve_all cs s = Some (rs, s')" and "compactFilter s = Some f" and "cf_wf f" and "Contains k f = Some True"
    and "\<forall>r \<in> set rs. \<forall>a n. snd r \<noteq> RevocationBody a False n"
  shows "\<exists>f'. compactFilter s' = Some f' \<and> cf_wf f' \<and> Contains k f' = Some True"
  using assms
proof (induction cs arbitrary: s rs f)
  case (Cons c cs)
  obtain r s1 rs1 where one: "serve c s = Some (r, s1)" "serve_all cs s1 = Some (rs1, s')" "rs = r # rs1"
    using Cons.prems(1) by (auto split: option.splits)
  obtain f1 where "compactFilter s1 = Some f1" "cf_wf f1" "Contains k f1 = Some True"
    using serve_filter[OF one(1) Cons.prems(2,3)] Cons.prems(4,5) one(3) by auto
  with Cons.IH[OF one(2)] Cons.prems(5) one(3) show ?case by simp
qed auto

lemma check_dynamic_qr_counter [simp]:
  "check_dynamic_qr ev req (gw\<lparr>requestCounter := c\<rparr>) = check_dynamic_qr ev req gw"
  by (auto simp: check_dynamic_qr_def split: option.split)

lemma AuthorizeOffline_revoked:
  assumes "revocationFilter ea = Some f" and "Contains (tok_AccountID tok) f = Some True"
  shows "AuthorizeOffline ed t tok x ea =
    Some (decline CodeRevokedAccountEdge ''Account or card token revoked at edge (Lost/Stolen Card).'', ea)"
  using assms by (simp add: AuthorizeOffline_def revoked_def)

text \<open>
  C15. Revocation reaches the edge. With a well-formed filter, as start-up makes it, the revocation end point answered that an account was inserted; since then
  the server handled any requests, but answered no insertion with a failure (a failed insertion can drop another
  account from the filter). Then, during a partition, a payment with a token of that account that is not
  answered from the response cache is declined, and neither ledger nor log changes; the reason is
  \<open>ERR_REVOKED_ACCOUNT_EDGE\<close> with ISO code 41 unless the QR gate declined it before.
\<close>

theorem revocation_blocks:
  assumes "compactFilter s = Some f" and "cf_wf f"
    and "serve (POST_revocation_add rnd (Some a)) s = Some ((st, RevocationBody a True n), s1)"
    and "serve_all cs s1 = Some (rs, s2)" and "\<forall>r \<in> set rs. \<forall>k m. snd r \<noteq> RevocationBody k False m"
    and "networkStatus (srv_gw s2) = NetworkDisconnected" and "cached_response req (srv_gw s2) = None"
    and "OfflineToken req = Some tok" and "tok_AccountID tok = a"
  shows "\<exists>resp gw'. ProcessPayment ev req (srv_gw s2) = Some (resp, gw') \<and> \<not> authorized resp
    \<and> (check_dynamic_qr ev (fill_defaults ev req) (srv_gw s2) = None \<longrightarrow>
        rsp_ReasonCode resp = CodeRevokedAccountEdge \<and> rsp_ISO8583 resp = ''41'')
    \<and> gw_ledger gw' = coreLedger s2 \<and> edgeWAL gw' = edgeWAL (srv_gw s2)"
proof -
  obtain f1 where f1: "Insert rnd a f = Some (True, f1)" "compactFilter s1 = Some f1"
    using assms(1,3) by (auto simp: handleRevocationAdd_def split: option.splits)
  have wf1: "cf_wf f1" "Contains a f1 = Some True"
    using cuckoo.insert_wf[OF assms(2) f1(1)] cuckoo.insert_finds[OF assms(2) f1(1)] by auto
  obtain f2 where "compactFilter s2 = Some f2" "Contains a f2 = Some True"
    using serve_all_filter[OF assms(4) f1(2) wf1 assms(5)] by blast
  then have auth: "AuthorizeOffline ed t tok x (edgeAuthorizer (srv_gw s2)) =
      Some (decline CodeRevokedAccountEdge ''Account or card token revoked at edge (Lost/Stolen Card).'', edgeAuthorizer (srv_gw s2))" for ed t x
    using AuthorizeOffline_revoked[of "edgeAuthorizer (srv_gw s2)" f2 tok] assms(9) by (simp add: compactFilter_def)
  let ?gw = "(srv_gw s2)\<lparr>requestCounter := requestCounter (srv_gw s2) + 1\<rparr>"
  have cache: "cached_response (fill_defaults ev req) ?gw = None"
    using assms(7) by (simp add: cached_response_def split: if_splits)
  show ?thesis
  proof (cases "check_dynamic_qr ev (fill_defaults ev req) (srv_gw s2)")
    case None
    with cache show ?thesis
      using assms(6,8)
      by (simp add: ProcessPayment_def Let_def route_payment_def handleOfflinePayment_def auth decline_def coreLedger_def)
        (simp add: NewDeclineResponse_def authorized_def)
  next
    case (Some resp)
    with cache check_dynamic_qr_declines[OF Some] show ?thesis by (simp add: ProcessPayment_def Let_def coreLedger_def)
  qed
qed

theorem revocation_blocks_witness:
  "\<exists>s st n s1 resp gw'. serve (POST_revocation_add (\<lambda>_. 0) (Some ''ACC-1'')) s = Some ((st, RevocationBody ''ACC-1'' True n), s1)
    \<and> ProcessPayment demo_env (demo_request ''K'' 100) (srv_gw s1) = Some (resp, gw') \<and> rsp_ISO8583 resp = ''41''"
proof -
  let ?gw = "demo_gateway\<lparr>networkStatus := NetworkDisconnected,
    edgeAuthorizer := SetRevocationFilter (Some (one_bucket [0, 0, 0, 0] 0)) demo_edge\<rparr>"
  let ?s = "\<lparr>srv_gw = ?gw, tokenAuth = demo_authority, terminalPrivKey = [], terminalPubKey = []\<rparr>"
  have f: "compactFilter ?s = Some (one_bucket [0, 0, 0, 0] 0)" by (simp add: compactFilter_def SetRevocationFilter_def)
  obtain f' where ins: "Insert (\<lambda>_. 0) ''ACC-1'' (one_bucket [0, 0, 0, 0] 0) = Some (True, f')"
    by (simp add: Insert_def Let_def insertIntoBucket_def) (simp add: one_bucket_def)
  obtain st n s1 where s1: "serve (POST_revocation_add (\<lambda>_. 0) (Some ''ACC-1'')) ?s = Some ((st, RevocationBody ''ACC-1'' True n), s1)"
      "s1 = set_filter f' ?s"
    using ins f by (simp add: handleRevocationAdd_def)
  have "\<exists>resp gw'. ProcessPayment demo_env (demo_request ''K'' 100) (srv_gw s1) = Some (resp, gw') \<and> rsp_ISO8583 resp = ''41''"
    using revocation_blocks[OF f _ s1(1), of "[]" "[]" s1 "demo_request ''K'' 100" demo_token demo_env]
      one_bucket_wf[of "[0, 0, 0, 0]" 0]
    by (auto simp: s1(2) set_filter_def cached_response_def check_dynamic_qr_def demo_token_def IssueToken_fields)
  with s1(1) show ?thesis by blast
qed

section \<open>QR codes\<close>

lemma stale_payload_fails:
  assumes "\<bar>sint (Unix t)\<bar> < 2 ^ 61" and "\<bar>sint (EpochSalt p)\<bar> < 2 ^ 61"
    and "60 < \<bar>sint (Unix t) - sint (EpochSalt p)\<bar>"
  shows "\<not> fst (VerifyDynamicQR ed f2i t p pub)"
proof -
  note d = sint_diff_abs[OF assms(1,2)]
  have "\<not> sint (epoch_skew f2i (Unix t) (EpochSalt p)) \<le> 60"
    using epoch_skew_le[OF d(2)] assms(3) d(1) by simp
  then show ?thesis by (simp add: VerifyDynamicQR_def Let_def MaxEpochSkewSeconds_def)
qed

lemma sint_minus_120: "0 \<le> sint (x :: int64) \<Longrightarrow> sint (x - 120) = sint x - 120"
  using sint64_bounds[of x] by (subst sint_diff_no_overflow) simp_all

text \<open>A payload signed with a key whose signatures the registered key rejects.\<close>

definition unrelated_keys :: "ed25519 \<Rightarrow> byte list \<Rightarrow> byte list \<Rightarrow> bool" where
  "unrelated_keys ed pub priv \<longleftrightarrow> (\<forall>m. \<not> Verify ed pub m (Sign ed priv m))"

lemma forged_payload_fails:
  assumes "ed25519_correct ed" and "unrelated_keys ed pub priv"
  shows "\<exists>p. SignDynamicQR ed t (Some nonce) priv mer tid = Inr p \<and> qr_MerchantID p = mer \<and> qr_TerminalID p = tid
    \<and> \<not> fst (VerifyDynamicQR ed f2i t' p pub)"
  using assms by (simp add: SignDynamicQR_def VerifyDynamicQR_def Let_def ed25519_sig_bytes unrelated_keys_def)

text \<open>
  C34. The QR end point against the QR gate of the gateway. Take a code the server generates for a merchant
  \<open>mer\<close> and a terminal \<open>tid\<close> (the defaults when the request leaves them empty) whose registered key is the public key
  of the server's terminal key; it is presented at most 31 seconds after it was signed, in a payment to
  that merchant. It passes the gate exactly when it was not generated in one of the three tampering modes: \<open>EXPIRED\<close>
  (signed for an epoch two minutes ago), \<open>STICKER_MISMATCH\<close> (signed for another merchant) and \<open>FORGED\<close> (signed with a
  freshly generated key, whose signatures the registered key is assumed to reject); those are declined as QR tampering.
\<close>

theorem generated_qr_gate:
  assumes "ed25519_correct ed" and "key_pair ed pub (terminalPrivKey s)" and "qi_nonce qi = Some nonce"
    and "mer = (if qreq_MerchantID qr = '''' then ''MERCHANT-POS-01'' else qreq_MerchantID qr)"
    and "tid = (if qreq_TerminalID qr = '''' then ''TERM-001'' else qreq_TerminalID qr)"
    and "mer \<noteq> ''ATTACKER-EVIL-MERCHANT''" and "terminalKeys (srv_gw s) tid = Some pub"
    and "qi_fake_seed qi = Some seed" and "unrelated_keys ed pub (snd (NewKeyPair ed seed))"
    and "req_MerchantID req = mer" and "env_ed ev = ed"
    and "0 \<le> sint (Unix (qi_sign_time qi))" and "sint (Unix (qi_sign_time qi)) < 2 ^ 60"
    and "sint (Unix (qi_sign_time qi)) \<le> sint (Unix (qi_now qi))" and "sint (Unix (qi_now qi)) \<le> sint (Unix (env_qr_time ev))"
    and "sint (Unix (env_qr_time ev)) \<le> sint (Unix (qi_sign_time qi)) + 31"
  shows "\<exists>p. handleGenerateQR ed qi qr s = Some ((StatusOK, QRBody p), s)
    \<and> (if TamperMode qr \<in> {''EXPIRED'', ''STICKER_MISMATCH'', ''FORGED''}
       then (\<exists>resp. check_dynamic_qr ev (req\<lparr>DynamicQR := Some p\<rparr>) (srv_gw s) = Some resp
               \<and> rsp_ReasonCode resp = CodeQRTampering)
       else check_dynamic_qr ev (req\<lparr>DynamicQR := Some p\<rparr>) (srv_gw s) = None)"
proof -
  let ?priv = "terminalPrivKey s" and ?t = "qi_sign_time qi" and ?t' = "env_qr_time ev"
  have sgn: "\<exists>p. SignDynamicQR ed ?t (qi_nonce qi) ?priv m tid = Inr p
      \<and> qr_MerchantID p = m \<and> qr_TerminalID p = tid \<and> VerifyDynamicQR ed f2i ?t' p pub = (True, '''')" for m f2i
    using signed_payload_verifies[OF assms(1,2,12,13), of ?t' nonce m tid f2i] assms(3,14-16) by auto
  note ids = assms(4,5)[symmetric]
  have gate: "\<exists>resp. check_dynamic_qr ev (req\<lparr>DynamicQR := Some p\<rparr>) (srv_gw s) = Some resp \<and> rsp_ReasonCode resp = CodeQRTampering"
    if "qr_TerminalID p = tid" "\<not> fst (VerifyDynamicQR ed (env_f2i ev) ?t' p pub)" for p
    using that assms(7,10,11)
    by (cases "VerifyDynamicQR ed (env_f2i ev) ?t' p pub") (auto simp: check_dynamic_qr_def NewDeclineResponse_def)
  consider (expired) "TamperMode qr = ''EXPIRED''" | (sticker) "TamperMode qr = ''STICKER_MISMATCH''"
    | (forged) "TamperMode qr = ''FORGED''"
    | (genuine) "TamperMode qr \<notin> {''EXPIRED'', ''STICKER_MISMATCH'', ''FORGED''}" by auto
  then show ?thesis
  proof cases
    case genuine
    with sgn[of mer "env_f2i ev"] assms(7,10,11) show ?thesis
      unfolding handleGenerateQR_def Let_def ids by (auto simp: check_dynamic_qr_def)
  next
    case sticker
    with sgn[of "''ATTACKER-EVIL-MERCHANT''" 0] assms(6,10) show ?thesis
      unfolding handleGenerateQR_def Let_def ids by (auto simp: check_dynamic_qr_def NewDeclineResponse_def)
  next
    case forged
    obtain p where p: "SignDynamicQR ed ?t (qi_nonce qi) (snd (NewKeyPair ed seed)) mer tid = Inr p" "qr_TerminalID p = tid"
        "\<not> fst (VerifyDynamicQR ed (env_f2i ev) ?t' p pub)"
      using forged_payload_fails[OF assms(1,9)] unfolding assms(3) by blast
    then show ?thesis
      using forged gate[OF p(2,3)] assms(8) unfolding handleGenerateQR_def Let_def ids by simp
  next
    case expired
    obtain p where p: "SignDynamicQR ed ?t (qi_nonce qi) ?priv mer tid = Inr p" "qr_MerchantID p = mer" "qr_TerminalID p = tid"
      using sgn[of mer 0] by blast
    define salt where "salt = Unix (qi_now qi) - 120"
    define p1 where "p1 = p\<lparr>EpochSalt := salt, qr_Signature := hex_encode (Sign ed ?priv
      (ComputeQRDigest (qr_MerchantID p) (qr_TerminalID p) salt (qr_Nonce p)))\<rparr>"
    have salt: "sint salt = sint (Unix (qi_now qi)) - 120"
      using sint_minus_120[of "Unix (qi_now qi)"] assms(12,14) by (simp add: salt_def)
    have "\<not> fst (VerifyDynamicQR ed (env_f2i ev) ?t' p1 pub)"
      by (rule stale_payload_fails) (use assms(12-16) salt in \<open>simp_all add: p1_def\<close>)
    moreover have "qr_TerminalID p1 = tid" using p by (simp add: p1_def)
    moreover have "handleGenerateQR ed qi qr s = Some ((StatusOK, QRBody p1), s)"
      using expired p unfolding handleGenerateQR_def Let_def ids by (simp add: p1_def salt_def)
    ultimately show ?thesis using expired gate[of p1] by simp
  qed
qed

theorem generated_qr_gate_witness:
  "let s = \<lparr>srv_gw = RegisterTerminalKey ''TERM-001'' [9] demo_gateway, tokenAuth = demo_authority, terminalPrivKey = [9], terminalPubKey = [9]\<rparr>;
     qi = \<lparr>qi_sign_time = 1000 * Second, qi_now = 1000 * Second, qi_nonce = Some [1], qi_fake_seed = Some [7]\<rparr> in
   \<exists>p resp. handleGenerateQR demo_ed25519 qi \<lparr>qreq_MerchantID = ''SHOP'', qreq_TerminalID = '''', TamperMode = ''FORGED''\<rparr> s = Some ((StatusOK, QRBody p), s)
     \<and> check_dynamic_qr (demo_env\<lparr>env_qr_time := 1020 * Second\<rparr>) ((demo_request ''K'' 100)\<lparr>DynamicQR := Some p\<rparr>) (srv_gw s) = Some resp
     \<and> rsp_ReasonCode resp = CodeQRTampering"
proof -
  let ?s = "\<lparr>srv_gw = RegisterTerminalKey ''TERM-001'' [9] demo_gateway, tokenAuth = demo_authority, terminalPrivKey = [9], terminalPubKey = [9]\<rparr>"
  let ?qi = "\<lparr>qi_sign_time = 1000 * Second, qi_now = 1000 * Second, qi_nonce = Some [1], qi_fake_seed = Some [7]\<rparr>"
  have "unrelated_keys demo_ed25519 [9] (snd (NewKeyPair demo_ed25519 [7]))"
    by (simp add: unrelated_keys_def demo_ed25519_def)
  from generated_qr_gate[of demo_ed25519 "[9]" ?s ?qi "[1]" "''SHOP''" "\<lparr>qreq_MerchantID = ''SHOP'', qreq_TerminalID = '''', TamperMode = ''FORGED''\<rparr>"
      "''TERM-001''" "[7]" "demo_request ''K'' 100" "demo_env\<lparr>env_qr_time := 1020 * Second\<rparr>", OF _ _ _ _ _ _ _ _ this]
  show ?thesis by (simp add: demo_env_def RegisterTerminalKey_def Unix_def Second_def Let_def)
qed

end
