(* ===== verification/AIO_Ledger.thy ===== *)
theory AIO_Ledger
  imports Book
begin

text \<open>
  The ledger of \<open>fs2601_all_in_one.go\<close>, the single-file variant of the program (names carry the prefix
  \<open>aio_\<close>). It differs from \<open>internal/ledger\<close>: each account also stores its total balance, a journal entry
  has one account and a debit or a credit, accounts must exist before a transfer, and a settlement of
  an offline payment takes what the allowance cannot cover from the deficit reserve.

  \<^item> Mutation through a pointer is \<open>aio_upd\<close> on the key of the account, in program order.
  \<^item> \<open>aio_CommitOfflineAllowance\<close> dereferences both accounts without testing that they exist and locks
    them one after the other: \<open>None\<close> is the panic of a missing account or the block on one account.
\<close>

section \<open>Data\<close>

definition aio_AccountDeficitReserve :: string where
  "aio_AccountDeficitReserve = ''ACC_MERCHANT_DEFICIT_RESERVE''"

record aio_Account =
  aa_ID :: string
  aa_AvailableBalance :: int64
  aa_OnlineAvailable :: int64
  aa_OfflineAllowance :: int64
  aa_ReservedBalance :: int64
  aa_TotalBalance :: int64
  aa_Version :: int64
  aa_UpdatedAt :: time

record aio_LedgerEntry =
  ae_EntryID :: int64
  ae_Timestamp :: time
  ae_TxID :: string
  ae_AccountID :: string
  ae_Debit :: int64
  ae_Credit :: int64
  ae_Description :: string

record aio_Ledger =
  aio_accounts :: "string \<rightharpoonup> aio_Account"
  aio_entries :: "aio_LedgerEntry list"
  aio_reservations :: "string \<rightharpoonup> int64"

section \<open>Operations\<close>

definition aio_upd :: "string \<Rightarrow> (aio_Account \<Rightarrow> aio_Account) \<Rightarrow> aio_Ledger \<Rightarrow> aio_Ledger" where
  "aio_upd k f l = l\<lparr>aio_accounts := (aio_accounts l)(k := map_option f (aio_accounts l k))\<rparr>"

text \<open>Appending entries; each gets the number of its place, as the literals in the code compute it.\<close>

definition aio_log :: "aio_LedgerEntry list \<Rightarrow> aio_Ledger \<Rightarrow> aio_Ledger" where
  "aio_log es l =
     l\<lparr>aio_entries := aio_entries l @
        map (\<lambda>(i, e). e\<lparr>ae_EntryID := of_nat (length (aio_entries l) + i)\<rparr>) (zip [1..<Suc (length es)] es)\<rparr>"

definition aio_debit_entry :: "time \<Rightarrow> string \<Rightarrow> string \<Rightarrow> int64 \<Rightarrow> aio_LedgerEntry" where
  "aio_debit_entry now txID acc amount =
     \<lparr>ae_EntryID = 0, ae_Timestamp = now, ae_TxID = txID, ae_AccountID = acc, ae_Debit = amount, ae_Credit = 0,
      ae_Description = ''''\<rparr>"

definition aio_credit_entry :: "time \<Rightarrow> string \<Rightarrow> string \<Rightarrow> int64 \<Rightarrow> aio_LedgerEntry" where
  "aio_credit_entry now txID acc amount =
     \<lparr>ae_EntryID = 0, ae_Timestamp = now, ae_TxID = txID, ae_AccountID = acc, ae_Debit = 0, ae_Credit = amount,
      ae_Description = ''''\<rparr>"

definition aio_CreateAccount :: "time \<Rightarrow> string \<Rightarrow> int64 \<Rightarrow> aio_Ledger \<Rightarrow> aio_Ledger" where
  "aio_CreateAccount now k initialBalance l =
     (case aio_accounts l k of
        Some _ \<Rightarrow> l
      | None \<Rightarrow> l\<lparr>aio_accounts := (aio_accounts l)(k \<mapsto>
          \<lparr>aa_ID = k, aa_AvailableBalance = initialBalance, aa_OnlineAvailable = initialBalance,
           aa_OfflineAllowance = 0, aa_ReservedBalance = 0, aa_TotalBalance = initialBalance,
           aa_Version = 1, aa_UpdatedAt = now\<rparr>)\<rparr>)"

definition aio_NewConservingLedger :: "time \<Rightarrow> aio_Ledger" where
  "aio_NewConservingLedger now =
     aio_CreateAccount now aio_AccountDeficitReserve 100000000
       \<lparr>aio_accounts = Map.empty, aio_entries = [], aio_reservations = Map.empty\<rparr>"

text \<open>Creates the account when it is missing; there is no journal entry.\<close>

definition aio_FundAccount :: "clock \<Rightarrow> string \<Rightarrow> int64 \<Rightarrow> aio_Ledger \<Rightarrow> aio_Ledger" where
  "aio_FundAccount clk k amount l =
     aio_upd k
       (\<lambda>a. a\<lparr>aa_OnlineAvailable := aa_OnlineAvailable a + amount,
              aa_AvailableBalance := aa_AvailableBalance a + amount,
              aa_TotalBalance := aa_TotalBalance a + amount,
              aa_Version := aa_Version a + 1, aa_UpdatedAt := clk 1\<rparr>)
       (case aio_accounts l k of
          Some _ \<Rightarrow> l
        | None \<Rightarrow> l\<lparr>aio_accounts := (aio_accounts l)(k \<mapsto>
            \<lparr>aa_ID = k, aa_AvailableBalance = 0, aa_OnlineAvailable = 0, aa_OfflineAllowance = 0,
             aa_ReservedBalance = 0, aa_TotalBalance = 0, aa_Version = 1, aa_UpdatedAt = clk 0\<rparr>)\<rparr>)"

definition aio_AllocateOfflineAllowance :: "time \<Rightarrow> string \<Rightarrow> int64 \<Rightarrow> aio_Ledger \<Rightarrow> string option \<times> aio_Ledger" where
  "aio_AllocateOfflineAllowance now k amount l =
     (case aio_accounts l k of
        None \<Rightarrow> (Some ''account not found'', l)
      | Some acc \<Rightarrow>
          if sint (aa_OnlineAvailable acc) < sint amount then (Some ''insufficient online available balance'', l)
          else (None,
            aio_upd k
              (\<lambda>a. a\<lparr>aa_OnlineAvailable := aa_OnlineAvailable a - amount,
                     aa_AvailableBalance := aa_OnlineAvailable a - amount,
                     aa_OfflineAllowance := aa_OfflineAllowance a + amount,
                     aa_Version := aa_Version a + 1, aa_UpdatedAt := now\<rparr>) l))"

definition aio_ReserveFunds :: "clock \<Rightarrow> string \<Rightarrow> int64 \<Rightarrow> string \<Rightarrow> aio_Ledger \<Rightarrow> (string + string) \<times> aio_Ledger" where
  "aio_ReserveFunds clk k amount txID l =
     (if sint amount \<le> 0 then (Inl ''invalid amount'', l)
      else case aio_accounts l k of
        None \<Rightarrow> (Inl ''account not found'', l)
      | Some acc \<Rightarrow>
          if sint (aa_OnlineAvailable acc) < sint amount then (Inl ''insufficient funds'', l)
          else
            let l1 = aio_upd k
                  (\<lambda>a. a\<lparr>aa_OnlineAvailable := aa_OnlineAvailable a - amount,
                         aa_AvailableBalance := aa_OnlineAvailable a - amount,
                         aa_ReservedBalance := aa_ReservedBalance a + amount,
                         aa_Version := aa_Version a + 1, aa_UpdatedAt := clk 0\<rparr>) l;
                holdID = ''HOLD-'' @ txID @ ''-'' @ show_int64 (UnixNano (clk 1))
            in (Inr holdID, l1\<lparr>aio_reservations := (aio_reservations l1)(holdID \<mapsto> amount)\<rparr>))"

text \<open>The two halves of a transfer between online buckets.\<close>

definition aio_take_online :: "time \<Rightarrow> int64 \<Rightarrow> aio_Account \<Rightarrow> aio_Account" where
  "aio_take_online now amount a =
     a\<lparr>aa_OnlineAvailable := aa_OnlineAvailable a - amount,
       aa_AvailableBalance := aa_OnlineAvailable a - amount,
       aa_TotalBalance := aa_TotalBalance a - amount,
       aa_Version := aa_Version a + 1, aa_UpdatedAt := now\<rparr>"

definition aio_add_online :: "time \<Rightarrow> int64 \<Rightarrow> aio_Account \<Rightarrow> aio_Account" where
  "aio_add_online now amount a =
     a\<lparr>aa_OnlineAvailable := aa_OnlineAvailable a + amount,
       aa_AvailableBalance := aa_OnlineAvailable a + amount,
       aa_TotalBalance := aa_TotalBalance a + amount,
       aa_Version := aa_Version a + 1, aa_UpdatedAt := now\<rparr>"

definition aio_DirectCommit ::
  "clock \<Rightarrow> string \<Rightarrow> string \<Rightarrow> int64 \<Rightarrow> string \<Rightarrow> aio_Ledger \<Rightarrow> string option \<times> aio_Ledger" where
  "aio_DirectCommit clk fromID toID amount txID l =
     (case (aio_accounts l fromID, aio_accounts l toID) of
        (Some fromAcc, Some toAcc) \<Rightarrow>
          if fromID = toID then (Some ''cannot transfer to self'', l)
          else if sint (aa_OnlineAvailable fromAcc) < sint amount then (Some ''insufficient online funds'', l)
          else (None,
            aio_log [aio_debit_entry (clk 2) txID fromID amount, aio_credit_entry (clk 3) txID toID amount]
              (aio_upd toID (aio_add_online (clk 1) amount) (aio_upd fromID (aio_take_online (clk 0) amount) l)))
      | _ \<Rightarrow> (Some ''account not found'', l))"

definition aio_DebitDeficitReserve :: "clock \<Rightarrow> int64 \<Rightarrow> string \<Rightarrow> aio_Ledger \<Rightarrow> aio_Ledger" where
  "aio_DebitDeficitReserve clk amount txID l =
     (case aio_accounts l aio_AccountDeficitReserve of
        None \<Rightarrow> l
      | Some _ \<Rightarrow>
          aio_log [aio_debit_entry (clk 5) txID aio_AccountDeficitReserve amount]
            (aio_upd aio_AccountDeficitReserve (aio_take_online (clk 4) amount) l))"

definition aio_CommitOfflineAllowance ::
  "clock \<Rightarrow> string \<Rightarrow> string \<Rightarrow> int64 \<Rightarrow> string \<Rightarrow> aio_Ledger \<Rightarrow> (int64 \<times> aio_Ledger) option" where
  "aio_CommitOfflineAllowance clk fromID toID amount txID l =
     (case (aio_accounts l fromID, aio_accounts l toID) of
        (Some fromAcc, Some toAcc) \<Rightarrow>
          if fromID = toID then None
          else
            let covered = sint (aa_OfflineAllowance fromAcc) \<ge> sint amount;
                customerCharge = (if covered then amount else aa_OfflineAllowance fromAcc);
                deficitDelta = (if covered then 0 else amount - customerCharge);
                l1 = aio_upd fromID
                  (\<lambda>a. a\<lparr>aa_OfflineAllowance := (if covered then aa_OfflineAllowance a - amount else 0),
                         aa_TotalBalance := aa_TotalBalance a - customerCharge,
                         aa_Version := aa_Version a + 1, aa_UpdatedAt := clk 0\<rparr>) l;
                l2 = aio_upd toID (aio_add_online (clk 1) amount) l1;
                l3 = (if sint deficitDelta > 0 then aio_DebitDeficitReserve clk deficitDelta txID l2 else l2)
            in Some (deficitDelta,
                 aio_log [aio_debit_entry (clk 2) txID fromID customerCharge, aio_credit_entry (clk 3) txID toID amount] l3)
      | _ \<Rightarrow> None)"

text \<open>The order in which \<open>range\<close> visits the accounts is \<open>ks\<close>.\<close>

definition aio_AuditConservation :: "string list \<Rightarrow> aio_Ledger \<Rightarrow> int64 \<times> nat" where
  "aio_AuditConservation ks l =
     (foldl (\<lambda>s k. case aio_accounts l k of None \<Rightarrow> s | Some a \<Rightarrow> s + aa_TotalBalance a) 0 ks, length (aio_entries l))"

end
