(* ===== verification/AIO_System.thy ===== *)
theory AIO_System
  imports AIO_Ledger WAL_Store Float64 "HOL-Library.Product_Lexorder" "HOL-Library.Signed_Division"
begin

text \<open>
  The parts of \<open>fs2601_all_in_one.go\<close> between its ledger and its gateway: cuckoo filter, QR codes, fraud
  screen, log and reconciler. Names carry the prefix \<open>aio_\<close>.

  \<^item> \<open>sort.Slice\<close> sorts by sequence number, client time and transaction id. Records with equal keys are
    copies of one entry of the log's map, so every sorting algorithm gives the list that \<open>sort_key\<close> gives.
  \<^item> \<open>None\<close> is a panic, or a call that blocks on a mutex it holds.
\<close>

section \<open>Cuckoo filter\<close>

record aio_CompactFilter =
  aio_bucketCount :: uint32
  aio_buckets :: "uint16 list list"
  aio_count :: uint32

definition aio_NewCompactFilter :: "uint32 \<Rightarrow> aio_CompactFilter" where
  "aio_NewCompactFilter capacity =
     (let capacity = (if capacity = 0 then 1024 else capacity);
          bCount = capacity div 4;
          bCount = (if bCount = 0 then 1 else bCount)
      in \<lparr>aio_bucketCount = bCount, aio_buckets = replicate (unat bCount) (replicate 4 0), aio_count = 0\<rparr>)"

definition aio_hash64 :: "string \<Rightarrow> uint64" where
  "aio_hash64 s = foldl (\<lambda>h b. (h XOR ucast b) * 0x100000001b3) 0xcbf29ce484222325 (bytes_of s)"

definition aio_fingerprint :: "uint64 \<Rightarrow> uint16" where
  "aio_fingerprint h = (let fp = ucast (drop_bit 32 h XOR (h AND 0xFFFF)) :: uint16 in if fp = 0 then 1 else fp)"

definition aio_hashFingerprint :: "uint16 \<Rightarrow> uint32" where
  "aio_hashFingerprint fp =
     foldl (\<lambda>h b. (h XOR ucast b) * 0x01000193) 0x811c9dc5 [ucast fp :: byte, ucast (drop_bit 8 fp)]"

text \<open>The first index of a key and the partner of an index.\<close>

definition aio_index1 :: "uint32 \<Rightarrow> uint64 \<Rightarrow> uint32" where
  "aio_index1 n h = ucast (h mod ucast n)"

definition aio_alt :: "uint32 \<Rightarrow> uint32 \<Rightarrow> uint16 \<Rightarrow> uint32" where
  "aio_alt n i fp = (i XOR (aio_hashFingerprint fp mod n)) mod n"

fun aio_put_slot :: "uint16 \<Rightarrow> uint16 list \<Rightarrow> uint16 list option" where
  "aio_put_slot fp [] = None"
| "aio_put_slot fp (x # xs) = (if x = 0 then Some (fp # xs) else map_option ((#) x) (aio_put_slot fp xs))"

definition aio_insertIntoBucket :: "uint32 \<Rightarrow> uint16 \<Rightarrow> aio_CompactFilter \<Rightarrow> (bool \<times> aio_CompactFilter) option" where
  "aio_insertIntoBucket i fp cf =
     (if unat i < length (aio_buckets cf) then
        (case aio_put_slot fp (aio_buckets cf ! unat i) of
           None \<Rightarrow> Some (False, cf)
         | Some b \<Rightarrow> Some (True, cf\<lparr>aio_buckets := (aio_buckets cf)[unat i := b]\<rparr>))
      else None)"

text \<open>\<open>k\<close> counts the kicks made, out of \<open>CuckooMaxKicks\<close>.\<close>

function aio_kick :: "nat \<Rightarrow> uint32 \<Rightarrow> uint16 \<Rightarrow> aio_CompactFilter \<Rightarrow> (bool \<times> aio_CompactFilter) option" where
  "aio_kick k currIdx currFP cf =
     (if k < 500 then
        if unat currIdx < length (aio_buckets cf) then
          let slot = k mod 4;
              b = aio_buckets cf ! unat currIdx;
              displaced = b ! slot;
              cf1 = cf\<lparr>aio_buckets := (aio_buckets cf)[unat currIdx := b[slot := currFP]]\<rparr>;
              idx = aio_alt (aio_bucketCount cf) currIdx displaced
          in case aio_insertIntoBucket idx displaced cf1 of
               None \<Rightarrow> None
             | Some (True, cf2) \<Rightarrow> Some (True, cf2\<lparr>aio_count := aio_count cf2 + 1\<rparr>)
             | Some (False, cf2) \<Rightarrow> aio_kick (Suc k) idx displaced cf2
        else None
      else Some (False, cf))"
  by auto
termination by (relation "measure (\<lambda>(k, _). 500 - k)") auto

declare aio_kick.simps [simp del]

definition aio_Insert :: "string \<Rightarrow> aio_CompactFilter \<Rightarrow> (bool \<times> aio_CompactFilter) option" where
  "aio_Insert key cf =
     (let h = aio_hash64 key;
          fp = aio_fingerprint h;
          i1 = aio_index1 (aio_bucketCount cf) h;
          i2 = aio_alt (aio_bucketCount cf) i1 fp
      in case aio_insertIntoBucket i1 fp cf of
           None \<Rightarrow> None
         | Some (True, cf1) \<Rightarrow> Some (True, cf1\<lparr>aio_count := aio_count cf1 + 1\<rparr>)
         | Some (False, cf1) \<Rightarrow>
             (case aio_insertIntoBucket i2 fp cf1 of
                None \<Rightarrow> None
              | Some (True, cf2) \<Rightarrow> Some (True, cf2\<lparr>aio_count := aio_count cf2 + 1\<rparr>)
              | Some (False, cf2) \<Rightarrow> aio_kick 0 i1 fp cf2))"

definition aio_Contains :: "string \<Rightarrow> aio_CompactFilter \<Rightarrow> bool option" where
  "aio_Contains key cf =
     (let h = aio_hash64 key;
          fp = aio_fingerprint h;
          i1 = aio_index1 (aio_bucketCount cf) h;
          i2 = aio_alt (aio_bucketCount cf) i1 fp
      in if unat i1 < length (aio_buckets cf) \<and> unat i2 < length (aio_buckets cf)
         then Some (\<exists>s \<in> set [0..<4]. aio_buckets cf ! unat i1 ! s = fp \<or> aio_buckets cf ! unat i2 ! s = fp)
         else None)"

section \<open>QR codes\<close>

record aio_QRPayload =
  aq_MerchantID :: string
  aq_TerminalID :: string
  aq_EpochSalt :: int64
  aq_Nonce :: string
  aq_Signature :: string

definition aio_ComputeQRDigest :: "string \<Rightarrow> string \<Rightarrow> int64 \<Rightarrow> string \<Rightarrow> byte list" where
  "aio_ComputeQRDigest merchantID terminalID epochSalt nonce =
     sha256 (bytes_of (merchantID @ '':'' @ terminalID @ '':'' @ show_int64 epochSalt @ '':'' @ nonce))"

definition aio_SignDynamicQR :: "ed25519 \<Rightarrow> time \<Rightarrow> byte list \<Rightarrow> byte list \<Rightarrow> string \<Rightarrow> string \<Rightarrow> aio_QRPayload" where
  "aio_SignDynamicQR ed now nonceBytes privKey merchantID terminalID =
     (let epochSalt = word_of_int (sint (Unix now) sdiv 30) * 30;
          nonce = hex_encode nonceBytes;
          digest = aio_ComputeQRDigest merchantID terminalID epochSalt nonce
      in \<lparr>aq_MerchantID = merchantID, aq_TerminalID = terminalID, aq_EpochSalt = epochSalt, aq_Nonce = nonce,
          aq_Signature = hex_encode (Sign ed privKey digest)\<rparr>)"

definition aio_VerifyDynamicQR :: "ed25519 \<Rightarrow> time \<Rightarrow> byte list \<Rightarrow> aio_QRPayload option \<Rightarrow> string \<Rightarrow> bool \<times> string" where
  "aio_VerifyDynamicQR ed t pubKey qr expectedMerchantID =
     (case qr of
        None \<Rightarrow> (False, ''Missing dynamic QR payload'')
      | Some p \<Rightarrow>
          if aq_MerchantID p \<noteq> expectedMerchantID then
            (False, ''Merchant ID mismatch: expected '' @ expectedMerchantID @ '', got '' @ aq_MerchantID p)
          else
            let skew = Unix t - aq_EpochSalt p in
            if sint skew < - 60 \<or> sint skew > 60 then
              (False, ''Epoch salt expired: skew '' @ show_int64 skew @ ''s exceeds 60s limit'')
            else (case sig_bytes (aq_Signature p) of
                    None \<Rightarrow> (False, ''Invalid signature encoding'')
                  | Some sigBytes \<Rightarrow>
                      let digest = aio_ComputeQRDigest (aq_MerchantID p) (aq_TerminalID p) (aq_EpochSalt p) (aq_Nonce p)
                      in if \<not> Verify ed pubKey digest sigBytes then (False, ''Ed25519 signature verification failed'')
                         else (True, '''')))"

section \<open>Fraud screen\<close>

record aio_Event =
  aev_TxID :: string
  aev_FromAcc :: string
  aev_ToAcc :: string
  aev_Timestamp :: time

record aio_FraudEngine =
  aio_transfers :: "string \<rightharpoonup> aio_Event list"
  aio_terminalPubKeys :: "string \<rightharpoonup> byte list"

definition aio_NewInMemGraphFraudEngine :: aio_FraudEngine where
  "aio_NewInMemGraphFraudEngine = \<lparr>aio_transfers = Map.empty, aio_terminalPubKeys = Map.empty\<rparr>"

definition aio_RegisterTerminalKey :: "string \<Rightarrow> byte list \<Rightarrow> aio_FraudEngine \<Rightarrow> aio_FraudEngine" where
  "aio_RegisterTerminalKey terminalID pub fe =
     fe\<lparr>aio_terminalPubKeys := (aio_terminalPubKeys fe)(terminalID \<mapsto> pub)\<rparr>"

definition aio_events :: "aio_FraudEngine \<Rightarrow> string \<Rightarrow> aio_Event list" where
  "aio_events fe acc = (case aio_transfers fe acc of None \<Rightarrow> [] | Some es \<Rightarrow> es)"

definition aio_prune :: "time \<Rightarrow> aio_FraudEngine \<Rightarrow> aio_FraudEngine" where
  "aio_prune cutoff fe =
     fe\<lparr>aio_transfers := (\<lambda>acc. case aio_transfers fe acc of
          None \<Rightarrow> None
        | Some evs \<Rightarrow> (let valid = filter (\<lambda>e. aev_Timestamp e > cutoff) evs in if valid = [] then None else Some valid))\<rparr>"

text \<open>The cycle search: the score of the first hit, if any.\<close>

fun aio_find_cycle :: "aio_FraudEngine \<Rightarrow> string \<Rightarrow> aio_Event list \<Rightarrow> float64 option" where
  "aio_find_cycle fe fromAcc [] = None"
| "aio_find_cycle fe fromAcc (hop1 # evs) =
     (if aev_ToAcc hop1 = fromAcc then Some (fl (95 / 100))
      else if list_ex (\<lambda>hop2. aev_ToAcc hop2 = fromAcc) (aio_events fe (aev_ToAcc hop1)) then Some (fl (98 / 100))
      else aio_find_cycle fe fromAcc evs)"

type_synonym aio_verdict = "bool \<times> string \<times> string \<times> float64"

definition aio_qr_rejected :: "ed25519 \<Rightarrow> time \<Rightarrow> string \<Rightarrow> aio_QRPayload option \<Rightarrow> aio_FraudEngine \<Rightarrow> bool" where
  "aio_qr_rejected ed now toAcc qr fe =
     (case qr of
        None \<Rightarrow> False
      | Some p \<Rightarrow>
          (case aio_terminalPubKeys fe (aq_TerminalID p) of
             None \<Rightarrow> True
           | Some pubKey \<Rightarrow> \<not> fst (aio_VerifyDynamicQR ed now pubKey (Some p) toAcc)))"

definition aio_Screen ::
  "ed25519 \<Rightarrow> clock \<Rightarrow> string \<Rightarrow> string \<Rightarrow> int64 \<Rightarrow> aio_QRPayload option \<Rightarrow> aio_FraudEngine \<Rightarrow> aio_verdict \<times> aio_FraudEngine" where
  "aio_Screen ed clk fromAcc toAcc amount qr fe =
     (if aio_qr_rejected ed (clk 0) toAcc qr fe then ((False, ''ERR_QR_TAMPERING'', ''59'', 1), fe)
      else
        let now = clk 1;
            fe1 = aio_prune (now - 60 * Second) fe;
            evs = aio_events fe1 fromAcc
        in if length evs \<ge> 15 then ((False, ''MULE_RING_DETECTED'', ''59'', fl (90 / 100)), fe1)
           else case aio_find_cycle fe1 fromAcc (aio_events fe1 toAcc) of
                  Some score \<Rightarrow> ((False, ''MULE_RING_DETECTED'', ''59'', score), fe1)
                | None \<Rightarrow>
                    ((True, ''APPROVED'', ''00'', fl (5 / 100)),
                     fe1\<lparr>aio_transfers := (aio_transfers fe1)(fromAcc \<mapsto>
                       evs @ [\<lparr>aev_TxID = '''', aev_FromAcc = fromAcc, aev_ToAcc = toAcc, aev_Timestamp = now\<rparr>])\<rparr>))"

section \<open>Log\<close>

record aio_QueuedTx =
  aqt_TxID :: string
  aqt_AccountID :: string
  aqt_MerchantID :: string
  aqt_TerminalID :: string
  aqt_Amount :: int64
  aqt_SeqNo :: uint64
  aqt_VectorClock :: "(string \<times> uint64) list"
  aqt_ClientTimestamp :: int64
  aqt_Status :: string

record aio_LocalWAL =
  aio_file :: "byte list"
  aio_txMap :: "string \<rightharpoonup> aio_QueuedTx"
  aio_order :: "string list"
  aio_seqGen :: uint64

text \<open>Opening appends to what the file holds; nothing of it is read back. \<open>None\<close>: the file cannot be opened.\<close>

definition aio_NewLocalWAL :: "byte list option \<Rightarrow> aio_LocalWAL option" where
  "aio_NewLocalWAL content =
     map_option (\<lambda>bs. \<lparr>aio_file = bs, aio_txMap = Map.empty, aio_order = [], aio_seqGen = 0\<rparr>) content"

definition aio_frame :: "byte list \<Rightarrow> byte list" where
  "aio_frame data = be32 (of_nat (length data)) @ be32 (crc32 data) @ data"

definition aio_Append ::
  "(aio_QueuedTx \<Rightarrow> byte list) \<Rightarrow> write_outcome \<Rightarrow> aio_QueuedTx \<Rightarrow> aio_LocalWAL \<Rightarrow> string option \<times> aio_LocalWAL" where
  "aio_Append marshal out tx0 w =
     (let seq = aio_seqGen w + 1;
          tx = tx0\<lparr>aqt_SeqNo := seq\<rparr>;
          frame = aio_frame (marshal tx);
          w1 = w\<lparr>aio_seqGen := seq\<rparr>
      in case out of
           ShortWrite n e \<Rightarrow> (Some e, w1\<lparr>aio_file := aio_file w @ take n frame\<rparr>)
         | WriteOK \<Rightarrow>
             (None, w1\<lparr>aio_file := aio_file w @ frame, aio_txMap := (aio_txMap w)(aqt_TxID tx \<mapsto> tx),
                       aio_order := aio_order w @ [aqt_TxID tx]\<rparr>))"

definition aio_zero_tx :: aio_QueuedTx where
  "aio_zero_tx = \<lparr>aqt_TxID = '''', aqt_AccountID = '''', aqt_MerchantID = '''', aqt_TerminalID = '''', aqt_Amount = 0,
     aqt_SeqNo = 0, aqt_VectorClock = [], aqt_ClientTimestamp = 0, aqt_Status = ''''\<rparr>"

definition aio_Pending :: "aio_LocalWAL \<Rightarrow> aio_QueuedTx list" where
  "aio_Pending w =
     filter (\<lambda>t. aqt_Status t \<noteq> ''RECONCILED'')
       (map (\<lambda>k. case aio_txMap w k of None \<Rightarrow> aio_zero_tx | Some t \<Rightarrow> t) (aio_order w))"

section \<open>Reconciler\<close>

definition aio_tx_key :: "aio_QueuedTx \<Rightarrow> nat \<times> int \<times> string" where
  "aio_tx_key t = (unat (aqt_SeqNo t), sint (aqt_ClientTimestamp t), aqt_TxID t)"

fun aio_settle :: "(nat \<Rightarrow> clock) \<Rightarrow> nat \<Rightarrow> aio_QueuedTx list \<Rightarrow> nat \<Rightarrow> int64 \<Rightarrow> aio_Ledger \<Rightarrow> (nat \<times> int64 \<times> aio_Ledger) option" where
  "aio_settle clk i [] success totalReconciled l = Some (success, totalReconciled, l)"
| "aio_settle clk i (t # txs) success totalReconciled l =
     (case aio_CommitOfflineAllowance (clk i) (aqt_AccountID t) (aqt_MerchantID t) (aqt_Amount t) (aqt_TxID t) l of
        None \<Rightarrow> None
      | Some (_, l1) \<Rightarrow> aio_settle clk (Suc i) txs (success + 1) (totalReconciled + aqt_Amount t) l1)"

definition aio_Replay :: "(nat \<Rightarrow> clock) \<Rightarrow> aio_QueuedTx list \<Rightarrow> aio_Ledger \<Rightarrow> (nat \<times> int64 \<times> aio_Ledger) option" where
  "aio_Replay clk txs l = aio_settle clk 0 (sort_key aio_tx_key txs) 0 0 l"

end
