(* ===== verification/Json.thy ===== *)
theory Json
  imports Float64
begin

text \<open>
  Values of \<open>interface{}\<close> as the program builds and inspects them: what \<open>encoding/json\<close> decodes into
  (numbers are \<open>float64\<close>), and \<open>int64\<close> values that the program itself puts into a request.
\<close>

datatype json =
    JNull
  | JBool bool
  | JNumber float64
  | JInt int64
  | JString string
  | JArray "json list"
  | JObject "(string \<times> json) list"

type_synonym json_object = "(string \<times> json) list"

end
