(* ===== verification/Float_Ops.thy ===== *)
theory Float_Ops
  imports Float64
begin

text \<open>
  Products of \<open>float64\<close> values and the conversion to \<open>int64\<close>: rounding of any finite rational
  (\<open>f64\<close>; a value above the largest finite \<open>float64\<close> is kept, which no conversion to \<open>int64\<close> can tell
  from infinity), truncation towards zero, and the relative error of a rounding.
\<close>

section \<open>Definitions\<close>

text \<open>The number of halvings that bring a rational below \<open>2 ^ 53\<close>.\<close>

fun scale_down :: "nat \<Rightarrow> rat \<Rightarrow> nat" where
  "scale_down 0 x = 0"
| "scale_down (Suc n) x = (if x < 2 ^ 53 then 0 else Suc (scale_down n (x / 2)))"

definition f64_nonneg :: "rat \<Rightarrow> float64" where
  "f64_nonneg x =
     (if x < 2 ^ 53 then fl x
      else let k = scale_down 1024 x in of_int (round_half_even (x / 2 ^ k)) * 2 ^ k)"

definition f64 :: "rat \<Rightarrow> float64" where
  "f64 x = (if x < 0 then - f64_nonneg (- x) else f64_nonneg x)"

text \<open>\<open>int64(x)\<close>; out of range the result depends on the platform and is the parameter \<open>f2i\<close>.\<close>

definition int64_of_float :: "int64 \<Rightarrow> float64 \<Rightarrow> int64" where
  "int64_of_float f2i x =
     (let n = (if x < 0 then - \<lfloor>- x\<rfloor> else \<lfloor>x\<rfloor>) in
      if - (2 ^ 63) \<le> n \<and> n < 2 ^ 63 then word_of_int n else f2i)"

section \<open>The error of a rounding\<close>

lemma round_half_even_error: "\<bar>of_int (round_half_even x) - x\<bar> \<le> 1 / 2"
proof -
  define f where "f = \<lfloor>x\<rfloor>"
  have f: "of_int f \<le> x" "x < of_int f + 1" unfolding f_def by linarith+
  have "round_half_even x = f \<and> x - of_int f \<le> 1 / 2 \<or> round_half_even x = f + 1 \<and> 1 / 2 \<le> x - of_int f"
    by (simp add: round_half_even_def Let_def f_def not_less)
  with f show ?thesis by (elim disjE conjE) (simp_all only: abs_le_iff of_int_add of_int_1, linarith+)
qed

lemma scale_up_reaches:
  assumes "2 ^ 52 \<le> x * 2 ^ n"
  shows "2 ^ 52 \<le> x * 2 ^ scale_up n x"
  using assms
proof (induction n arbitrary: x)
  case (Suc n)
  then have "2 ^ 52 \<le> 2 * x * 2 ^ n" by (simp add: ac_simps)
  with Suc.IH[of "2 * x"] show ?case by (simp add: ac_simps)
qed simp

lemma fl_error:
  assumes "0 < x" and "2 ^ 52 \<le> x * 2 ^ 1074"
  shows "\<bar>fl x - x\<bar> \<le> x / 2 ^ 53"
proof -
  define k where "k = scale_up 1074 x"
  have big: "2 ^ 52 \<le> x * 2 ^ k" unfolding k_def by (rule scale_up_reaches[OF assms(2)])
  have "fl x = of_int (round_half_even (x * 2 ^ k)) / 2 ^ k"
    using assms(1) unfolding fl_def k_def Let_def by (simp only: if_False less_imp_neq[symmetric])
  then have "fl x - x = (of_int (round_half_even (x * 2 ^ k)) - x * 2 ^ k) / 2 ^ k"
    by (simp add: diff_divide_distrib)
  then have "\<bar>fl x - x\<bar> = \<bar>of_int (round_half_even (x * 2 ^ k)) - x * 2 ^ k\<bar> / 2 ^ k"
    by (simp add: abs_divide)
  also have "\<dots> \<le> (1 / 2) / 2 ^ k"
    by (intro divide_right_mono round_half_even_error) simp
  also have "\<dots> \<le> x / 2 ^ 53" using big by (simp add: field_simps)
  finally show ?thesis .
qed

lemma f64_error:
  assumes "1 / 2 ^ 20 \<le> x" and "x < 2 ^ 53"
  shows "\<bar>f64 x - x\<bar> \<le> x / 2 ^ 53"
proof -
  have pos: "0 < x" using assms(1) by (rule less_le_trans[rotated]) simp
  have "(2 :: rat) ^ 52 \<le> 1 / 2 ^ 20 * 2 ^ 100" by simp
  also have "\<dots> \<le> x * 2 ^ 100" using assms(1) by (intro mult_right_mono) auto
  also have "\<dots> \<le> x * 2 ^ 1074" using pos by (intro mult_left_mono power_increasing) auto
  finally have "2 ^ 52 \<le> x * 2 ^ 1074" .
  moreover have "f64 x = fl x" using pos assms(2) by (simp add: f64_def f64_nonneg_def)
  ultimately show ?thesis using fl_error[OF pos] by simp
qed

lemma int64_of_float_nonneg:
  assumes "0 \<le> x" and "x < 2 ^ 62"
  shows "sint (int64_of_float f2i x) = \<lfloor>x\<rfloor>"
proof -
  have "0 \<le> \<lfloor>x\<rfloor>" "\<lfloor>x\<rfloor> < 2 ^ 62" using assms by (auto simp: floor_less_iff)
  then show ?thesis using assms(1) by (simp add: int64_of_float_def Let_def signed_of_int signed_take_bit_int_eq_self)
qed

end
