(* ===== verification/AIO_Gateway.thy ===== *)
theory AIO_Gateway
  imports AIO_System Json Float_Ops
begin

text \<open>
  Gateway and handlers of \<open>fs2601_all_in_one.go\<close>. The gateway's components are fields of its record; the
  reconciler only points at the ledger, and \<open>idempCache\<close> is never read or written, so neither has a field.
  The closures that \<open>main\<close> registers share the gateway and its components.

  \<^item> A decoded JSON object is an association list of \<open>json\<close> values; a type assertion that fails gives the
    zero value, as in the code. \<open>fmt.Sprintf("%v", x)\<close> of a number or a composite value is the parameter
    \<open>fmt\<close>; the conversion of an out-of-range \<open>float64\<close> to \<open>int64\<close> is the parameter \<open>f2i\<close>.
\<close>

section \<open>Data\<close>

definition aio_MapReasonToISO :: "string \<Rightarrow> string" where
  "aio_MapReasonToISO reason =
     (if reason = ''APPROVED'' then ''00''
      else if reason = ''ERR_REVOKED_ACCOUNT_EDGE'' then ''41''
      else if reason = ''INSUFFICIENT_FUNDS'' then ''51''
      else if reason = ''QR_MISMATCH'' then ''57''
      else if reason = ''ERR_QR_TAMPERING'' \<or> reason = ''MULE_RING_DETECTED'' then ''59''
      else if reason = ''FLOOR_LIMIT_EXCEEDED'' then ''61''
      else if reason = ''OFFLINE_TOKEN_INVALID'' then ''63''
      else if reason = ''DUPLICATE_TRANSACTION'' then ''94''
      else if reason = ''RECON_DEFICIT_CHARGED_TO_RESERVE'' then ''96''
      else ''96'')"

record aio_PaymentResponse =
  ap_TxID :: string
  ap_Status :: string
  ap_ReasonCode :: string
  ap_ISO8583 :: string
  ap_Amount :: int64
  ap_AccountID :: string
  ap_FraudScore :: float64
  ap_Message :: string
  ap_Explanation :: string

record aio_Gateway =
  ag_ledger :: aio_Ledger
  ag_fraud :: aio_FraudEngine
  ag_wal :: aio_LocalWAL
  ag_cuckoo :: aio_CompactFilter
  ag_network :: string
  ag_tokenPriv :: "byte list"
  ag_tokenPub :: "byte list"

definition aio_NewGateway ::
  "ed25519 \<Rightarrow> byte list \<Rightarrow> aio_Ledger \<Rightarrow> aio_FraudEngine \<Rightarrow> aio_LocalWAL \<Rightarrow> aio_CompactFilter \<Rightarrow> aio_Gateway" where
  "aio_NewGateway ed seed l f w cf =
     (case NewKeyPair ed seed of (pub, priv) \<Rightarrow>
        \<lparr>ag_ledger = l, ag_fraud = f, ag_wal = w, ag_cuckoo = cf, ag_network = ''ONLINE'', ag_tokenPriv = priv, ag_tokenPub = pub\<rparr>)"

section \<open>Requests\<close>

definition aio_string_field :: "json_object \<Rightarrow> string \<Rightarrow> string" where
  "aio_string_field req k = (case map_of req k of Some (JString s) \<Rightarrow> s | _ \<Rightarrow> '''')"

definition aio_amount :: "int64 \<Rightarrow> json_object \<Rightarrow> int64" where
  "aio_amount f2i req =
     (let amount = int64_of_float f2i (case map_of req ''amount'' of Some (JNumber x) \<Rightarrow> x | _ \<Rightarrow> 0) in
      if amount = 0 then (case map_of req ''amount'' of Some (JInt a) \<Rightarrow> a | _ \<Rightarrow> amount) else amount)"

definition sprint_v :: "(json \<Rightarrow> string) \<Rightarrow> json option \<Rightarrow> string" where
  "sprint_v fmt v =
     (case v of
        None \<Rightarrow> ''<nil>''
      | Some JNull \<Rightarrow> ''<nil>''
      | Some (JString s) \<Rightarrow> s
      | Some (JBool b) \<Rightarrow> if b then ''true'' else ''false''
      | Some j \<Rightarrow> fmt j)"

definition aio_qr_of :: "(json \<Rightarrow> string) \<Rightarrow> int64 \<Rightarrow> json_object \<Rightarrow> aio_QRPayload option" where
  "aio_qr_of fmt f2i req =
     (case map_of req ''dynamic_qr'' of
        Some (JObject qrMap) \<Rightarrow>
          Some \<lparr>aq_MerchantID = sprint_v fmt (map_of qrMap ''merchant_id''),
                aq_TerminalID = sprint_v fmt (map_of qrMap ''terminal_id''),
                aq_EpochSalt = (case map_of qrMap ''epoch_salt'' of Some (JNumber s) \<Rightarrow> int64_of_float f2i s | _ \<Rightarrow> 0),
                aq_Nonce = sprint_v fmt (map_of qrMap ''nonce''),
                aq_Signature = sprint_v fmt (map_of qrMap ''signature'')\<rparr>
      | _ \<Rightarrow> None)"

text \<open>\<open>%x\<close> of an \<open>int64\<close>.\<close>

fun hex_nat :: "nat \<Rightarrow> string" where
  "hex_nat n = (if n < 16 then [hex_digit n] else hex_nat (n div 16) @ [hex_digit (n mod 16)])"

declare hex_nat.simps [simp del]

definition show_hex64 :: "int64 \<Rightarrow> string" where
  "show_hex64 x = (if sint x < 0 then ''-'' @ hex_nat (nat (- sint x)) else hex_nat (nat (sint x)))"

section \<open>Payments\<close>

record aio_env =
  ax_ed :: ed25519
  ax_marshal :: "aio_QueuedTx \<Rightarrow> byte list"
  ax_f2i :: int64
  ax_fmt :: "json \<Rightarrow> string"
  ax_id_time :: time
  ax_queue_time :: time
  ax_write :: write_outcome
  ax_screen_clk :: clock
  ax_commit_clk :: clock

definition aio_decline ::
  "string \<Rightarrow> string \<Rightarrow> string \<Rightarrow> int64 \<Rightarrow> string \<Rightarrow> float64 \<Rightarrow> string \<Rightarrow> aio_PaymentResponse" where
  "aio_decline txID reason isoCode amount accID score msg =
     \<lparr>ap_TxID = txID, ap_Status = ''DECLINED'', ap_ReasonCode = reason, ap_ISO8583 = isoCode, ap_Amount = amount,
      ap_AccountID = accID, ap_FraudScore = score, ap_Message = msg, ap_Explanation = ''''\<rparr>"

definition aio_approve :: "string \<Rightarrow> string \<Rightarrow> int64 \<Rightarrow> string \<Rightarrow> float64 \<Rightarrow> string \<Rightarrow> aio_PaymentResponse" where
  "aio_approve txID status amount accID score msg =
     \<lparr>ap_TxID = txID, ap_Status = status, ap_ReasonCode = ''APPROVED'', ap_ISO8583 = ''00'', ap_Amount = amount,
      ap_AccountID = accID, ap_FraudScore = score, ap_Message = msg, ap_Explanation = ''''\<rparr>"

text \<open>The edge path. The error of the append is ignored.\<close>

definition aio_pay_offline ::
  "aio_env \<Rightarrow> string \<Rightarrow> string \<Rightarrow> string \<Rightarrow> int64 \<Rightarrow> aio_Gateway \<Rightarrow> (aio_PaymentResponse \<times> aio_Gateway) option" where
  "aio_pay_offline ev txID accID merchID amount g =
     (case aio_Contains accID (ag_cuckoo g) of
        None \<Rightarrow> None
      | Some True \<Rightarrow>
          Some (aio_decline txID ''ERR_REVOKED_ACCOUNT_EDGE'' ''41'' amount accID 0 ''Account card revoked at edge.'', g)
      | Some False \<Rightarrow>
          if sint amount > 5000 then
            Some (aio_decline txID ''FLOOR_LIMIT_EXCEEDED'' ''61'' amount accID 0 ''Amount exceeds offline floor limit.'', g)
          else
            let tx = aio_zero_tx\<lparr>aqt_TxID := txID, aqt_AccountID := accID, aqt_MerchantID := merchID, aqt_Amount := amount,
                       aqt_ClientTimestamp := UnixNano (ax_queue_time ev), aqt_Status := ''PENDING''\<rparr>;
                w = snd (aio_Append (ax_marshal ev) (ax_write ev) tx (ag_wal g))
            in Some (aio_approve txID ''OFFLINE_AUTHORIZED'' amount accID 0 ''Offline payment authorized at edge.'', g\<lparr>ag_wal := w\<rparr>))"

definition aio_pay_online ::
  "aio_env \<Rightarrow> string \<Rightarrow> string \<Rightarrow> string \<Rightarrow> int64 \<Rightarrow> aio_QRPayload option \<Rightarrow> aio_Gateway \<Rightarrow> aio_PaymentResponse \<times> aio_Gateway" where
  "aio_pay_online ev txID accID merchID amount qr g =
     (case aio_Screen (ax_ed ev) (ax_screen_clk ev) accID merchID amount qr (ag_fraud g) of
        ((approved, reason, isoCode, score), fe) \<Rightarrow>
          let g1 = g\<lparr>ag_fraud := fe\<rparr> in
          if \<not> approved then
            (aio_decline txID reason isoCode amount accID score ''Transaction declined by inline risk screening.'', g1)
          else (case aio_DirectCommit (ax_commit_clk ev) accID merchID amount txID (ag_ledger g1) of
                  (Some err, l) \<Rightarrow>
                    (aio_decline txID ''INSUFFICIENT_FUNDS'' ''51'' amount accID 0 ''Insufficient online funds.'', g1\<lparr>ag_ledger := l\<rparr>)
                | (None, l) \<Rightarrow>
                    (aio_approve txID ''APPROVED'' amount accID score ''Transaction authorized successfully.'', g1\<lparr>ag_ledger := l\<rparr>)))"

definition aio_ProcessPayment ::
  "aio_env \<Rightarrow> json_object \<Rightarrow> aio_Gateway \<Rightarrow> (aio_PaymentResponse \<times> aio_Gateway) option" where
  "aio_ProcessPayment ev req g =
     (let txID = aio_string_field req ''tx_id'';
          txID = (if txID = '''' then ''TX-'' @ show_hex64 (UnixNano (ax_id_time ev)) else txID);
          accID = aio_string_field req ''account_id'';
          merchID = aio_string_field req ''merchant_id'';
          amount = aio_amount (ax_f2i ev) req
      in if ag_network g = ''DISCONNECTED'' then aio_pay_offline ev txID accID merchID amount g
         else Some (aio_pay_online ev txID accID merchID amount (aio_qr_of (ax_fmt ev) (ax_f2i ev) req) g))"

section \<open>The handlers of \<open>main\<close>\<close>

text \<open>
  \<open>POST /api/v1/network/toggle\<close>: the count and the sum of the replay, if there was one. \<open>None\<close> is a panic or
  a replay that blocks. On a panic \<open>net/http\<close> recovers and the program goes on with the changed status and the payments
  settled so far; that state is not modelled, so what is proved of runs of requests is about runs in which no
  request panics.
\<close>

definition aio_network_toggle :: "(nat \<Rightarrow> clock) \<Rightarrow> string \<Rightarrow> aio_Gateway \<Rightarrow> ((nat \<times> int64) option \<times> aio_Gateway) option" where
  "aio_network_toggle clk status g =
     (let g1 = g\<lparr>ag_network := status\<rparr> in
      if status = ''RECONNECTED'' then
        (case aio_Replay clk (aio_Pending (ag_wal g1)) (ag_ledger g1) of
           None \<Rightarrow> None
         | Some (n, total_reconciled, l) \<Rightarrow> Some (Some (n, total_reconciled), g1\<lparr>ag_ledger := l\<rparr>))
      else Some (None, g1))"

text \<open>\<open>POST /api/v1/auth/pay\<close>: the decoded body is empty when the JSON is malformed.\<close>

definition aio_handle_pay :: "aio_env \<Rightarrow> json_object \<Rightarrow> aio_Gateway \<Rightarrow> ((nat \<times> aio_PaymentResponse) \<times> aio_Gateway) option" where
  "aio_handle_pay ev req g =
     map_option (\<lambda>(resp, g1). ((if ap_Status resp = ''DECLINED'' then 402 else 200, resp), g1)) (aio_ProcessPayment ev req g)"

definition aio_handle_audit :: "string list \<Rightarrow> aio_Gateway \<Rightarrow> int64 \<times> nat" where
  "aio_handle_audit ks g = aio_AuditConservation ks (ag_ledger g)"

definition aio_handle_qr :: "ed25519 \<Rightarrow> time \<Rightarrow> byte list \<Rightarrow> byte list \<Rightarrow> aio_QRPayload" where
  "aio_handle_qr ed now nonce termPriv = aio_SignDynamicQR ed now nonce termPriv ''MERCHANT-POS-01'' ''TERM-001''"

definition aio_handle_health :: "time \<Rightarrow> aio_Gateway \<Rightarrow> string \<times> string \<times> time" where
  "aio_handle_health now g = (''UP'', ag_network g, now)"

text \<open>The initialization in \<open>main\<close>, up to the handlers; \<open>None\<close> when the log cannot be opened.\<close>

record aio_boot =
  ab_ed :: ed25519
  ab_clk :: clock
  ab_terminal_seed :: "byte list"
  ab_gateway_seed :: "byte list"
  ab_file :: "byte list option"

definition aio_main_setup :: "aio_boot \<Rightarrow> (aio_Gateway \<times> byte list) option" where
  "aio_main_setup b =
     (let l = aio_NewConservingLedger (ab_clk b 0);
          l = aio_CreateAccount (ab_clk b 1) ''ACC-BENCH-1'' 100000 l;
          l = aio_CreateAccount (ab_clk b 2) ''MERCHANT-POS-01'' 0 l;
          l = snd (aio_AllocateOfflineAllowance (ab_clk b 3) ''ACC-BENCH-1'' 20000 l)
      in case aio_Insert ''ACC-REVOKED-DEMO'' (aio_NewCompactFilter 16384) of
           None \<Rightarrow> None
         | Some (_, cuckoo) \<Rightarrow>
             (case NewKeyPair (ab_ed b) (ab_terminal_seed b) of
                (termPub, termPriv) \<Rightarrow>
                  let fe = aio_RegisterTerminalKey ''TERM-001'' termPub aio_NewInMemGraphFraudEngine in
                  (case aio_NewLocalWAL (ab_file b) of
                     None \<Rightarrow> None
                   | Some w \<Rightarrow> Some (aio_NewGateway (ab_ed b) (ab_gateway_seed b) l fe w cuckoo, termPriv))))"

end
