(* ===== verification/AIO_Props.thy ===== *)
theory AIO_Props
  imports AIO_Ledger
begin

text \<open>
  The single-file ledger as a \<open>transfer_system\<close>: every operation with a non-negative amount is a sequence
  of transfers between positions, and the stored totals agree with the buckets.
\<close>

section \<open>Positions and well-formedness\<close>

fun aio_bucket :: "bucket \<Rightarrow> aio_Account \<Rightarrow> int64" where
  "aio_bucket Online a = aa_OnlineAvailable a"
| "aio_bucket Offline a = aa_OfflineAllowance a"
| "aio_bucket Reserved a = aa_ReservedBalance a"

definition aio_book :: "aio_Ledger \<Rightarrow> book" where
  "aio_book l = (\<lambda>(k, c). case aio_accounts l k of None \<Rightarrow> 0 | Some a \<Rightarrow> aio_bucket c a)"

definition aio_names :: "aio_Ledger \<Rightarrow> string set" where
  "aio_names l = dom (aio_accounts l)"

text \<open>The derived fields agree with the buckets, and no allowance is negative.\<close>

definition aio_account_wf :: "aio_Account \<Rightarrow> bool" where
  "aio_account_wf a \<longleftrightarrow>
     aa_TotalBalance a = aa_OnlineAvailable a + aa_OfflineAllowance a + aa_ReservedBalance a \<and>
     aa_AvailableBalance a = aa_OnlineAvailable a \<and> 0 \<le> sint (aa_OfflineAllowance a)"

definition aio_wf :: "aio_Ledger \<Rightarrow> bool" where
  "aio_wf l \<longleftrightarrow> finite (aio_names l) \<and> aio_AccountDeficitReserve \<in> aio_names l \<and>
     (\<forall>k a. aio_accounts l k = Some a \<longrightarrow> aio_account_wf a)"

lemma aio_accounts_upd [simp]:
  "aio_accounts (aio_upd k f l) = (aio_accounts l)(k := map_option f (aio_accounts l k))"
  by (simp add: aio_upd_def)

lemma aio_accounts_log [simp]: "aio_accounts (aio_log es l) = aio_accounts l"
  by (simp add: aio_log_def)

lemma aio_names_simps [simp]:
  "aio_names (aio_upd k f l) = aio_names l" "aio_names (aio_log es l) = aio_names l"
  by (auto simp: aio_names_def split: if_splits)

lemma aio_book_log [simp]: "aio_book (aio_log es l) = aio_book l"
  by (simp add: aio_book_def)

lemma aio_wf_log [simp]: "aio_wf (aio_log es l) = aio_wf l"
  by (simp add: aio_wf_def)

lemma aio_wf_upd:
  "aio_wf l \<Longrightarrow> (\<And>a. aio_accounts l k = Some a \<Longrightarrow> aio_account_wf a \<Longrightarrow> aio_account_wf (f a)) \<Longrightarrow> aio_wf (aio_upd k f l)"
  by (auto simp: aio_wf_def split: if_splits)

lemma aio_account_wf_online [simp]:
  "aio_account_wf a \<Longrightarrow> aio_account_wf (aio_add_online now x a)"
  "aio_account_wf a \<Longrightarrow> aio_account_wf (aio_take_online now x a)"
  by (simp_all add: aio_account_wf_def aio_add_online_def aio_take_online_def)

section \<open>Steps\<close>

datatype aio_op =
    Aio_Allocate time string int64
  | Aio_Reserve clock string int64 string
  | Aio_Direct clock string string int64 string
  | Aio_CommitOffline clock string string int64 string

fun aio_exec :: "aio_op \<Rightarrow> aio_Ledger \<Rightarrow> aio_Ledger option" where
  "aio_exec (Aio_Allocate now k x) l = Some (snd (aio_AllocateOfflineAllowance now k x l))"
| "aio_exec (Aio_Reserve clk k x t) l = Some (snd (aio_ReserveFunds clk k x t l))"
| "aio_exec (Aio_Direct clk a b x t) l = Some (snd (aio_DirectCommit clk a b x t l))"
| "aio_exec (Aio_CommitOffline clk a b x t) l = map_option snd (aio_CommitOfflineAllowance clk a b x t l)"

text \<open>Amounts that touch an allowance are not negative; a direct commit may have any amount.\<close>

fun aio_sane :: "aio_op \<Rightarrow> bool" where
  "aio_sane (Aio_Allocate now k x) = (0 \<le> sint x)"
| "aio_sane (Aio_CommitOffline clk a b x t) = (0 \<le> sint x)"
| "aio_sane _ = True"

text \<open>An allocation can overflow the allowance; the room it needs is part of the guard of a step.\<close>

definition aio_room :: "aio_op \<Rightarrow> aio_Ledger \<Rightarrow> bool" where
  "aio_room op l =
     (case op of
        Aio_Allocate now k x \<Rightarrow> sint (aio_book l (k, Offline)) + sint x < 2 ^ 63
      | _ \<Rightarrow> True)"

inductive aio_step :: "aio_Ledger \<Rightarrow> aio_Ledger \<Rightarrow> bool" where
  "aio_sane op \<Longrightarrow> aio_room op l \<Longrightarrow> aio_exec op l = Some l' \<Longrightarrow> aio_step l l'"

inductive_cases aio_stepE: "aio_step l l'"

section \<open>Each operation is a sequence of transfers\<close>

lemma aio_book_apply: "aio_book l (k, c) = (case aio_accounts l k of None \<Rightarrow> 0 | Some a \<Rightarrow> aio_bucket c a)"
  by (simp add: aio_book_def)

lemma aio_allocate_book:
  "aio_book (snd (aio_AllocateOfflineAllowance now k x l)) =
     (if fst (aio_AllocateOfflineAllowance now k x l) = None then transfer (k, Online) (k, Offline) x (aio_book l) else aio_book l)"
proof -
  have "aio_book (snd (aio_AllocateOfflineAllowance now k x l)) (j, c) =
     (if fst (aio_AllocateOfflineAllowance now k x l) = None then transfer (k, Online) (k, Offline) x (aio_book l) else aio_book l) (j, c)" for j c
    by (cases c) (auto simp: aio_AllocateOfflineAllowance_def aio_book_apply transfer_apply split: option.split)
  then show ?thesis by auto
qed

lemma aio_reserve_book:
  "aio_book (snd (aio_ReserveFunds clk k x t l)) =
     (if isl (fst (aio_ReserveFunds clk k x t l)) then aio_book l else transfer (k, Online) (k, Reserved) x (aio_book l))"
proof -
  have "aio_book (snd (aio_ReserveFunds clk k x t l)) (j, c) =
     (if isl (fst (aio_ReserveFunds clk k x t l)) then aio_book l else transfer (k, Online) (k, Reserved) x (aio_book l)) (j, c)" for j c
    by (cases c) (auto simp: aio_ReserveFunds_def aio_book_apply transfer_apply Let_def split: option.split)
  then show ?thesis by auto
qed

lemma aio_direct_book:
  "aio_book (snd (aio_DirectCommit clk a b x t l)) =
     (if fst (aio_DirectCommit clk a b x t l) = None then transfer (a, Online) (b, Online) x (aio_book l) else aio_book l)"
proof -
  have "aio_book (snd (aio_DirectCommit clk a b x t l)) (j, c) =
     (if fst (aio_DirectCommit clk a b x t l) = None then transfer (a, Online) (b, Online) x (aio_book l) else aio_book l) (j, c)" for j c
    by (cases c) (auto simp: aio_DirectCommit_def aio_book_apply transfer_apply aio_add_online_def aio_take_online_def
        split: option.split)
  then show ?thesis by auto
qed

text \<open>What settling an offline payment moves: the allowance first, the rest from the reserve.\<close>

definition aio_settle_moves :: "string \<Rightarrow> string \<Rightarrow> int64 \<Rightarrow> book \<Rightarrow> move list" where
  "aio_settle_moves a b x bk =
     (if sint x \<le> sint (bk (a, Offline)) then [((a, Offline), (b, Online), x)]
      else [((a, Offline), (b, Online), bk (a, Offline)),
            ((aio_AccountDeficitReserve, Online), (b, Online), x - bk (a, Offline))])"

lemma aio_commit_book:
  assumes "aio_wf l" and "0 \<le> sint x" and "aio_CommitOfflineAllowance clk a b x t l = Some (d, l')"
  shows "aio_book l' = apply_moves (aio_settle_moves a b x (aio_book l)) (aio_book l)"
    and "a \<in> aio_names l" "b \<in> aio_names l" "aio_names l' = aio_names l"
proof -
  obtain fa ta where acc: "aio_accounts l a = Some fa" "aio_accounts l b = Some ta" "a \<noteq> b"
    using assms(3) by (auto simp: aio_CommitOfflineAllowance_def split: option.splits if_splits)
  show names: "a \<in> aio_names l" "b \<in> aio_names l" using acc by (auto simp: aio_names_def)
  obtain ra where res: "aio_accounts l aio_AccountDeficitReserve = Some ra"
    using assms(1) by (auto simp: aio_wf_def aio_names_def)
  have off: "0 \<le> sint (aa_OfflineAllowance fa)" using assms(1) acc(1) by (auto simp: aio_wf_def aio_account_wf_def)
  have bo: "aio_book l (a, Offline) = aa_OfflineAllowance fa" by (simp add: aio_book_apply acc)
  show "aio_names l' = aio_names l"
    using assms(3) acc res by (auto simp: aio_CommitOfflineAllowance_def Let_def aio_DebitDeficitReserve_def split: option.splits if_splits)
  have "aio_book l' (j, c) = apply_moves (aio_settle_moves a b x (aio_book l)) (aio_book l) (j, c)" for j c
  proof (cases "sint x \<le> sint (aa_OfflineAllowance fa)")
    case True
    then show ?thesis
      using assms(3) acc
      by (cases c) (auto simp: aio_CommitOfflineAllowance_def Let_def aio_settle_moves_def bo aio_book_apply transfer_apply
          aio_add_online_def)
  next
    case False
    then have "0 < sint (x - aa_OfflineAllowance fa)"
      using off sint_diff_no_overflow[of x "aa_OfflineAllowance fa"] sint64_bounds[of x] by simp
    with False show ?thesis
      using assms(3) acc res
      by (cases c; cases "aio_AccountDeficitReserve = b"; cases "aio_AccountDeficitReserve = a")
        (auto simp: aio_CommitOfflineAllowance_def Let_def aio_settle_moves_def bo aio_book_apply transfer_apply
          aio_add_online_def aio_take_online_def aio_DebitDeficitReserve_def)
  qed
  then show "aio_book l' = apply_moves (aio_settle_moves a b x (aio_book l)) (aio_book l)" by auto
qed

section \<open>Well-formedness is kept\<close>

lemma aio_wf_account: "aio_wf l \<Longrightarrow> aio_accounts l k = Some a \<Longrightarrow> aio_account_wf a"
  by (simp add: aio_wf_def)

lemma aio_wf_reservations [simp]: "aio_wf (l\<lparr>aio_reservations := r\<rparr>) = aio_wf l"
  by (simp add: aio_wf_def aio_names_def)

lemma aio_offline_bound:
  assumes "aio_wf l" and "aio_accounts l k = Some a"
  shows "0 \<le> sint (aa_OfflineAllowance a)"
  using aio_wf_account[OF assms] by (simp add: aio_account_wf_def)

lemma aio_wf_reserve: "aio_wf l \<Longrightarrow> aio_wf (aio_DebitDeficitReserve clk d t l)"
  by (auto simp: aio_DebitDeficitReserve_def intro!: aio_wf_upd split: option.split)

lemma aio_exec_wf:
  assumes "aio_wf l" and "aio_sane op" and "aio_room op l" and "aio_exec op l = Some l'"
  shows "aio_wf l'"
proof (cases op)
  case (Aio_Allocate now k x)
  show ?thesis
  proof (cases "aio_accounts l k")
    case None
    then show ?thesis using assms Aio_Allocate by (simp add: aio_AllocateOfflineAllowance_def)
  next
    case (Some a)
    have "sint (aa_OfflineAllowance a + x) = sint (aa_OfflineAllowance a) + sint x"
      using assms Aio_Allocate Some aio_offline_bound[OF assms(1) Some]
      by (intro sint_add_no_overflow) (simp_all add: aio_room_def aio_book_apply)
    then have "0 \<le> sint (aa_OfflineAllowance a + x)"
      using assms(2) Aio_Allocate aio_offline_bound[OF assms(1) Some] by simp
    with assms Aio_Allocate Some show ?thesis
      by (auto simp: aio_AllocateOfflineAllowance_def aio_account_wf_def intro!: aio_wf_upd)
  qed
next
  case (Aio_Reserve clk k x t)
  with assms show ?thesis
    by (cases "aio_accounts l k")
      (auto simp: aio_ReserveFunds_def Let_def aio_account_wf_def intro!: aio_wf_upd)
next
  case (Aio_Direct clk a b x t)
  with assms show ?thesis
    by (auto simp: aio_DirectCommit_def intro!: aio_wf_upd split: option.splits)
next
  case (Aio_CommitOffline clk a b x t)
  then obtain fa ta where acc: "aio_accounts l a = Some fa" "aio_accounts l b = Some ta" "a \<noteq> b"
    using assms(4) by (auto simp: aio_CommitOfflineAllowance_def split: option.splits if_splits)
  have fa: "aio_account_wf fa" by (rule aio_wf_account[OF assms(1) acc(1)])
  have keep: "0 \<le> sint (aa_OfflineAllowance fa - x)" if "sint x \<le> sint (aa_OfflineAllowance fa)"
    using that sint_guarded_debit[of x "aa_OfflineAllowance fa"] assms(2) Aio_CommitOffline by simp
  let ?f = "\<lambda>a. a\<lparr>aa_OfflineAllowance := (if sint x \<le> sint (aa_OfflineAllowance fa) then aa_OfflineAllowance a - x else 0),
    aa_TotalBalance := aa_TotalBalance a - (if sint x \<le> sint (aa_OfflineAllowance fa) then x else aa_OfflineAllowance fa),
    aa_Version := aa_Version a + 1, aa_UpdatedAt := clk 0\<rparr>"
  have "aio_wf (aio_upd a ?f l)"
    using acc fa keep by (intro aio_wf_upd[OF assms(1)]) (auto simp: aio_account_wf_def)
  then have "aio_wf (aio_upd b (aio_add_online (clk 1) x) (aio_upd a ?f l))"
    by (rule aio_wf_upd) simp
  then show ?thesis
    using assms(4) acc aio_wf_reserve by (auto simp: Aio_CommitOffline aio_CommitOfflineAllowance_def Let_def)
qed

lemma aio_exec_names: "aio_wf l \<Longrightarrow> aio_exec op l = Some l' \<Longrightarrow> aio_names l' = aio_names l"
  by (cases op)
    (auto simp: aio_AllocateOfflineAllowance_def aio_ReserveFunds_def aio_DirectCommit_def aio_CommitOfflineAllowance_def
      aio_DebitDeficitReserve_def Let_def aio_names_def split: option.splits if_splits)

lemma aio_book_outside: "k \<notin> aio_names l \<Longrightarrow> aio_book l (k, c) = 0"
  by (auto simp: aio_book_apply aio_names_def split: option.split)

lemma aio_exec_moves:
  assumes "aio_wf l" and "aio_sane op" and "aio_exec op l = Some l'"
  shows "\<exists>ms. aio_book l' = apply_moves ms (aio_book l) \<and> moves_within (aio_names l) ms"
proof (cases op)
  case (Aio_Allocate now k x)
  have "fst (aio_AllocateOfflineAllowance now k x l) = None \<Longrightarrow> k \<in> aio_names l"
    by (auto simp: aio_AllocateOfflineAllowance_def aio_names_def split: option.splits)
  then show ?thesis
    using assms(3) Aio_Allocate aio_allocate_book[of now k x l]
    by (cases "fst (aio_AllocateOfflineAllowance now k x l) = None")
      (auto intro: exI[of _ "[]"] exI[of _ "[((k, Online), (k, Offline), x)]"])
next
  case (Aio_Reserve clk k x t)
  have "\<not> isl (fst (aio_ReserveFunds clk k x t l)) \<Longrightarrow> k \<in> aio_names l"
    by (auto simp: aio_ReserveFunds_def aio_names_def split: option.splits if_splits)
  then show ?thesis
    using assms(3) Aio_Reserve aio_reserve_book[of clk k x t l]
    by (cases "isl (fst (aio_ReserveFunds clk k x t l))")
      (auto intro: exI[of _ "[]"] exI[of _ "[((k, Online), (k, Reserved), x)]"])
next
  case (Aio_Direct clk a b x t)
  have "fst (aio_DirectCommit clk a b x t l) = None \<Longrightarrow> a \<in> aio_names l \<and> b \<in> aio_names l"
    by (auto simp: aio_DirectCommit_def aio_names_def split: option.splits)
  then show ?thesis
    using assms(3) Aio_Direct aio_direct_book[of clk a b x t l]
    by (cases "fst (aio_DirectCommit clk a b x t l) = None")
      (auto intro: exI[of _ "[]"] exI[of _ "[((a, Online), (b, Online), x)]"])
next
  case (Aio_CommitOffline clk a b x t)
  then obtain d where "aio_CommitOfflineAllowance clk a b x t l = Some (d, l')" using assms(3) by auto
  moreover have "aio_AccountDeficitReserve \<in> aio_names l" using assms(1) by (simp add: aio_wf_def)
  ultimately show ?thesis
    using aio_commit_book[OF assms(1)] assms(2) Aio_CommitOffline
    by (intro exI[of _ "aio_settle_moves a b x (aio_book l)"]) (auto simp: aio_settle_moves_def)
qed

interpretation aio: transfer_system aio_wf aio_names aio_book aio_step
proof
  fix s t k c
  show "aio_wf t" if "aio_wf s" "aio_step s t" using that by (auto elim!: aio_stepE intro: aio_exec_wf)
  show "finite (aio_names s)" if "aio_wf s" using that by (simp add: aio_wf_def)
  show "aio_book s (k, c) = 0" if "aio_wf s" "k \<notin> aio_names s" using that by (simp add: aio_book_outside)
  show "aio_names s \<subseteq> aio_names t" if "aio_wf s" "aio_step s t" using that by (auto elim!: aio_stepE dest: aio_exec_names)
  show "\<exists>ms. aio_book t = apply_moves ms (aio_book s) \<and> moves_within (aio_names t) ms" if "aio_wf s" "aio_step s t"
    using that aio_exec_moves aio_exec_names by (elim aio_stepE) metis
qed

section \<open>The audit\<close>

lemma aio_audit_sum:
  assumes "aio_wf l" and "set ks \<subseteq> aio_names l"
  shows "foldl (\<lambda>s k. case aio_accounts l k of None \<Rightarrow> s | Some a \<Rightarrow> s + aa_TotalBalance a) z ks =
    z + (\<Sum>k\<leftarrow>ks. aio_book l (k, Online) + aio_book l (k, Offline) + aio_book l (k, Reserved))"
  using assms(2)
proof (induction ks arbitrary: z)
  case (Cons k ks)
  then obtain a where a: "aio_accounts l k = Some a" by (auto simp: aio_names_def)
  then have "aa_TotalBalance a = aio_book l (k, Online) + aio_book l (k, Offline) + aio_book l (k, Reserved)"
    using aio_wf_account[OF assms(1) a] by (simp add: aio_account_wf_def aio_book_apply)
  with a Cons show ?case by (simp add: algebra_simps)
qed simp

lemma aio_audit_money:
  assumes "aio_wf l" and "distinct ks" and "set ks = aio_names l"
  shows "fst (aio_AuditConservation ks l) = aio.money l"
proof -
  have "fst (aio_AuditConservation ks l) = (\<Sum>k\<leftarrow>ks. aio_book l (k, Online) + aio_book l (k, Offline) + aio_book l (k, Reserved))"
    using aio_audit_sum[OF assms(1), of ks 0] assms(3) by (simp add: aio_AuditConservation_def)
  also have "\<dots> = aio.money l"
    using assms(2,3) sum.cartesian_product[of "\<lambda>k c. aio_book l (k, c)" "{Online, Offline, Reserved}" "aio_names l"]
    by (simp add: aio.money_def book_total_def positions_def sum_list_distinct_conv_sum_set add.assoc)
  finally show ?thesis .
qed

end
