(* ===== verification/AIO_Filter.thy ===== *)
theory AIO_Filter
  imports AIO_System Compact_Filter_Props
begin

text \<open>
  The cuckoo filter of the single-file program. With a power of two as its number of buckets, the partner
  of an index is an involution, and the filter is a \<open>membership_filter\<close> like the one of
  \<open>internal/fraud\<close>, although its hashes, its indices and its displacement loop differ. With another
  number of buckets it can lose a key.
\<close>

section \<open>Well-formed filters\<close>

definition aio_cf_wf :: "aio_CompactFilter \<Rightarrow> bool" where
  "aio_cf_wf cf \<longleftrightarrow> (\<exists>k<32. aio_bucketCount cf = 2 ^ k) \<and> length (aio_buckets cf) = unat (aio_bucketCount cf) \<and>
     list_all (\<lambda>b. length b = 4) (aio_buckets cf)"

definition aio_in_range :: "aio_CompactFilter \<Rightarrow> uint32 \<Rightarrow> bool" where
  "aio_in_range cf i \<longleftrightarrow> unat i < length (aio_buckets cf)"

abbreviation aio_bucket_at :: "aio_CompactFilter \<Rightarrow> uint32 \<Rightarrow> uint16 list" where
  "aio_bucket_at cf i \<equiv> aio_buckets cf ! unat i"

abbreviation aio_partner :: "aio_CompactFilter \<Rightarrow> uint32 \<Rightarrow> uint16 \<Rightarrow> uint32" where
  "aio_partner cf \<equiv> aio_alt (aio_bucketCount cf)"

definition aio_held :: "aio_CompactFilter \<Rightarrow> uint32 \<Rightarrow> uint16 \<Rightarrow> bool" where
  "aio_held cf i fp \<longleftrightarrow> fp \<in> set (aio_bucket_at cf i) \<or> fp \<in> set (aio_bucket_at cf (aio_partner cf i fp))"

lemma aio_wf_mod:
  assumes "aio_cf_wf cf"
  obtains k where "k < 32" "length (aio_buckets cf) = 2 ^ k" "\<And>x. x mod aio_bucketCount cf = take_bit k x"
proof -
  obtain k where k: "k < 32" "aio_bucketCount cf = 2 ^ k" using assms by (auto simp: aio_cf_wf_def)
  moreover have "unat (2 ^ k :: uint32) = 2 ^ k" using k(1) by (simp add: unat_pow2)
  ultimately show ?thesis using that[of k] assms by (simp add: aio_cf_wf_def take_bit_eq_mod)
qed

lemma aio_mod_range: "aio_cf_wf cf \<Longrightarrow> aio_in_range cf (x mod aio_bucketCount cf)"
  by (erule aio_wf_mod) (simp add: aio_in_range_def unsigned_take_bit_eq)

lemma aio_partner_range [simp]: "aio_cf_wf cf \<Longrightarrow> aio_in_range cf (aio_partner cf i fp)"
  by (simp add: aio_alt_def aio_mod_range)

lemma aio_partner_partner:
  assumes "aio_cf_wf cf" and "aio_in_range cf i"
  shows "aio_partner cf (aio_partner cf i fp) fp = i"
proof -
  obtain k where k: "k < 32" "length (aio_buckets cf) = 2 ^ k" "\<And>x. x mod aio_bucketCount cf = take_bit k x"
    using aio_wf_mod[OF assms(1)] by blast
  have "aio_partner cf (aio_partner cf i fp) fp = take_bit k i"
    by (simp add: aio_alt_def k(3) take_bit_xor xor.assoc)
  also have "\<dots> = i"
    using assms(2) k(1,2) by (simp add: aio_in_range_def take_bit_eq_mod word_unat_eq_iff unat_mod unat_pow2)
  finally show ?thesis .
qed

lemma aio_index1_range:
  assumes "aio_cf_wf cf"
  shows "aio_in_range cf (aio_index1 (aio_bucketCount cf) h)"
proof -
  obtain k where k: "k < 32" "aio_bucketCount cf = 2 ^ k" "length (aio_buckets cf) = 2 ^ k"
    using assms by (auto simp: aio_cf_wf_def unat_pow2)
  have n: "ucast (aio_bucketCount cf) = (2 ^ k :: uint64)"
    using k(1,2) power_strict_increasing[of k 64 "2 :: nat"] by (simp add: word_unat_eq_iff unat_ucast_mod unat_pow2)
  have "unat (h mod 2 ^ k :: uint64) < 2 ^ k" using k(1) by (simp add: unat_mod unat_pow2)
  moreover from this have "unat (ucast (h mod 2 ^ k) :: uint32) = unat (h mod 2 ^ k)"
    using k(1) power_strict_increasing[of k 32 "2 :: nat"] by (simp add: unat_ucast_mod)
  ultimately show ?thesis by (simp add: aio_in_range_def aio_index1_def n k(3))
qed

lemma aio_fingerprint_nonzero: "aio_fingerprint h \<noteq> 0"
  by (simp add: aio_fingerprint_def Let_def)

lemma aio_put_slot_eq: "aio_put_slot = put_slot"
proof -
  have "aio_put_slot fp b = put_slot fp b" for fp b
    by (induction fp b rule: put_slot.induct) auto
  then show ?thesis by auto
qed

section \<open>What an insertion keeps\<close>

text \<open>\<open>cf'\<close> finds everything that \<open>cf\<close> finds, and \<open>fp\<close> from \<open>i\<close> and from its partner.\<close>

definition aio_carries :: "aio_CompactFilter \<Rightarrow> aio_CompactFilter \<Rightarrow> uint32 \<Rightarrow> uint16 \<Rightarrow> bool" where
  "aio_carries cf' cf i fp \<longleftrightarrow>
     aio_cf_wf cf' \<and> aio_bucketCount cf' = aio_bucketCount cf \<and>
     (\<forall>j g. aio_in_range cf j \<and> g \<noteq> 0 \<and> (aio_held cf j g \<or> g = fp \<and> (j = i \<or> j = aio_partner cf i fp)) \<longrightarrow> aio_held cf' j g)"

lemma aio_count_same [simp]:
  "aio_cf_wf (cf\<lparr>aio_count := c\<rparr>) = aio_cf_wf cf" "aio_carries (cf'\<lparr>aio_count := c\<rparr>) cf i fp = aio_carries cf' cf i fp"
  by (simp_all add: aio_cf_wf_def aio_carries_def aio_held_def)

lemma aio_carries_wf: "aio_carries cf' cf i fp \<Longrightarrow> aio_cf_wf cf'"
  by (simp add: aio_carries_def)

lemma aio_wf_update:
  assumes "aio_cf_wf cf" and "length b = length (aio_bucket_at cf i)"
  shows "aio_cf_wf (cf\<lparr>aio_buckets := (aio_buckets cf)[unat i := b]\<rparr>)"
  using assms by (cases "unat i < length (aio_buckets cf)") (auto simp: aio_cf_wf_def list_all_length nth_list_update)

lemma aio_insert_bucket:
  assumes wf: "aio_cf_wf cf" and i: "aio_in_range cf i"
  shows "aio_insertIntoBucket i fp cf = Some (False, cf) \<or>
    (\<exists>cf'. aio_insertIntoBucket i fp cf = Some (True, cf') \<and> aio_carries cf' cf i fp)"
proof (cases "put_slot fp (aio_bucket_at cf i)")
  case None
  with i show ?thesis by (simp add: aio_insertIntoBucket_def aio_put_slot_eq aio_in_range_def)
next
  case (Some b)
  let ?cf = "cf\<lparr>aio_buckets := (aio_buckets cf)[unat i := b]\<rparr>"
  note b = put_slot_Some[OF Some]
  have at: "set (aio_bucket_at ?cf j) = (if j = i then set b else set (aio_bucket_at cf j))" for j
    using i by (simp add: aio_in_range_def nth_list_update word_unat_eq_iff)
  have mono: "aio_held ?cf j g" if "aio_held cf j g" "g \<noteq> 0" for j g
    using that b(3) unfolding aio_held_def at by (auto split: if_splits)
  have "fp \<in> set (aio_bucket_at ?cf i)" using b(2) by (simp only: at if_True simp_thms)
  then have "aio_held ?cf i fp" "aio_held ?cf (aio_partner cf i fp) fp"
    using aio_partner_partner[OF wf i, of fp] by (simp_all add: aio_held_def)
  then have "aio_carries ?cf cf i fp"
    unfolding aio_carries_def using mono aio_wf_update[OF wf b(1)] by auto
  with Some i show ?thesis by (simp add: aio_insertIntoBucket_def aio_put_slot_eq aio_in_range_def)
qed

lemma aio_carries_swap:
  fixes cf i s fp
  defines "out \<equiv> aio_bucket_at cf i ! s"
    and "cf1 \<equiv> cf\<lparr>aio_buckets := (aio_buckets cf)[unat i := (aio_bucket_at cf i)[s := fp]]\<rparr>"
  assumes wf: "aio_cf_wf cf" and i: "aio_in_range cf i" and s: "s < 4"
    and rest: "aio_carries cf' cf1 (aio_partner cf i out) out"
  shows "aio_carries cf' cf i fp"
proof -
  have lb: "s < length (aio_bucket_at cf i)" using wf i s by (auto simp: aio_cf_wf_def aio_in_range_def list_all_length)
  have at: "set (aio_bucket_at cf1 j) = (if j = i then set ((aio_bucket_at cf i)[s := fp]) else set (aio_bucket_at cf j))" for j
    using i by (simp add: cf1_def aio_in_range_def nth_list_update word_unat_eq_iff)
  have n1: "aio_bucketCount cf1 = aio_bucketCount cf" "aio_in_range cf1 = aio_in_range cf"
    by (simp_all add: cf1_def aio_in_range_def fun_eq_iff)
  have new: "fp \<in> set ((aio_bucket_at cf i)[s := fp])" using lb by (rule set_update_memI)
  have old: "g \<in> set ((aio_bucket_at cf i)[s := fp]) \<or> g = out" if "g \<in> set (aio_bucket_at cf i)" for g
    using set_update_keeps[OF that lb] by (simp add: out_def)
  have "aio_held cf' j g"
    if j: "aio_in_range cf j" "g \<noteq> 0" and h: "aio_held cf j g \<or> g = fp \<and> (j = i \<or> j = aio_partner cf i fp)" for j g
  proof -
    have "aio_held cf1 j g \<or> g = out \<and> (j = aio_partner cf i out \<or> j = i)"
      using h new old[of g] aio_partner_partner[OF wf j(1), of g] aio_partner_partner[OF wf i, of fp]
      by (auto simp: aio_held_def at n1)
    then show ?thesis
      using rest j aio_partner_partner[OF wf i, of out] by (auto simp: aio_carries_def n1)
  qed
  then show ?thesis using rest by (simp add: aio_carries_def n1)
qed

lemma aio_kick_carries:
  assumes "aio_cf_wf cf" and "aio_in_range cf i"
  shows "\<exists>ok cf'. aio_kick k i fp cf = Some (ok, cf') \<and> aio_cf_wf cf' \<and> (ok \<longrightarrow> aio_carries cf' cf i fp)"
  using assms
proof (induction "500 - k" arbitrary: k i fp cf)
  case 0
  then show ?case by (auto simp: aio_kick.simps)
next
  case (Suc d)
  let ?b = "aio_bucket_at cf i"
  let ?out = "?b ! (k mod 4)"
  let ?cf1 = "cf\<lparr>aio_buckets := (aio_buckets cf)[unat i := ?b[k mod 4 := fp]]\<rparr>"
  let ?j = "aio_partner cf i ?out"
  have wf1: "aio_cf_wf ?cf1" by (rule aio_wf_update[OF Suc.prems(1)]) simp
  have j: "aio_in_range ?cf1 ?j" using aio_partner_range[OF wf1, of i ?out] by simp
  have swap: "aio_carries cf' ?cf1 ?j ?out \<Longrightarrow> aio_carries cf' cf i fp" for cf'
    using aio_carries_swap[OF Suc.prems, of "k mod 4" cf' fp] by simp
  have k: "k < 500" using Suc.hyps(2) by simp
  have eq: "aio_kick k i fp cf =
      (case aio_insertIntoBucket ?j ?out ?cf1 of
         None \<Rightarrow> None
       | Some (True, cf2) \<Rightarrow> Some (True, cf2\<lparr>aio_count := aio_count cf2 + 1\<rparr>)
       | Some (False, cf2) \<Rightarrow> aio_kick (Suc k) ?j ?out cf2)"
    using k Suc.prems(2) by (subst aio_kick.simps) (simp add: aio_in_range_def Let_def)
  from aio_insert_bucket[OF wf1 j, of ?out] show ?case
  proof (elim disjE exE conjE)
    assume "aio_insertIntoBucket ?j ?out ?cf1 = Some (False, ?cf1)"
    moreover obtain ok cf' where "aio_kick (Suc k) ?j ?out ?cf1 = Some (ok, cf')" "aio_cf_wf cf'"
        "ok \<longrightarrow> aio_carries cf' ?cf1 ?j ?out"
      using Suc.hyps(1)[of "Suc k", OF _ wf1 j] Suc.hyps(2) by fastforce
    ultimately show ?thesis using swap unfolding eq by simp
  next
    fix cf'
    assume "aio_insertIntoBucket ?j ?out ?cf1 = Some (True, cf')" "aio_carries cf' ?cf1 ?j ?out"
    with swap show ?thesis unfolding eq by (auto dest: aio_carries_wf)
  qed
qed

lemma aio_Insert_carries:
  assumes "aio_cf_wf cf"
  shows "\<exists>ok cf'. aio_Insert key cf = Some (ok, cf') \<and> aio_cf_wf cf' \<and>
    (ok \<longrightarrow> aio_carries cf' cf (aio_index1 (aio_bucketCount cf) (aio_hash64 key)) (aio_fingerprint (aio_hash64 key)))"
proof -
  let ?fp = "aio_fingerprint (aio_hash64 key)"
  let ?i = "aio_index1 (aio_bucketCount cf) (aio_hash64 key)"
  let ?j = "aio_partner cf ?i ?fp"
  have i: "aio_in_range cf ?i" by (rule aio_index1_range[OF assms])
  have other: "aio_carries cf' cf ?j ?fp \<Longrightarrow> aio_carries cf' cf ?i ?fp" for cf'
    using aio_partner_partner[OF assms i, of ?fp] by (auto simp: aio_carries_def)
  from aio_insert_bucket[OF assms i, of ?fp] show ?thesis
  proof (elim disjE exE conjE)
    assume no: "aio_insertIntoBucket ?i ?fp cf = Some (False, cf)"
    from aio_insert_bucket[OF assms aio_partner_range[OF assms], of ?i ?fp ?fp] show ?thesis
    proof (elim disjE exE conjE)
      assume "aio_insertIntoBucket ?j ?fp cf = Some (False, cf)"
      with no aio_kick_carries[OF assms i, of 0 ?fp] show ?thesis by (simp add: aio_Insert_def Let_def)
    next
      fix cf' assume "aio_insertIntoBucket ?j ?fp cf = Some (True, cf')" "aio_carries cf' cf ?j ?fp"
      with no other[of cf'] show ?thesis by (auto simp: aio_Insert_def Let_def dest: aio_carries_wf)
    qed
  next
    fix cf' assume "aio_insertIntoBucket ?i ?fp cf = Some (True, cf')" "aio_carries cf' cf ?i ?fp"
    then show ?thesis by (auto simp: aio_Insert_def Let_def dest: aio_carries_wf)
  qed
qed

section \<open>The contract of a membership filter\<close>

lemma aio_Contains_held:
  assumes "aio_cf_wf cf"
  shows "aio_Contains key cf = Some (aio_held cf (aio_index1 (aio_bucketCount cf) (aio_hash64 key)) (aio_fingerprint (aio_hash64 key)))"
proof -
  let ?i = "aio_index1 (aio_bucketCount cf) (aio_hash64 key)"
  have r: "aio_in_range cf ?i" "aio_in_range cf (aio_partner cf ?i (aio_fingerprint (aio_hash64 key)))"
    using assms by (simp_all add: aio_index1_range)
  have len: "aio_in_range cf i \<Longrightarrow> length (aio_bucket_at cf i) = 4" for i
    using assms by (auto simp: aio_cf_wf_def aio_in_range_def list_all_length)
  have "x \<in> set b \<longleftrightarrow> (\<exists>s \<in> set [0..<4]. b ! s = x)" if "length b = 4" for b and x :: uint16
    using that by (auto simp: in_set_conv_nth)
  with r len show ?thesis by (auto simp: aio_Contains_def Let_def aio_held_def aio_in_range_def)
qed

interpretation aio_cuckoo: membership_filter aio_cf_wf aio_Contains "\<lambda>_ :: unit. aio_Insert"
proof
  show "\<exists>ok f'. aio_Insert k f = Some (ok, f') \<and> aio_cf_wf f'" if "aio_cf_wf f" for f k
    using aio_Insert_carries[OF that, of k] by auto
next
  fix f k f'
  assume f: "aio_cf_wf f" "aio_Insert k f = Some (True, f')"
  then have car: "aio_carries f' f (aio_index1 (aio_bucketCount f) (aio_hash64 k)) (aio_fingerprint (aio_hash64 k))"
    using aio_Insert_carries[OF f(1), of k] by auto
  then have f': "aio_cf_wf f'" "aio_bucketCount f' = aio_bucketCount f" by (auto simp: aio_carries_def)
  show "aio_Contains k f' = Some True"
    using car f(1) by (simp add: aio_Contains_held f' aio_carries_def aio_index1_range aio_fingerprint_nonzero)
  show "aio_Contains j f' = Some True" if "aio_Contains j f = Some True" for j
    using car f(1) that by (simp add: aio_Contains_held f' aio_carries_def aio_index1_range aio_fingerprint_nonzero)
qed (simp add: aio_Contains_held)

lemma aio_new_filter_wf:
  assumes "aio_bucketCount (aio_NewCompactFilter c) = 2 ^ k" and "k < 32"
  shows "aio_cf_wf (aio_NewCompactFilter c)"
  using assms by (auto simp: aio_cf_wf_def aio_NewCompactFilter_def Let_def list_all_length)

end
