(* ===== verification/AIO_Claims.thy ===== *)
theory AIO_Claims
  imports AIO_Gateway AIO_Props AIO_Filter
begin

text \<open>
  Properties of the single-file program over its handlers: conservation of money, the outcome of an online
  payment, the revocation of accounts, and the settlements that are repeated at each reconnection.
\<close>

section \<open>Definitions for the statements\<close>

text \<open>Insert the keys in order; \<open>None\<close> as soon as an insertion does not return true.\<close>

fun aio_insert_keys :: "string list \<Rightarrow> aio_CompactFilter \<Rightarrow> aio_CompactFilter option" where
  "aio_insert_keys [] cf = Some cf"
| "aio_insert_keys (k # ks) cf = (case aio_Insert k cf of Some (True, cf1) \<Rightarrow> aio_insert_keys ks cf1 | _ \<Rightarrow> None)"

text \<open>A handled request: a payment whose amount is not negative, or a change of the network status.\<close>

inductive aio_serves :: "aio_Gateway \<Rightarrow> aio_Gateway \<Rightarrow> bool" where
  pay: "0 \<le> sint (aio_amount (ax_f2i ev) req) \<Longrightarrow> aio_handle_pay ev req g = Some (r, g') \<Longrightarrow> aio_serves g g'"
| toggle: "aio_network_toggle clk status g = Some (r, g') \<Longrightarrow> aio_serves g g'"

inductive_cases aio_servesE: "aio_serves g g'"

text \<open>What the pending payments of a merchant add up to.\<close>

definition aio_due :: "string \<Rightarrow> aio_QueuedTx list \<Rightarrow> int64" where
  "aio_due m txs = (\<Sum>t\<leftarrow>txs. if aqt_MerchantID t = m then aqt_Amount t else 0)"

text \<open>The condition under which an online payment goes through.\<close>

definition aio_payable :: "aio_env \<Rightarrow> json_object \<Rightarrow> aio_Gateway \<Rightarrow> bool" where
  "aio_payable ev req g =
     (let a = aio_string_field req ''account_id'';
          m = aio_string_field req ''merchant_id'';
          x = aio_amount (ax_f2i ev) req
      in fst (fst (aio_Screen (ax_ed ev) (ax_screen_clk ev) a m x (aio_qr_of (ax_fmt ev) (ax_f2i ev) req) (ag_fraud g))) \<and>
         a \<in> dom (aio_accounts (ag_ledger g)) \<and> m \<in> dom (aio_accounts (ag_ledger g)) \<and> a \<noteq> m \<and>
         sint x \<le> sint (aio_book (ag_ledger g) (a, Online)))"

text \<open>Concrete inputs.\<close>

definition aio_demo_env :: aio_env where
  "aio_demo_env = \<lparr>ax_ed = demo_ed25519, ax_marshal = (\<lambda>t. bytes_of (aqt_TxID t)), ax_f2i = 0, ax_fmt = (\<lambda>_. ''?''),
     ax_id_time = 0, ax_queue_time = 0, ax_write = WriteOK, ax_screen_clk = (\<lambda>_. 0), ax_commit_clk = (\<lambda>_. 0)\<rparr>"

definition aio_demo_boot :: aio_boot where
  "aio_demo_boot = \<lparr>ab_ed = demo_ed25519, ab_clk = (\<lambda>_. 0), ab_terminal_seed = [1], ab_gateway_seed = [2], ab_file = Some []\<rparr>"

definition aio_demo_request :: "string \<Rightarrow> json_object" where
  "aio_demo_request a =
     [(''tx_id'', JString ''T1''), (''account_id'', JString a), (''merchant_id'', JString ''MERCHANT-POS-01''),
      (''amount'', JNumber 2500)]"

definition aio_demo_pending :: aio_Gateway where
  "aio_demo_pending = aio_NewGateway demo_ed25519 [2]
     (aio_CreateAccount 0 ''MERCHANT-POS-01'' 0 (aio_CreateAccount 0 ''ACC-BENCH-1'' 100000 (aio_NewConservingLedger 0)))
     aio_NewInMemGraphFraudEngine
     (snd (aio_Append (\<lambda>_. []) WriteOK
       (aio_zero_tx\<lparr>aqt_TxID := ''T1'', aqt_AccountID := ''ACC-BENCH-1'', aqt_MerchantID := ''MERCHANT-POS-01'', aqt_Amount := 2500,
          aqt_Status := ''PENDING''\<rparr>) \<lparr>aio_file = [], aio_txMap = Map.empty, aio_order = [], aio_seqGen = 0\<rparr>))
     (aio_NewCompactFilter 16384)"

lemma aio_demo_request_fields [simp]:
  "aio_string_field (aio_demo_request a) ''tx_id'' = ''T1''"
  "aio_string_field (aio_demo_request a) ''account_id'' = a"
  "aio_string_field (aio_demo_request a) ''merchant_id'' = ''MERCHANT-POS-01''"
  "aio_amount f (aio_demo_request a) = 2500" "aio_qr_of fmt f (aio_demo_request a) = None"
  by (simp_all add: aio_string_field_def aio_demo_request_def aio_amount_def int64_of_float_def Let_def aio_qr_of_def)

section \<open>Money is conserved\<close>

definition aio_inv :: "aio_Gateway \<Rightarrow> bool" where
  "aio_inv g \<longleftrightarrow> aio_wf (ag_ledger g) \<and> (\<forall>k t. aio_txMap (ag_wal g) k = Some t \<longrightarrow> 0 \<le> sint (aqt_Amount t))"

lemma aio_settle_steps:
  assumes "aio_settle clk i txs n s l = Some (n', s', l')" and "\<forall>t\<in>set txs. 0 \<le> sint (aqt_Amount t)"
  shows "aio_step\<^sup>*\<^sup>* l l'"
  using assms
proof (induction txs arbitrary: i n s l)
  case (Cons t txs)
  then obtain d l1 where c: "aio_CommitOfflineAllowance (clk i) (aqt_AccountID t) (aqt_MerchantID t) (aqt_Amount t) (aqt_TxID t) l = Some (d, l1)"
    by (auto split: option.splits)
  let ?op = "Aio_CommitOffline (clk i) (aqt_AccountID t) (aqt_MerchantID t) (aqt_Amount t) (aqt_TxID t)"
  have "aio_step l l1"
    using c Cons.prems(2) by (intro aio_step.intros[of ?op]) (simp_all add: aio_room_def)
  moreover have "aio_step\<^sup>*\<^sup>* l1 l'" using Cons c by (intro Cons.IH) auto
  ultimately show ?case by (rule converse_rtranclp_into_rtranclp)
qed simp

lemma aio_pending_amounts:
  assumes "aio_inv g"
  shows "\<forall>t\<in>set (sort_key aio_tx_key (aio_Pending (ag_wal g))). 0 \<le> sint (aqt_Amount t)"
  using assms by (auto simp: aio_inv_def aio_Pending_def aio_zero_tx_def split: option.split)

lemma aio_toggle_steps:
  assumes "aio_inv g" and "aio_network_toggle clk status g = Some (r, g')"
  shows "aio_step\<^sup>*\<^sup>* (ag_ledger g) (ag_ledger g')" and "ag_wal g' = ag_wal g"
  using assms aio_settle_steps[OF _ aio_pending_amounts[OF assms(1)]]
  by (auto simp: aio_network_toggle_def aio_Replay_def Let_def split: if_splits option.splits)

lemma aio_append_amounts:
  assumes "aio_txMap (snd (aio_Append marshal out tx w)) k = Some t"
    and "\<forall>k t. aio_txMap w k = Some t \<longrightarrow> 0 \<le> sint (aqt_Amount t)" and "0 \<le> sint (aqt_Amount tx)"
  shows "0 \<le> sint (aqt_Amount t)"
  using assms by (auto simp: aio_Append_def Let_def split: write_outcome.splits if_splits)

lemma aio_offline_steps:
  assumes "aio_inv g" and "0 \<le> sint amount" and "aio_pay_offline ev txID a m amount g = Some (r, g')"
  shows "aio_inv g' \<and> ag_ledger g' = ag_ledger g"
  using assms
  by (auto simp: aio_pay_offline_def aio_inv_def Let_def elim!: aio_append_amounts split: option.splits bool.splits if_splits)

lemma aio_online_steps:
  assumes "aio_pay_online ev txID a m amount qr g = (r, g')"
  shows "aio_step\<^sup>*\<^sup>* (ag_ledger g) (ag_ledger g') \<and> ag_wal g' = ag_wal g"
proof -
  have "aio_step (ag_ledger g) (snd (aio_DirectCommit (ax_commit_clk ev) a m amount txID (ag_ledger g)))"
    by (rule aio_step.intros[of "Aio_Direct (ax_commit_clk ev) a m amount txID"]) (simp_all add: aio_room_def)
  with assms show ?thesis
    by (auto simp: aio_pay_online_def Let_def split: prod.splits option.splits if_splits)
qed

lemma aio_handle_pay_online:
  assumes "ag_network g \<noteq> ''DISCONNECTED''"
  obtains txID resp g' where
    "aio_handle_pay ev req g = Some ((if ap_Status resp = ''DECLINED'' then 402 else 200, resp), g')"
    "aio_pay_online ev txID (aio_string_field req ''account_id'') (aio_string_field req ''merchant_id'')
       (aio_amount (ax_f2i ev) req) (aio_qr_of (ax_fmt ev) (ax_f2i ev) req) g = (resp, g')"
proof -
  let ?txID = "if aio_string_field req ''tx_id'' = '''' then ''TX-'' @ show_hex64 (UnixNano (ax_id_time ev)) else aio_string_field req ''tx_id''"
  obtain resp g' where p: "aio_pay_online ev ?txID (aio_string_field req ''account_id'') (aio_string_field req ''merchant_id'')
       (aio_amount (ax_f2i ev) req) (aio_qr_of (ax_fmt ev) (ax_f2i ev) req) g = (resp, g')" by fastforce
  show ?thesis
    by (rule that[OF _ p]) (use assms p in \<open>simp add: aio_handle_pay_def aio_ProcessPayment_def Let_def\<close>)
qed

lemma aio_serves_steps:
  assumes "aio_serves g g'" and "aio_inv g"
  shows "aio_step\<^sup>*\<^sup>* (ag_ledger g) (ag_ledger g') \<and> aio_inv g'"
  using assms(1)
proof cases
  case (pay ev req r)
  then consider
      (off) txID a m resp where "aio_pay_offline ev txID a m (aio_amount (ax_f2i ev) req) g = Some (resp, g')"
    | (on) txID a m qr resp where "aio_pay_online ev txID a m (aio_amount (ax_f2i ev) req) qr g = (resp, g')"
    by (auto simp: aio_handle_pay_def aio_ProcessPayment_def Let_def split: if_splits)
  then show ?thesis
  proof cases
    case off
    with aio_offline_steps[OF assms(2) pay(1)] show ?thesis by auto
  next
    case on
    from aio_online_steps[OF this] assms(2) show ?thesis by (auto simp: aio_inv_def intro: aio.wf_steps)
  qed
next
  case (toggle clk status r)
  from aio_toggle_steps[OF assms(2) this] assms(2) show ?thesis by (auto simp: aio_inv_def intro: aio.wf_steps)
qed

lemma aio_served:
  assumes "aio_serves\<^sup>*\<^sup>* g g'" and "aio_inv g"
  shows "aio_step\<^sup>*\<^sup>* (ag_ledger g) (ag_ledger g') \<and> aio_inv g'"
  using assms
  by (induction rule: rtranclp_induct) (auto dest: aio_serves_steps)

section \<open>Start-up\<close>

text \<open>An account with the given buckets and the other fields of a fresh one.\<close>

definition aio_fresh_account :: "string \<Rightarrow> int64 \<Rightarrow> int64 \<Rightarrow> int64 \<Rightarrow> time \<Rightarrow> aio_Account" where
  "aio_fresh_account k x y v now =
     \<lparr>aa_ID = k, aa_AvailableBalance = x, aa_OnlineAvailable = x, aa_OfflineAllowance = y, aa_ReservedBalance = 0,
      aa_TotalBalance = x + y, aa_Version = v, aa_UpdatedAt = now\<rparr>"

definition aio_seed :: "aio_boot \<Rightarrow> aio_Ledger" where
  "aio_seed b = snd (aio_AllocateOfflineAllowance (ab_clk b 3) ''ACC-BENCH-1'' 20000
     (aio_CreateAccount (ab_clk b 2) ''MERCHANT-POS-01'' 0
       (aio_CreateAccount (ab_clk b 1) ''ACC-BENCH-1'' 100000 (aio_NewConservingLedger (ab_clk b 0)))))"

lemma aio_seed_accounts:
  "aio_accounts (aio_seed b) =
    [aio_AccountDeficitReserve \<mapsto> aio_fresh_account aio_AccountDeficitReserve 100000000 0 1 (ab_clk b 0),
     ''ACC-BENCH-1'' \<mapsto> aio_fresh_account ''ACC-BENCH-1'' 80000 20000 2 (ab_clk b 3),
     ''MERCHANT-POS-01'' \<mapsto> aio_fresh_account ''MERCHANT-POS-01'' 0 0 1 (ab_clk b 2)]"
proof -
  have new: "aio_accounts (aio_CreateAccount now k x l) = (aio_accounts l)(k \<mapsto> aio_fresh_account k x 0 1 now)"
    if "aio_accounts l k = None" for now k x l
    using that by (simp add: aio_CreateAccount_def aio_fresh_account_def)
  show ?thesis
    by (rule ext) (simp add: aio_seed_def aio_AllocateOfflineAllowance_def aio_NewConservingLedger_def new
        aio_AccountDeficitReserve_def, simp add: aio_fresh_account_def)
qed

lemma aio_setup_parts:
  assumes "aio_main_setup b = Some (g, priv)"
  shows "ag_ledger g = aio_seed b"
    and "aio_txMap (ag_wal g) = Map.empty" and "aio_order (ag_wal g) = []"
    and "ag_network g = ''ONLINE''" and "aio_transfers (ag_fraud g) = Map.empty"
    and "\<exists>ok. aio_Insert ''ACC-REVOKED-DEMO'' (aio_NewCompactFilter 16384) = Some (ok, ag_cuckoo g)"
  using assms
  by (auto simp: aio_main_setup_def aio_seed_def Let_def aio_NewGateway_def aio_NewLocalWAL_def aio_RegisterTerminalKey_def
      aio_NewInMemGraphFraudEngine_def split: option.splits prod.splits)

lemmas aio_setup_accounts = aio_setup_parts(1)[THEN arg_cong[where f = aio_accounts], unfolded aio_seed_accounts] aio_setup_parts(2-)

lemma aio_main_filter_wf: "aio_cf_wf (aio_NewCompactFilter 16384)"
  by (rule aio_new_filter_wf[where k = 12]) (simp_all add: aio_NewCompactFilter_def)

lemma aio_setup_returns:
  assumes "ab_file b = Some bs"
  obtains g priv where "aio_main_setup b = Some (g, priv)"
  using aio_cuckoo.insert_total[OF aio_main_filter_wf, of "''ACC-REVOKED-DEMO''"] assms
  by (cases "NewKeyPair (ab_ed b) (ab_terminal_seed b)") (auto simp: aio_main_setup_def Let_def aio_NewLocalWAL_def)

lemma aio_setup_inv:
  assumes "aio_main_setup b = Some (g, priv)"
  shows "aio_inv g" and "aio.money (ag_ledger g) = 100100000"
proof -
  note acc = aio_setup_accounts[OF assms]
  have wf: "aio_wf (ag_ledger g)"
    by (auto simp: aio_wf_def aio_names_def acc(1) aio_account_wf_def aio_fresh_account_def split: if_splits)
  then show "aio_inv g" by (simp add: aio_inv_def acc(2))
  have "fst (aio_AuditConservation [aio_AccountDeficitReserve, ''ACC-BENCH-1'', ''MERCHANT-POS-01''] (ag_ledger g)) = 100100000"
    by (simp add: aio_AuditConservation_def acc(1) aio_fresh_account_def aio_AccountDeficitReserve_def)
  moreover have "set [aio_AccountDeficitReserve, ''ACC-BENCH-1'', ''MERCHANT-POS-01''] = aio_names (ag_ledger g)"
    by (auto simp: aio_names_def acc(1) split: if_splits)
  moreover have "distinct [aio_AccountDeficitReserve, ''ACC-BENCH-1'', ''MERCHANT-POS-01'']"
    by (simp add: aio_AccountDeficitReserve_def)
  ultimately show "aio.money (ag_ledger g) = 100100000" using aio_audit_money[OF wf] by metis
qed

lemma aio_steps_names: "aio_step\<^sup>*\<^sup>* l l' \<Longrightarrow> aio_wf l \<Longrightarrow> aio_names l' = aio_names l"
proof (induction rule: rtranclp_induct)
  case (step y z)
  then show ?case using aio.wf_steps[of l y] by (auto elim!: aio_stepE dest!: aio_exec_names)
qed simp

section \<open>Settlements\<close>

lemma aio_commit_defined:
  "aio_CommitOfflineAllowance clk a b x t l = None \<longleftrightarrow> a \<notin> aio_names l \<or> b \<notin> aio_names l \<or> a = b"
  by (auto simp: aio_CommitOfflineAllowance_def aio_names_def Let_def split: option.split)

lemma aio_commit_names:
  "aio_CommitOfflineAllowance clk a b x t l = Some (d, l') \<Longrightarrow> aio_names l' = aio_names l"
  by (auto simp: aio_CommitOfflineAllowance_def Let_def aio_DebitDeficitReserve_def split: option.splits if_splits)

lemma aio_reserve_others:
  "k \<noteq> aio_AccountDeficitReserve \<Longrightarrow> aio_accounts (aio_DebitDeficitReserve clk x t l) k = aio_accounts l k"
  by (auto simp: aio_DebitDeficitReserve_def split: option.split)

lemma aio_commit_credits:
  assumes "aio_CommitOfflineAllowance clk a b x t l = Some (d, l')" and "k \<noteq> aio_AccountDeficitReserve"
  shows "aio_book l' (k, Online) = aio_book l (k, Online) + (if b = k then x else 0)"
  using assms
  by (auto simp: aio_CommitOfflineAllowance_def Let_def aio_book_apply aio_reserve_others aio_add_online_def
      split: option.splits if_splits)

lemma aio_settle_defined:
  "aio_settle clk i txs n s l \<noteq> None \<longleftrightarrow>
     (\<forall>t\<in>set txs. aqt_AccountID t \<in> aio_names l \<and> aqt_MerchantID t \<in> aio_names l \<and> aqt_AccountID t \<noteq> aqt_MerchantID t)"
proof (induction txs arbitrary: i n s l)
  case (Cons t txs)
  show ?case
  proof (cases "aio_CommitOfflineAllowance (clk i) (aqt_AccountID t) (aqt_MerchantID t) (aqt_Amount t) (aqt_TxID t) l")
    case None
    moreover from None have "\<not> (aqt_AccountID t \<in> aio_names l \<and> aqt_MerchantID t \<in> aio_names l \<and> aqt_AccountID t \<noteq> aqt_MerchantID t)"
      by (simp add: aio_commit_defined)
    ultimately show ?thesis by simp
  next
    case (Some r)
    then obtain d l1 where r: "r = (d, l1)" by (cases r)
    have "aio_names l1 = aio_names l" using Some r by (auto dest: aio_commit_names)
    moreover have "aqt_AccountID t \<in> aio_names l \<and> aqt_MerchantID t \<in> aio_names l \<and> aqt_AccountID t \<noteq> aqt_MerchantID t"
      using Some aio_commit_defined by (metis option.distinct(1))
    ultimately show ?thesis using Some r Cons.IH[of "Suc i" "n + 1" "s + aqt_Amount t" l1] by simp
  qed
qed simp

lemma aio_settle_effect:
  assumes "aio_settle clk i txs n s l = Some (n', s', l')"
  shows "aio_names l' = aio_names l" and "n' = n + length txs" and "s' = s + (\<Sum>t\<leftarrow>txs. aqt_Amount t)"
    and "k \<noteq> aio_AccountDeficitReserve \<Longrightarrow> aio_book l' (k, Online) = aio_book l (k, Online) + aio_due k txs"
proof -
  have "aio_names l' = aio_names l \<and> n' = n + length txs \<and> s' = s + (\<Sum>t\<leftarrow>txs. aqt_Amount t) \<and>
    (k \<noteq> aio_AccountDeficitReserve \<longrightarrow> aio_book l' (k, Online) = aio_book l (k, Online) + aio_due k txs)"
    using assms
  proof (induction txs arbitrary: i n s l)
    case (Cons t txs)
    then obtain d l1 where c: "aio_CommitOfflineAllowance (clk i) (aqt_AccountID t) (aqt_MerchantID t) (aqt_Amount t) (aqt_TxID t) l = Some (d, l1)"
        "aio_settle clk (Suc i) txs (n + 1) (s + aqt_Amount t) l1 = Some (n', s', l')"
      by (auto split: option.splits)
    with Cons.IH[OF c(2)] show ?case
      using aio_commit_names[OF c(1)] aio_commit_credits[OF c(1), of k] by (auto simp: aio_due_def)
  qed (simp add: aio_due_def)
  then show "aio_names l' = aio_names l" "n' = n + length txs" "s' = s + (\<Sum>t\<leftarrow>txs. aqt_Amount t)"
    "k \<noteq> aio_AccountDeficitReserve \<Longrightarrow> aio_book l' (k, Online) = aio_book l (k, Online) + aio_due k txs"
    by auto
qed

lemma aio_due_sorted [simp]: "aio_due k (sort_key f txs) = aio_due k txs"
  by (simp add: aio_due_def flip: sum_mset_sum_list)

lemma aio_replay_effect:
  assumes "aio_Replay clk txs l = Some (n, s, l')"
  shows "aio_names l' = aio_names l" and "n = length txs" and "s = (\<Sum>t\<leftarrow>txs. aqt_Amount t)"
    and "k \<noteq> aio_AccountDeficitReserve \<Longrightarrow> aio_book l' (k, Online) = aio_book l (k, Online) + aio_due k txs"
  using aio_settle_effect[OF assms[unfolded aio_Replay_def]] by (simp_all flip: sum_mset_sum_list)

lemma aio_replay_defined:
  assumes "aio_Replay clk txs l = Some r" and "aio_names l' = aio_names l"
  shows "\<exists>r'. aio_Replay clk' txs l' = Some r'"
  using assms aio_settle_defined[of clk 0 "sort_key aio_tx_key txs" 0 0 l] aio_settle_defined[of clk' 0 "sort_key aio_tx_key txs" 0 0 l']
  by (simp add: aio_Replay_def)

section \<open>Filters\<close>

lemma aio_insert_keys_finds:
  assumes "aio_insert_keys ks cf = Some cf'" and "aio_cf_wf cf" and "key \<in> set ks \<or> aio_Contains key cf = Some True"
  shows "aio_Contains key cf' = Some True"
  using assms
proof (induction ks arbitrary: cf)
  case (Cons k ks)
  then obtain cf1 where i: "aio_Insert k cf = Some (True, cf1)" "aio_insert_keys ks cf1 = Some cf'"
    by (auto split: option.splits bool.splits)
  have "key \<in> set ks \<or> aio_Contains key cf1 = Some True"
    using Cons.prems(3) aio_cuckoo.insert_finds[OF Cons.prems(2) i(1)] aio_cuckoo.insert_keeps[OF Cons.prems(2) i(1)] by auto
  with Cons.IH[OF i(2)] aio_cuckoo.insert_wf[OF Cons.prems(2) i(1)] show ?case by blast
qed simp

lemma aio_insert_first:
  assumes "aio_cf_wf (aio_NewCompactFilter c)"
  shows "\<exists>cf. aio_Insert key (aio_NewCompactFilter c) = Some (True, cf)"
proof -
  let ?cf = "aio_NewCompactFilter c"
  let ?i = "aio_index1 (aio_bucketCount ?cf) (aio_hash64 key)"
  have "unat ?i < length (aio_buckets ?cf)" using aio_index1_range[OF assms] by (simp add: aio_in_range_def)
  moreover from this have "aio_bucket_at ?cf ?i = [0, 0, 0, 0]"
    by (simp add: aio_NewCompactFilter_def Let_def numeral_eq_Suc)
  ultimately show ?thesis by (simp add: aio_Insert_def Let_def aio_insertIntoBucket_def)
qed

section \<open>Properties\<close>

text \<open>
  C35. In the single-file program, over any sequence of payments with non-negative amounts and of changes of
  the network status (each reconnection replays the log), the audited total stays the 100,100,000 cents
  that \<open>main\<close> creates, in whatever order the accounts are visited; the set of accounts is that of the start; and the
  stored total of each account stays the sum of its buckets, with an allowance that is not negative.
\<close>

theorem aio_conserves:
  assumes "aio_main_setup b = Some (g0, priv)" and "aio_serves\<^sup>*\<^sup>* g0 g"
    and "distinct ks" and "set ks = {aio_AccountDeficitReserve, ''ACC-BENCH-1'', ''MERCHANT-POS-01''}"
  shows "fst (aio_handle_audit ks g) = 100100000 \<and> dom (aio_accounts (ag_ledger g)) = set ks \<and>
    (\<forall>k a. aio_accounts (ag_ledger g) k = Some a \<longrightarrow>
       aa_TotalBalance a = aa_OnlineAvailable a + aa_OfflineAllowance a + aa_ReservedBalance a \<and> 0 \<le> sint (aa_OfflineAllowance a))"
proof -
  note inv = aio_setup_inv[OF assms(1)]
  have steps: "aio_step\<^sup>*\<^sup>* (ag_ledger g0) (ag_ledger g)" and wf: "aio_wf (ag_ledger g)" "aio_wf (ag_ledger g0)"
    using aio_served[OF assms(2) inv(1)] inv(1) by (simp_all add: aio_inv_def)
  have names: "aio_names (ag_ledger g) = set ks"
    using aio_steps_names[OF steps wf(2)] assms(4) by (auto simp: aio_names_def aio_setup_accounts(1)[OF assms(1)] split: if_splits)
  have "fst (aio_handle_audit ks g) = 100100000"
    using aio_audit_money[OF wf(1) assms(3)] aio.money_steps[OF steps wf(2)] inv(2) names by (simp add: aio_handle_audit_def)
  with names show ?thesis using aio_wf_account[OF wf(1)] by (auto simp: aio_names_def aio_account_wf_def)
qed

theorem aio_conserves_witness:
  "\<exists>g0 priv g1 g2 g3. aio_main_setup aio_demo_boot = Some (g0, priv) \<and>
     aio_handle_pay aio_demo_env (aio_demo_request ''ACC-BENCH-1'') g0 = Some g1 \<and>
     aio_network_toggle (\<lambda>_ _. 0) ''DISCONNECTED'' (snd g1) = Some g2 \<and>
     aio_network_toggle (\<lambda>_ _. 0) ''RECONNECTED'' (snd g2) = Some g3 \<and>
     fst (aio_handle_audit [aio_AccountDeficitReserve, ''ACC-BENCH-1'', ''MERCHANT-POS-01''] (snd g3)) = 100100000"
proof -
  obtain g0 priv where g0: "aio_main_setup aio_demo_boot = Some (g0, priv)"
    using aio_setup_returns[of aio_demo_boot "[]"] by (auto simp: aio_demo_boot_def)
  note start = aio_setup_accounts[OF g0]
  obtain r1 g1 where g1: "aio_handle_pay aio_demo_env (aio_demo_request ''ACC-BENCH-1'') g0 = Some (r1, g1)"
    and wal: "ag_wal g1 = ag_wal g0"
  proof (rule aio_handle_pay_online[of g0 aio_demo_env "aio_demo_request ''ACC-BENCH-1''"])
    show "ag_network g0 \<noteq> ''DISCONNECTED''" by (simp add: start(4))
  qed (use that aio_online_steps in blast)
  obtain r2 g2 where g2: "aio_network_toggle (\<lambda>_ _. 0) ''DISCONNECTED'' g1 = Some (r2, g2)"
    by (simp add: aio_network_toggle_def)
  then have "aio_Pending (ag_wal g2) = []"
    using wal start(3) by (auto simp: aio_network_toggle_def aio_Pending_def)
  then obtain r3 g3 where g3: "aio_network_toggle (\<lambda>_ _. 0) ''RECONNECTED'' g2 = Some (r3, g3)"
    by (simp add: aio_network_toggle_def aio_Replay_def)
  have "aio_serves\<^sup>*\<^sup>* g0 g3"
    using aio_serves.pay[OF _ g1] aio_serves.toggle[OF g2] aio_serves.toggle[OF g3] by simp
  from aio_conserves[OF g0 this, of "[aio_AccountDeficitReserve, ''ACC-BENCH-1'', ''MERCHANT-POS-01'']"] g0 g1 g2 g3
  show ?thesis by (simp add: aio_AccountDeficitReserve_def)
qed

text \<open>
  A payment in the single-file program while the network is not disconnected always gets a response. It is answered with
  status 200 and approved exactly when the screen passes it, both accounts exist and differ, and the
  payer's online bucket covers the amount; then exactly the amount moves between the two online buckets. Otherwise
  the answer is 402, with a declined status, and the ledger is unchanged. The log is never touched.
\<close>

theorem aio_online_payment:
  assumes "ag_network g \<noteq> ''DISCONNECTED''"
  shows "\<exists>code resp g'. aio_handle_pay ev req g = Some ((code, resp), g') \<and> ag_wal g' = ag_wal g \<and>
    (aio_payable ev req g \<longrightarrow> code = 200 \<and> ap_Status resp = ''APPROVED'' \<and> ap_ISO8583 resp = ''00'' \<and>
       aio_book (ag_ledger g') = transfer (aio_string_field req ''account_id'', Online) (aio_string_field req ''merchant_id'', Online)
         (aio_amount (ax_f2i ev) req) (aio_book (ag_ledger g))) \<and>
    (\<not> aio_payable ev req g \<longrightarrow> code = 402 \<and> ap_Status resp = ''DECLINED'' \<and> ag_ledger g' = ag_ledger g)"
proof -
  let ?a = "aio_string_field req ''account_id''" and ?m = "aio_string_field req ''merchant_id''"
    and ?x = "aio_amount (ax_f2i ev) req" and ?qr = "aio_qr_of (ax_fmt ev) (ax_f2i ev) req"
  obtain resp g' txID where p: "aio_handle_pay ev req g = Some ((if ap_Status resp = ''DECLINED'' then 402 else 200, resp), g')"
      "aio_pay_online ev txID ?a ?m ?x ?qr g = (resp, g')"
    using aio_handle_pay_online[OF assms, of ev req] by blast
  obtain ok reason isoCode score fe where scr: "aio_Screen (ax_ed ev) (ax_screen_clk ev) ?a ?m ?x ?qr (ag_fraud g) = ((ok, reason, isoCode, score), fe)"
    by (metis prod.collapse)
  obtain err l where com: "aio_DirectCommit (ax_commit_clk ev) ?a ?m ?x txID (ag_ledger g) = (err, l)" by fastforce
  have pay: "aio_payable ev req g \<longleftrightarrow> ok \<and> err = None"
    using com by (auto simp: aio_payable_def scr Let_def aio_DirectCommit_def aio_book_apply split: option.splits if_splits)
  have "err \<noteq> None \<Longrightarrow> l = ag_ledger g"
    using com by (auto simp: aio_DirectCommit_def split: option.splits if_splits)
  moreover have "err = None \<Longrightarrow> aio_book l = transfer (?a, Online) (?m, Online) ?x (aio_book (ag_ledger g))"
    using aio_direct_book[of "ax_commit_clk ev" ?a ?m ?x txID "ag_ledger g"] com by simp
  ultimately show ?thesis
    using p scr com pay by (auto simp: aio_pay_online_def Let_def aio_decline_def aio_approve_def split: if_splits option.splits)
qed

theorem aio_online_payment_witness:
  "\<exists>g priv code resp g'. aio_main_setup aio_demo_boot = Some (g, priv) \<and>
     aio_handle_pay aio_demo_env (aio_demo_request ''ACC-BENCH-1'') g = Some ((code, resp), g') \<and> code = 200 \<and>
     aio_book (ag_ledger g') (''ACC-BENCH-1'', Online) = 77500 \<and> aio_book (ag_ledger g') (''MERCHANT-POS-01'', Online) = 2500"
proof -
  obtain g priv where g: "aio_main_setup aio_demo_boot = Some (g, priv)"
    using aio_setup_returns[of aio_demo_boot "[]"] by (auto simp: aio_demo_boot_def)
  note start = aio_setup_accounts[OF g]
  have "aio_payable aio_demo_env (aio_demo_request ''ACC-BENCH-1'') g"
    by (simp add: aio_payable_def Let_def aio_Screen_def aio_qr_rejected_def aio_prune_def aio_events_def start aio_demo_env_def
        aio_book_apply aio_fresh_account_def)
  moreover have "aio_book (ag_ledger g) (''ACC-BENCH-1'', Online) = 80000" "aio_book (ag_ledger g) (''MERCHANT-POS-01'', Online) = 0"
    by (simp_all add: aio_book_apply start(1) aio_fresh_account_def)
  ultimately show ?thesis
    using aio_online_payment[of g aio_demo_env "aio_demo_request ''ACC-BENCH-1''"] g by (auto simp: start(4) transfer_apply)
qed

text \<open>
  C36. In the single-file program, when the filter has a power of two as its number of buckets (as the one of
  \<open>main\<close> has) and every insertion succeeded, every payment of a revoked account is declined while the network
  is disconnected, with ISO code 41, and changes nothing. It holds whatever was displaced on the way: the
  filter has no false negative.
\<close>

theorem aio_revoked_declined:
  assumes "aio_bucketCount (aio_NewCompactFilter c) = 2 ^ k" and "k < 32"
    and "aio_insert_keys ks (aio_NewCompactFilter c) = Some (ag_cuckoo g)"
    and "ag_network g = ''DISCONNECTED''" and "aio_string_field req ''account_id'' \<in> set ks"
  shows "\<exists>resp. aio_handle_pay ev req g = Some ((402, resp), g) \<and> ap_Status resp = ''DECLINED'' \<and>
    ap_ReasonCode resp = ''ERR_REVOKED_ACCOUNT_EDGE'' \<and> ap_ISO8583 resp = aio_MapReasonToISO (ap_ReasonCode resp)"
proof -
  have "aio_Contains (aio_string_field req ''account_id'') (ag_cuckoo g) = Some True"
    using aio_insert_keys_finds[OF assms(3) aio_new_filter_wf[OF assms(1,2)]] assms(5) by blast
  then show ?thesis
    using assms(4) by (simp add: aio_handle_pay_def aio_ProcessPayment_def Let_def aio_pay_offline_def aio_decline_def
        aio_MapReasonToISO_def)
qed

theorem aio_revoked_declined_witness:
  "\<exists>g priv g1 resp. aio_main_setup aio_demo_boot = Some (g, priv) \<and>
     aio_network_toggle (\<lambda>_ _. 0) ''DISCONNECTED'' g = Some (None, g1) \<and>
     aio_handle_pay aio_demo_env (aio_demo_request ''ACC-REVOKED-DEMO'') g1 = Some ((402, resp), g1)"
proof -
  obtain g priv where g: "aio_main_setup aio_demo_boot = Some (g, priv)"
    using aio_setup_returns[of aio_demo_boot "[]"] by (auto simp: aio_demo_boot_def)
  obtain g1 where g1: "aio_network_toggle (\<lambda>_ _. 0) ''DISCONNECTED'' g = Some (None, g1)"
      "ag_network g1 = ''DISCONNECTED''" "ag_cuckoo g1 = ag_cuckoo g"
    by (auto simp: aio_network_toggle_def)
  have "aio_insert_keys [''ACC-REVOKED-DEMO''] (aio_NewCompactFilter 16384) = Some (ag_cuckoo g1)"
    using aio_setup_accounts(6)[OF g] aio_insert_first[OF aio_main_filter_wf, of "''ACC-REVOKED-DEMO''"] g1(3) by auto
  moreover have "aio_bucketCount (aio_NewCompactFilter 16384) = 2 ^ 12" by (simp add: aio_NewCompactFilter_def)
  ultimately show ?thesis
    using aio_revoked_declined[of 16384 12 "[''ACC-REVOKED-DEMO'']" g1 "aio_demo_request ''ACC-REVOKED-DEMO''" aio_demo_env] g g1 by auto
qed

text \<open>
  With twelve slots (three buckets, not a power of two) the partner of an index is not an involution: nine
  insertions that all report success leave a filter that does not find the second key. A displaced
  fingerprint was moved to a bucket where the lookup does not search.
\<close>

lemma aio_filter_loses_key:
  "\<exists>cf. aio_insert_keys [''A18'', ''A87'', ''A39'', ''A2'', ''A42'', ''A11'', ''A38'', ''A85'', ''A90''] (aio_NewCompactFilter 12) = Some cf \<and>
     aio_Contains ''A87'' cf = Some False"
proof -
  have "(case aio_insert_keys [''A18'', ''A87'', ''A39'', ''A2'', ''A42'', ''A11'', ''A38'', ''A85'', ''A90''] (aio_NewCompactFilter 12) of
      Some cf \<Rightarrow> aio_Contains ''A87'' cf = Some False | None \<Rightarrow> False)"
    by code_simp
  then show ?thesis by (auto split: option.splits)
qed

text \<open>
  C37. In the single-file program a reconnection never marks what it settled: whenever one returns, the next one returns
  too, with the same count and total, and credits every merchant with all pending payments again, as the first one did.
\<close>

theorem aio_settles_again:
  assumes "aio_network_toggle clk ''RECONNECTED'' g = Some (r, g1)" and "m \<noteq> aio_AccountDeficitReserve"
  shows "\<exists>g2. aio_network_toggle clk' ''RECONNECTED'' g1 = Some (r, g2) \<and>
    aio_book (ag_ledger g1) (m, Online) = aio_book (ag_ledger g) (m, Online) + aio_due m (aio_Pending (ag_wal g)) \<and>
    aio_book (ag_ledger g2) (m, Online) = aio_book (ag_ledger g1) (m, Online) + aio_due m (aio_Pending (ag_wal g))"
proof -
  let ?txs = "aio_Pending (ag_wal g)"
  obtain n s l1 where r1: "aio_Replay clk ?txs (ag_ledger g) = Some (n, s, l1)" "r = Some (n, s)"
      "g1 = g\<lparr>ag_network := ''RECONNECTED'', ag_ledger := l1\<rparr>"
    using assms(1) by (auto simp: aio_network_toggle_def Let_def split: option.splits)
  then obtain n' s' l2 where r2: "aio_Replay clk' ?txs (ag_ledger g1) = Some (n', s', l2)"
    using aio_replay_defined[OF r1(1), of l1 clk'] aio_replay_effect(1)[OF r1(1)] by auto
  note e1 = aio_replay_effect[OF r1(1)] and e2 = aio_replay_effect[OF r2]
  have "aio_network_toggle clk' ''RECONNECTED'' g1 = Some (r, g1\<lparr>ag_ledger := l2\<rparr>)"
    using r1 r2 e1(2,3) e2(2,3) by (simp add: aio_network_toggle_def Let_def)
  then show ?thesis using e1(4)[OF assms(2)] e2(4)[OF assms(2)] r1(3) by simp
qed

theorem aio_settles_again_witness:
  "\<exists>g1 g2. aio_network_toggle (\<lambda>_ _. 0) ''RECONNECTED'' aio_demo_pending = Some (Some (1, 2500), g1) \<and>
     aio_network_toggle (\<lambda>_ _. 0) ''RECONNECTED'' g1 = Some (Some (1, 2500), g2) \<and>
     aio_book (ag_ledger g2) (''MERCHANT-POS-01'', Online) = 5000"
proof -
  have pend: "aio_Pending (ag_wal aio_demo_pending) =
      [aio_zero_tx\<lparr>aqt_TxID := ''T1'', aqt_AccountID := ''ACC-BENCH-1'', aqt_MerchantID := ''MERCHANT-POS-01'', aqt_Amount := 2500,
         aqt_SeqNo := 1, aqt_Status := ''PENDING''\<rparr>]"
    by (simp add: aio_demo_pending_def aio_NewGateway_def demo_ed25519_def aio_Append_def Let_def aio_Pending_def)
  have acc: "aio_names (ag_ledger aio_demo_pending) = {aio_AccountDeficitReserve, ''ACC-BENCH-1'', ''MERCHANT-POS-01''}"
    and zero: "aio_book (ag_ledger aio_demo_pending) (''MERCHANT-POS-01'', Online) = 0"
    by (auto simp: aio_demo_pending_def aio_NewGateway_def demo_ed25519_def aio_CreateAccount_def aio_NewConservingLedger_def
        aio_AccountDeficitReserve_def aio_names_def aio_book_apply split: if_splits)
  have "aio_Replay (\<lambda>_ _. 0) (aio_Pending (ag_wal aio_demo_pending)) (ag_ledger aio_demo_pending) \<noteq> None"
    unfolding aio_Replay_def aio_settle_defined acc by (simp add: pend)
  then obtain n s l where rep: "aio_Replay (\<lambda>_ _. 0) (aio_Pending (ag_wal aio_demo_pending)) (ag_ledger aio_demo_pending) = Some (n, s, l)"
    by auto
  moreover have "n = 1" "s = 2500" using aio_replay_effect(2,3)[OF rep] by (simp_all add: pend)
  ultimately obtain g1 where g1: "aio_network_toggle (\<lambda>_ _. 0) ''RECONNECTED'' aio_demo_pending = Some (Some (1, 2500), g1)"
    by (simp add: aio_network_toggle_def Let_def)
  have "aio_due ''MERCHANT-POS-01'' (aio_Pending (ag_wal aio_demo_pending)) = 2500" by (simp add: pend aio_due_def)
  with aio_settles_again[OF g1, of "''MERCHANT-POS-01''" "\<lambda>_ _. 0"] g1 zero show ?thesis
    by (auto simp: aio_AccountDeficitReserve_def)
qed

end
