(* ===== verification/AIO_Selftest.thy ===== *)
theory AIO_Selftest
  imports AIO_Props AIO_Filter AIO_Gateway QR
begin

text \<open>
  The self tests of \<open>fs2601_all_in_one.go\<close> (\<open>executeSelfTests\<close>): their lines of output and the message of \<open>log.Fatalf\<close>, if any;
  and \<open>main\<close>, which runs them, the benchmarks or the server.

  \<^item> The 500 goroutines call \<open>DirectCommit\<close> on the same two accounts and hold both locks from the test of the balance to the
    journal entry, so a run is the calls one after the other, in the order \<open>si_order\<close> in which the goroutines get the locks.
  \<^item> \<open>None\<close> is a panic.
\<close>

section \<open>The tests\<close>

record self_inputs =
  si_clk :: "nat \<Rightarrow> clock"
  si_order :: "nat list"
  si_ed :: ed25519
  si_seed :: "byte list"
  si_nonce :: "byte list"
  si_sign_time :: time
  si_verify_time :: time

definition self_ledger :: "clock \<Rightarrow> aio_Ledger" where
  "self_ledger clk =
     snd (aio_AllocateOfflineAllowance (clk 2) ''ACC-TEST-1'' 25000
       (aio_CreateAccount (clk 1) ''ACC-TEST-1'' 100000 (aio_NewConservingLedger (clk 0))))"

text \<open>The counter \<open>approved\<close> and the ledger.\<close>

fun self_commits :: "(nat \<Rightarrow> clock) \<Rightarrow> nat list \<Rightarrow> int64 \<times> aio_Ledger \<Rightarrow> int64 \<times> aio_Ledger" where
  "self_commits clk [] s = s"
| "self_commits clk (idx # rest) (approved, l) =
     self_commits clk rest
       (case aio_DirectCommit (clk idx) ''ACC-TEST-1'' aio_AccountDeficitReserve 1000 (''TX-'' @ show_nat idx) l of
          (None, l') \<Rightarrow> (approved + 1, l')
        | (Some _, l') \<Rightarrow> (approved, l'))"

type_synonym self_run = "(string list \<times> string option) option"

text \<open>What follows a test that passed: its lines come before those of the rest.\<close>

definition self_then :: "string list \<Rightarrow> self_run \<Rightarrow> self_run" where
  "self_then out run = map_option (\<lambda>(out', failed). (out @ out', failed)) run"

definition self_deficit :: "self_inputs \<Rightarrow> aio_Ledger \<Rightarrow> self_run" where
  "self_deficit si l =
     (case aio_CommitOfflineAllowance (si_clk si 501) ''ACC-TEST-1'' ''MERCH-1'' 30000 ''TX-DEFICIT-1''
             (aio_CreateAccount (si_clk si 500 0) ''MERCH-1'' 0 l) of
        None \<Rightarrow> None
      | Some (shortfall, l') \<Rightarrow>
          (case aio_accounts l' ''ACC-TEST-1'' of
             None \<Rightarrow> None
           | Some acc \<Rightarrow>
               let line = ''[Test 4] Deficit Shortfall Absorbed: Shortfall='' @ show_int64 shortfall @
                            '', FinalCustomerBalance='' @ show_int64 (aa_TotalBalance acc) in
               if sint (aa_TotalBalance acc) < 0 then Some ([line], Some ''FAIL: Customer balance went negative!'')
               else Some ([line, ''[PASS] Automated Deficit Reserve Pool: Non-negative customer balance guaranteed.'',
                           '''', ''All FS-2601 Invariants 100% VERIFIED!''], None)))"

definition self_qr :: "self_inputs \<Rightarrow> aio_Ledger \<Rightarrow> self_run" where
  "self_qr si l =
     (case NewKeyPair (si_ed si) (si_seed si) of
        (pub, priv) \<Rightarrow>
          let qr = aio_SignDynamicQR (si_ed si) (si_sign_time si) (si_nonce si) priv ''MERCH-1'' ''TERM-1'';
              valid = fst (aio_VerifyDynamicQR (si_ed si) (si_verify_time si) pub (Some qr) ''MERCH-1'')
          in if \<not> valid then Some ([], Some ''FAIL: Dynamic QR handshake verification failed!'')
             else self_then [''[PASS] Dynamic QR Handshake: Ed25519 verified with 30s epoch salt.''] (self_deficit si l))"

definition self_filter :: "self_inputs \<Rightarrow> aio_Ledger \<Rightarrow> self_run" where
  "self_filter si l =
     (case aio_Insert ''ACC-STOLEN-999'' (aio_NewCompactFilter 16384) of
        None \<Rightarrow> None
      | Some (_, cf) \<Rightarrow>
          (case (aio_Contains ''ACC-STOLEN-999'' cf, aio_Contains ''ACC-SAFE-111'' cf) of
             (Some stolen, Some safe) \<Rightarrow>
               if \<not> stolen \<or> safe then Some ([], Some ''FAIL: Cuckoo filter lookup mismatch!'')
               else self_then [''[PASS] Compact Cuckoo Filter: Instant local revocation verified.''] (self_qr si l)
           | _ \<Rightarrow> None))"

definition executeSelfTests :: "self_inputs \<Rightarrow> self_run" where
  "executeSelfTests si =
     (case self_commits (si_clk si) (si_order si) (0, self_ledger (si_clk si 502)) of
        (approved, l) \<Rightarrow>
          (case aio_accounts l ''ACC-TEST-1'' of
             None \<Rightarrow> None
           | Some acc \<Rightarrow>
               let out = [''=== FS-2601 Self-Contained Verification Suite ==='',
                     ''[Test 1] 500 Concurrent Online Depletions: Approved='' @ show_int64 approved @
                       '', OnlineAvailable='' @ show_int64 (aa_OnlineAvailable acc) @
                       '', OfflineAllowance='' @ show_int64 (aa_OfflineAllowance acc)] in
               if aa_OnlineAvailable acc \<noteq> 0 \<or> aa_OfflineAllowance acc \<noteq> 25000 then
                 Some (out, Some ''FAIL: Dual-bucket invariant violated!'')
               else self_then (out @ [''[PASS] Dual-Bucket Invariant Guaranteed: ZERO double-spends across 500 goroutines.''])
                      (self_filter si l)))"

section \<open>The start of the program\<close>

text \<open>The flags and what \<open>main\<close> does with them; \<open>NotStarted\<close> is a failure to open the log. The benchmarks only print timings.\<close>

record aio_flags =
  runTest :: bool
  runBench :: bool
  flag_port :: string

definition aio_default_flags :: aio_flags where
  "aio_default_flags = \<lparr>runTest = False, runBench = False, flag_port = ''8080''\<rparr>"

datatype aio_outcome = Tested self_run | Benchmarked | NotStarted | Listening string aio_Gateway "byte list"

definition aio_main :: "aio_flags \<Rightarrow> self_inputs \<Rightarrow> aio_boot \<Rightarrow> aio_outcome" where
  "aio_main flags si b =
     (if runTest flags then Tested (executeSelfTests si)
      else if runBench flags then Benchmarked
      else case aio_main_setup b of
             None \<Rightarrow> NotStarted
           | Some (gw, termPriv) \<Rightarrow> Listening ('':'' @ flag_port flags) gw termPriv)"

section \<open>The commits\<close>

text \<open>The accounts after \<open>k\<close> approvals.\<close>

definition self_state :: "nat \<Rightarrow> aio_Ledger \<Rightarrow> bool" where
  "self_state k l \<longleftrightarrow>
     (\<exists>a. aio_accounts l ''ACC-TEST-1'' = Some a \<and> aa_OnlineAvailable a = word_of_int (75000 - 1000 * int k) \<and>
        aa_OfflineAllowance a = 25000 \<and> aa_TotalBalance a = word_of_int (100000 - 1000 * int k)) \<and>
     aio_accounts l aio_AccountDeficitReserve \<noteq> None \<and> aio_accounts l ''MERCH-1'' = None"

lemma self_state_ledger: "self_state 0 (self_ledger clk)"
  by (simp add: self_state_def self_ledger_def aio_AllocateOfflineAllowance_def aio_CreateAccount_def aio_NewConservingLedger_def
      aio_upd_def aio_AccountDeficitReserve_def)

lemma self_commit:
  assumes "self_state k l" and "k \<le> 75"
  shows "\<exists>l'. aio_DirectCommit clk ''ACC-TEST-1'' aio_AccountDeficitReserve 1000 t l = (if k < 75 then None else Some ''insufficient online funds'', l') \<and>
    self_state (min 75 (Suc k)) l'"
proof -
  obtain a r where a: "aio_accounts l ''ACC-TEST-1'' = Some a" "aa_OnlineAvailable a = word_of_int (75000 - 1000 * int k)"
      "aio_accounts l aio_AccountDeficitReserve = Some r"
    using assms(1) by (auto simp: self_state_def)
  have bal: "sint (aa_OnlineAvailable a) = 75000 - 1000 * int k" unfolding a(2) using assms(2) by (intro sint_of_int64) simp_all
  have ne: "aio_AccountDeficitReserve \<noteq> ''ACC-TEST-1''" "aio_AccountDeficitReserve \<noteq> ''MERCH-1''" by (simp_all add: aio_AccountDeficitReserve_def)
  show ?thesis
  proof (cases "k < 75")
    case True
    then have "min 75 (Suc k) = Suc k" by simp
    with True assms(1) a bal ne show ?thesis
      by (auto simp: aio_DirectCommit_def self_state_def aio_take_online_def algebra_simps)
  next
    case False
    with assms a bal ne show ?thesis by (simp add: aio_DirectCommit_def)
  qed
qed

lemma self_commits_state:
  assumes "self_state k l" and "k \<le> 75"
  shows "\<exists>l'. self_commits clk idxs (of_nat k, l) = (of_nat (min 75 (k + length idxs)), l') \<and> self_state (min 75 (k + length idxs)) l'"
  using assms
proof (induction idxs arbitrary: k l)
  case (Cons idx rest)
  obtain l1 where l1: "aio_DirectCommit (clk idx) ''ACC-TEST-1'' aio_AccountDeficitReserve 1000 (''TX-'' @ show_nat idx) l =
      (if k < 75 then None else Some ''insufficient online funds'', l1)" "self_state (min 75 (Suc k)) l1"
    using self_commit[OF Cons.prems] by blast
  have "(if k < 75 then of_nat k + 1 else of_nat k) = (of_nat (min 75 (Suc k)) :: int64)"
    using Cons.prems(2) by (cases "k < 75") (simp_all add: min_absorb2)
  with l1(1) have "self_commits clk (idx # rest) (of_nat k, l) = self_commits clk rest (of_nat (min 75 (Suc k)), l1)"
    by (cases "k < 75") (simp_all add: add.commute)
  moreover have "min 75 (min 75 (Suc k) + length rest) = min 75 (k + length (idx # rest))" by simp
  ultimately show ?case using Cons.IH[OF l1(2)] by (simp only: min.cobounded1 simp_thms)
qed (simp add: min_absorb2)

section \<open>The other tests\<close>

lemma self_fingerprints: "aio_fingerprint (aio_hash64 ''ACC-SAFE-111'') \<noteq> aio_fingerprint (aio_hash64 ''ACC-STOLEN-999'')"
  by (simp add: aio_fingerprint_def aio_hash64_def bytes_of_def Let_def)

lemma self_filter_found:
  "\<exists>cf. aio_Insert ''ACC-STOLEN-999'' (aio_NewCompactFilter 16384) = Some (True, cf) \<and>
     aio_Contains ''ACC-STOLEN-999'' cf = Some True \<and> aio_Contains ''ACC-SAFE-111'' cf = Some False"
proof -
  let ?cf = "aio_NewCompactFilter 16384"
  let ?fp = "aio_fingerprint (aio_hash64 ''ACC-STOLEN-999'')" and ?i = "aio_index1 (aio_bucketCount ?cf) (aio_hash64 ''ACC-STOLEN-999'')"
  have four: "replicate 4 (0 :: uint16) = [0, 0, 0, 0]" by (simp add: numeral_eq_Suc)
  have n: "aio_bucketCount ?cf = 2 ^ 12" "aio_buckets ?cf = replicate 4096 [0, 0, 0, 0]"
    by (simp_all add: aio_NewCompactFilter_def Let_def four)
  have wf: "aio_cf_wf ?cf" by (rule aio_new_filter_wf[OF n(1)]) simp
  have i: "unat ?i < 4096" using aio_index1_range[OF wf] by (simp add: aio_in_range_def n(2))
  define cf where "cf = ?cf\<lparr>aio_buckets := (replicate 4096 [0, 0, 0, 0])[unat ?i := [?fp, 0, 0, 0]], aio_count := aio_count ?cf + 1\<rparr>"
  have ins: "aio_Insert ''ACC-STOLEN-999'' ?cf = Some (True, cf)"
    using i by (simp add: aio_Insert_def Let_def aio_insertIntoBucket_def n(2) cf_def)
  have cf: "aio_cf_wf cf" "aio_Contains ''ACC-STOLEN-999'' cf = Some True"
    using aio_cuckoo.insert_wf[OF wf ins] aio_cuckoo.insert_finds[OF wf ins] by simp_all
  have "set (aio_bucket_at cf j) \<subseteq> {0, ?fp}" if "aio_in_range cf j" for j
    using that i by (auto simp: cf_def aio_in_range_def nth_list_update split: if_splits)
  then have "\<not> aio_held cf j (aio_fingerprint (aio_hash64 ''ACC-SAFE-111''))" if "aio_in_range cf j" for j
    using that self_fingerprints aio_fingerprint_nonzero aio_partner_range[OF cf(1)] unfolding aio_held_def by blast
  then have "aio_Contains ''ACC-SAFE-111'' cf = Some False" using cf(1) by (simp add: aio_Contains_held aio_index1_range)
  with ins cf(2) show ?thesis by blast
qed

lemma aio_signed_qr_verifies:
  assumes "ed25519_correct ed" and "key_pair ed pub priv" and "0 \<le> sint (Unix t)" and "sint (Unix t) < 2 ^ 60"
    and "sint (Unix t) - 60 \<le> sint (Unix t')" and "sint (Unix t') \<le> sint (Unix t) + 31"
  shows "fst (aio_VerifyDynamicQR ed t' pub (Some (aio_SignDynamicQR ed t nonce priv m term)) m)"
proof -
  note salt = CurrentEpochSalt_bounds[OF assms(3)]
  have eq: "word_of_int (sint (Unix t) sdiv 30) * 30 = CurrentEpochSalt t"
    by (simp add: CurrentEpochSalt_def EpochIntervalSeconds_def quo64_def)
  have "\<bar>sint (Unix t')\<bar> < 2 ^ 61" "\<bar>sint (CurrentEpochSalt t)\<bar> < 2 ^ 61" using assms(3-6) salt by simp_all
  note d = sint_diff_abs[OF this]
  show ?thesis
    using d(1) salt assms(5,6) ed25519_sig_bytes[OF assms(1)] ed25519_verifies[OF assms(1,2)]
    by (simp add: aio_VerifyDynamicQR_def aio_SignDynamicQR_def Let_def eq)
qed

lemma self_digits: "digit_char 0 = CHR ''0''" "digit_char 2 = CHR ''2''" "digit_char 5 = CHR ''5''" "digit_char 7 = CHR ''7''"
  by code_simp+

lemma self_numbers:
  "show_int64 0 = ''0''" "show_int64 75 = ''75''" "show_int64 5000 = ''5000''" "show_int64 25000 = ''25000''"
  by (simp_all add: show_int64_def show_int_def show_nat.simps self_digits)

lemma self_deficit_passes:
  assumes "self_state 75 l"
  shows "self_deficit si l = Some ([''[Test 4] Deficit Shortfall Absorbed: Shortfall=5000, FinalCustomerBalance=0'',
    ''[PASS] Automated Deficit Reserve Pool: Non-negative customer balance guaranteed.'', '''', ''All FS-2601 Invariants 100% VERIFIED!''], None)"
proof -
  have ne: "aio_AccountDeficitReserve \<noteq> ''ACC-TEST-1''" "aio_AccountDeficitReserve \<noteq> ''MERCH-1''" by (simp_all add: aio_AccountDeficitReserve_def)
  show ?thesis
    using assms ne
    by (auto simp: self_deficit_def self_state_def aio_CreateAccount_def aio_CommitOfflineAllowance_def Let_def aio_DebitDeficitReserve_def self_numbers)
qed

section \<open>Properties\<close>

text \<open>
  C38. The self tests of the single-file program pass, whatever the order in which the 500 goroutines commit: 75 of the
  500 payments of 10 dollars from 750 are approved, the online bucket ends at 0 and the allowance is untouched; the filter
  finds the stolen card and not the safe one; the QR code that was just signed verifies; and the offline payment of 300 dollars
  takes the 250 of the allowance and 50 of the reserve, which leaves the customer 0. These are the lines printed, and no failure.
\<close>

theorem selftest_passes:
  assumes "mset (si_order si) = mset [0..<500]" and "ed25519_correct (si_ed si)"
    and "0 \<le> sint (Unix (si_sign_time si))" and "sint (Unix (si_sign_time si)) < 2 ^ 60"
    and "sint (Unix (si_sign_time si)) \<le> sint (Unix (si_verify_time si))" and "sint (Unix (si_verify_time si)) \<le> sint (Unix (si_sign_time si)) + 31"
  shows "executeSelfTests si = Some
     ([''=== FS-2601 Self-Contained Verification Suite ==='',
       ''[Test 1] 500 Concurrent Online Depletions: Approved=75, OnlineAvailable=0, OfflineAllowance=25000'',
       ''[PASS] Dual-Bucket Invariant Guaranteed: ZERO double-spends across 500 goroutines.'',
       ''[PASS] Compact Cuckoo Filter: Instant local revocation verified.'',
       ''[PASS] Dynamic QR Handshake: Ed25519 verified with 30s epoch salt.'',
       ''[Test 4] Deficit Shortfall Absorbed: Shortfall=5000, FinalCustomerBalance=0'',
       ''[PASS] Automated Deficit Reserve Pool: Non-negative customer balance guaranteed.'', '''',
       ''All FS-2601 Invariants 100% VERIFIED!''], None)"
proof -
  have "length (si_order si) = 500" using mset_eq_length[OF assms(1)] by simp
  then obtain l where l: "self_commits (si_clk si) (si_order si) (0, self_ledger (si_clk si 502)) = (75, l)" "self_state 75 l"
    using self_commits_state[OF self_state_ledger, of "si_clk si" "si_order si" "si_clk si 502"] by auto
  obtain pub priv where key: "NewKeyPair (si_ed si) (si_seed si) = (pub, priv)" by fastforce
  then have "key_pair (si_ed si) pub priv" by (auto simp: key_pair_def)
  note qr = aio_signed_qr_verifies[OF assms(2) this assms(3,4) _ assms(6)]
  have "self_qr si l = self_then [''[PASS] Dynamic QR Handshake: Ed25519 verified with 30s epoch salt.''] (self_deficit si l)"
    using qr assms(5) by (simp add: self_qr_def key Let_def)
  then have "self_filter si l = self_then [''[PASS] Compact Cuckoo Filter: Instant local revocation verified.'',
      ''[PASS] Dynamic QR Handshake: Ed25519 verified with 30s epoch salt.''] (self_deficit si l)"
    using self_filter_found by (auto simp: self_filter_def self_then_def self_deficit_passes[OF l(2)])
  moreover obtain a where "aio_accounts l ''ACC-TEST-1'' = Some a" "aa_OnlineAvailable a = 0" "aa_OfflineAllowance a = 25000"
    using l(2) by (auto simp: self_state_def)
  ultimately show ?thesis
    by (simp add: executeSelfTests_def l(1) Let_def self_then_def self_deficit_passes[OF l(2)] self_numbers)
qed

theorem selftest_passes_witness:
  "map_option snd (executeSelfTests \<lparr>si_clk = \<lambda>_ _. 0, si_order = rev [0..<500], si_ed = demo_ed25519, si_seed = [], si_nonce = [],
     si_sign_time = 1000 * Second, si_verify_time = 1001 * Second\<rparr>) = Some None"
proof -
  have "Unix (1000 * Second) = 1000" "Unix (1001 * Second) = 1001" by (simp_all add: Unix_def Second_def)
  then show ?thesis
    by (subst selftest_passes) (simp_all add: del: upt_rec_numeral)
qed

end
