(* ===== verification/Http_Mux.thy ===== *)
theory Http_Mux
  imports Server_Props AIO_Gateway
begin

text \<open>
  The entry points of the two servers: the routing tables that \<open>main\<close> registers in \<open>cmd/server/main.go\<close> and in
  \<open>fs2601_all_in_one.go\<close>, the matching rules of \<open>http.ServeMux\<close> for the patterns they use, and the start of the server.

  \<^item> A pattern is a method and a path. A path that ends in \<open>/\<close> matches everything below it, one that ends in \<open>/{$}\<close> only itself
    without the \<open>{$}\<close>; \<open>GET\<close> also matches \<open>HEAD\<close>.
  \<^item> A path that is not clean (an empty, \<open>.\<close> or \<open>..\<close> segment) is redirected, as is one that lacks the final slash of a
    subtree. Paths are taken to have no percent-encoding.
\<close>

section \<open>Matching\<close>

type_synonym 'h route = "string \<times> string \<times> 'h"

fun split_slash :: "string \<Rightarrow> string \<Rightarrow> string list" where
  "split_slash w [] = [w]"
| "split_slash w (c # cs) = (if c = CHR ''/'' then w # split_slash '''' cs else split_slash (w @ [c]) cs)"

definition clean_path :: "string \<Rightarrow> bool" where
  "clean_path p =
     (case p of
        [] \<Rightarrow> False
      | c # cs \<Rightarrow>
          let ws = split_slash '''' cs in
          c = CHR ''/'' \<and> list_all (\<lambda>w. w \<noteq> '''') (butlast ws) \<and> list_all (\<lambda>w. w \<noteq> ''.'' \<and> w \<noteq> ''..'') ws)"

definition has_prefix :: "string \<Rightarrow> string \<Rightarrow> bool" where
  "has_prefix p s = (take (length p) s = p)"

definition is_subtree :: "string \<Rightarrow> bool" where
  "is_subtree pat = (pat \<noteq> '''' \<and> last pat = CHR ''/'')"

definition exact_path :: "string \<Rightarrow> string" where
  "exact_path pat = (if pat = ''/{$}'' then ''/'' else pat)"

definition path_matches :: "string \<Rightarrow> string \<Rightarrow> bool" where
  "path_matches pat p =
     (if is_subtree pat then has_prefix pat p else p = exact_path pat)"

definition method_matches :: "string \<Rightarrow> string \<Rightarrow> bool" where
  "method_matches m meth = (meth = m \<or> (m = ''GET'' \<and> meth = ''HEAD''))"

datatype 'h mux_answer = Handler 'h | MovedPermanently | MethodNotAllowed | NotFound

definition mux :: "'h route list \<Rightarrow> string \<Rightarrow> string \<Rightarrow> 'h mux_answer" where
  "mux routes meth p =
     (if \<not> clean_path p then MovedPermanently
      else case find (\<lambda>(m, pat, h). method_matches m meth \<and> path_matches pat p) routes of
             Some (m, pat, h) \<Rightarrow> Handler h
           | None \<Rightarrow>
               if list_ex (\<lambda>(m, pat, h). method_matches m meth \<and> is_subtree pat \<and> pat = p @ ''/'') routes then MovedPermanently
               else if list_ex (\<lambda>(m, pat, h). path_matches pat p) routes then MethodNotAllowed
               else NotFound)"

section \<open>The server\<close>

datatype endpoint =
    handle_pay | handle_network_toggle | handle_reconcile | handle_toggle_reserve | handle_get_account
  | handle_issue_token | handle_allocate_allowance | handle_get_reserve | handle_revocation_add
  | handle_revocation_stats | handle_generate_qr | handle_dashboard | handle_audit_conservation
  | handle_reset_fraud | handle_create_account | handle_health

definition server_routes :: "endpoint route list" where
  "server_routes =
     [(''POST'', ''/api/v1/auth/pay'', handle_pay),
      (''POST'', ''/api/v1/network/toggle'', handle_network_toggle),
      (''POST'', ''/api/v1/reconcile'', handle_reconcile),
      (''POST'', ''/api/v1/reconcile/toggle-reserve'', handle_toggle_reserve),
      (''GET'', ''/api/v1/account/'', handle_get_account),
      (''POST'', ''/api/v1/tokens/issue'', handle_issue_token),
      (''POST'', ''/api/v1/ledger/allowance/allocate'', handle_allocate_allowance),
      (''GET'', ''/api/v1/ledger/reserve'', handle_get_reserve),
      (''POST'', ''/api/v1/revocation/add'', handle_revocation_add),
      (''GET'', ''/api/v1/revocation/stats'', handle_revocation_stats),
      (''POST'', ''/api/v1/qr/generate'', handle_generate_qr),
      (''GET'', ''/{$}'', handle_dashboard),
      (''GET'', ''/dashboard'', handle_dashboard),
      (''GET'', ''/api/v1/audit/conservation'', handle_audit_conservation),
      (''GET'', ''/audit/conservation'', handle_audit_conservation),
      (''POST'', ''/api/v1/fraud/reset'', handle_reset_fraud),
      (''POST'', ''/api/v1/account/create'', handle_create_account),
      (''GET'', ''/api/v1/health'', handle_health)]"

text \<open>The address to listen on and the server, or the message of \<open>log.Fatalf\<close>; \<open>page\<close> is the embedded dashboard.\<close>

definition server_main :: "string \<Rightarrow> boot \<Rightarrow> (string + (string \<times> Server)) option" where
  "server_main env_port b =
     (let port = (if env_port = '''' then ''8080'' else env_port) in
      case setupServer b ''wal_edge_data.log'' of
        None \<Rightarrow> None
      | Some (Inl e) \<Rightarrow> Some (Inl (''Fatal server initialization error: '' @ e))
      | Some (Inr srv) \<Rightarrow> Some (Inr ('':'' @ port, srv)))"

definition handleDashboard :: "string \<Rightarrow> Server \<Rightarrow> (nat \<times> string) \<times> Server" where
  "handleDashboard page s = ((StatusOK, page), s)"

section \<open>The single-file program\<close>

datatype aio_endpoint = aio_dashboard | aio_health | aio_toggle | aio_pay | aio_audit | aio_qr

definition aio_routes :: "aio_endpoint route list" where
  "aio_routes =
     [(''GET'', ''/{$}'', aio_dashboard), (''GET'', ''/dashboard'', aio_dashboard), (''GET'', ''/api/v1/health'', aio_health),
      (''POST'', ''/api/v1/network/toggle'', aio_toggle), (''POST'', ''/api/v1/auth/pay'', aio_pay),
      (''GET'', ''/api/v1/audit/conservation'', aio_audit), (''POST'', ''/api/v1/qr/generate'', aio_qr)]"

section \<open>At most one pattern matches\<close>

text \<open>Two patterns that no request matches both of; then the order of registration does not matter.\<close>

definition apart :: "'h route \<Rightarrow> 'h route \<Rightarrow> bool" where
  "apart r r' =
     (case (r, r') of ((m, pat, h), (m', pat', h')) \<Rightarrow>
        m \<noteq> m' \<and> {m, m'} \<subseteq> {''GET'', ''POST''} \<or>
        (if is_subtree pat then \<not> is_subtree pat' \<and> \<not> has_prefix pat (exact_path pat')
         else if is_subtree pat' then \<not> has_prefix pat' (exact_path pat)
         else exact_path pat \<noteq> exact_path pat'))"

lemma apart_sound:
  assumes "apart (m, pat, h) (m', pat', h')" and "method_matches m meth" "path_matches pat p"
  shows "\<not> (method_matches m' meth \<and> path_matches pat' p)"
  using assms by (auto simp: apart_def path_matches_def method_matches_def split: if_splits)

lemma find_apart:
  assumes "sorted_wrt apart rs" and "(m, pat, h) \<in> set rs" and "method_matches m meth" "path_matches pat p"
  shows "find (\<lambda>(m, pat, h). method_matches m meth \<and> path_matches pat p) rs = Some (m, pat, h)"
  using assms(1,2)
proof (induction rs)
  case (Cons r rs)
  obtain m' pat' h' where r: "r = (m', pat', h')" by (cases r)
  show ?case
  proof (cases "(m, pat, h) = r")
    case False
    with Cons.prems have "apart (m', pat', h') (m, pat, h)" "(m, pat, h) \<in> set rs" by (auto simp: r)
    with apart_sound[of m' pat' h' m pat h meth p] Cons assms(3,4) show ?thesis by (auto simp: r)
  qed (use assms(3,4) in \<open>auto simp: r\<close>)
qed simp

lemma mux_handler:
  assumes "sorted_wrt apart rs" and "clean_path p" and "(m, pat, h) \<in> set rs" and "method_matches m meth" "path_matches pat p"
  shows "mux rs meth p = Handler h"
  using find_apart[OF assms(1,3-)] assms(2) by (simp add: mux_def)

lemma server_routes_apart: "sorted_wrt apart server_routes"
  by (simp add: server_routes_def apart_def is_subtree_def has_prefix_def exact_path_def)

lemma aio_routes_apart: "sorted_wrt apart aio_routes"
  by (simp add: aio_routes_def apart_def is_subtree_def has_prefix_def exact_path_def)

end
