(* ===== verification/Cli.thy ===== *)
theory Cli
  imports Json Float_Ops
begin

text \<open>
  \<open>cmd/cli/main.go\<close>: the command-line client. A run ends the process with a message or sends one request; the
  request is modelled with its path and payload; \<open>Cli_Run\<close> adds the transport and the printing of the reply, \<open>Client_Server\<close> the server that gets it.

  \<^item> \<open>strconv.ParseFloat(s, 64)\<close> is the parameter \<open>pf\<close>: the value, \<open>None\<close> for an infinity or a NaN, and the error. What
    the code relies on is that a decimal literal without an error gives the nearest \<open>float64\<close>.
  \<^item> \<open>os.Args[1:]\<close> is the list of arguments; \<open>os.Getenv\<close> gives the empty string for an unset variable.
\<close>

section \<open>Data\<close>

datatype http_request =
    Get string
  | Post string "json option"

datatype cli_result =
    ExitUsage
  | ExitUnknown string
  | ExitMessage string
  | Send http_request

type_synonym parse_float = "string \<Rightarrow> float64 option \<times> string option"

section \<open>Operations\<close>

definition getBaseURL :: "string \<Rightarrow> string" where
  "getBaseURL url = (if url = '''' then ''http://localhost:8080'' else url)"

text \<open>\<open>int64(x * 100)\<close>.\<close>

definition to_cents :: "int64 \<Rightarrow> float64 option \<Rightarrow> int64" where
  "to_cents f2i v = (case v of None \<Rightarrow> f2i | Some x \<Rightarrow> int64_of_float f2i (f64 (x * 100)))"

definition cli_pay :: "int64 \<Rightarrow> parse_float \<Rightarrow> string \<Rightarrow> string list \<Rightarrow> cli_result" where
  "cli_pay f2i pf baseURL as =
     (case as of
        acc # merch # amt # _ \<Rightarrow>
          (case pf amt of
             (_, Some err) \<Rightarrow> ExitMessage (''Invalid amount: '' @ err)
           | (amtUSD, None) \<Rightarrow>
               Send (Post (baseURL @ ''/api/v1/auth/pay'') (Some (JObject
                 [(''account_id'', JString acc), (''merchant_id'', JString merch), (''terminal_id'', JString ''TERM-001''),
                  (''amount'', JInt (to_cents f2i amtUSD))]))))
      | _ \<Rightarrow> ExitMessage ''Usage: fs2601-cli pay <account> <merchant> <amount_usd>'')"

definition cli_token :: "int64 \<Rightarrow> parse_float \<Rightarrow> string \<Rightarrow> string list \<Rightarrow> cli_result" where
  "cli_token f2i pf baseURL as =
     (case as of
        acc # rest \<Rightarrow>
          let floorCents = (case rest of amt # _ \<Rightarrow> to_cents f2i (fst (pf amt)) | [] \<Rightarrow> 5000) in
          Send (Post (baseURL @ ''/api/v1/tokens/issue'') (Some (JObject
            [(''account_id'', JString acc), (''max_floor_amount'', JInt floorCents), (''duration_sec'', JInt 3600),
             (''terminal_id'', JString ''TERM-001'')])))
      | [] \<Rightarrow> ExitMessage ''Usage: fs2601-cli token <account> [max_floor_usd]'')"

definition cli_allowance :: "int64 \<Rightarrow> parse_float \<Rightarrow> string \<Rightarrow> string list \<Rightarrow> cli_result" where
  "cli_allowance f2i pf baseURL as =
     (case as of
        acc # amt # _ \<Rightarrow>
          Send (Post (baseURL @ ''/api/v1/ledger/allowance/allocate'') (Some (JObject
            [(''account_id'', JString acc), (''amount'', JInt (to_cents f2i (fst (pf amt))))])))
      | _ \<Rightarrow> ExitMessage ''Usage: fs2601-cli allowance <account> <amount_usd>'')"

definition cli_create_account :: "int64 \<Rightarrow> parse_float \<Rightarrow> string \<Rightarrow> string list \<Rightarrow> cli_result" where
  "cli_create_account f2i pf baseURL as =
     (case as of
        acc # bal # rest \<Rightarrow>
          let allowUSD = (case rest of amt # _ \<Rightarrow> fst (pf amt) | [] \<Rightarrow> Some 0) in
          Send (Post (baseURL @ ''/api/v1/account/create'') (Some (JObject
            [(''account_id'', JString acc), (''balance'', JInt (to_cents f2i (fst (pf bal)))),
             (''offline_allowance'', JInt (to_cents f2i allowUSD))])))
      | _ \<Rightarrow> ExitMessage ''Usage: fs2601-cli create-account <id> <balance_usd> [offline_allowance_usd]'')"

definition cli_main :: "int64 \<Rightarrow> parse_float \<Rightarrow> string \<Rightarrow> string list \<Rightarrow> cli_result" where
  "cli_main f2i pf env_url args =
     (case args of
        [] \<Rightarrow> ExitUsage
      | cmd # as \<Rightarrow>
          let baseURL = getBaseURL env_url in
          if cmd = ''health'' then Send (Get (baseURL @ ''/api/v1/health''))
          else if cmd = ''balance'' then
            (case as of
               acc # _ \<Rightarrow> Send (Get (baseURL @ ''/api/v1/account/'' @ acc))
             | [] \<Rightarrow> ExitMessage ''Usage: fs2601-cli balance <account_id>'')
          else if cmd = ''pay'' then cli_pay f2i pf baseURL as
          else if cmd = ''network'' then
            (case as of
               status # _ \<Rightarrow> Send (Post (baseURL @ ''/api/v1/network/toggle'') (Some (JObject [(''status'', JString status)])))
             | [] \<Rightarrow> ExitMessage ''Usage: fs2601-cli network <ONLINE|DISCONNECTED|RECONNECTED>'')
          else if cmd = ''token'' then cli_token f2i pf baseURL as
          else if cmd = ''allowance'' then cli_allowance f2i pf baseURL as
          else if cmd = ''revoke'' then
            (case as of
               acc # _ \<Rightarrow> Send (Post (baseURL @ ''/api/v1/revocation/add'') (Some (JObject [(''account_id'', JString acc)])))
             | [] \<Rightarrow> ExitMessage ''Usage: fs2601-cli revoke <account>'')
          else if cmd = ''cuckoo-stats'' then Send (Get (baseURL @ ''/api/v1/revocation/stats''))
          else if cmd = ''qr'' then
            Send (Post (baseURL @ ''/api/v1/qr/generate'') (Some (JObject
              [(''merchant_id'', JString ''MERCHANT-POS-01''), (''terminal_id'', JString ''TERM-001''),
               (''tamper_mode'', JString (case as of tamper # _ \<Rightarrow> tamper | [] \<Rightarrow> ''NONE''))])))
          else if cmd = ''reconcile'' then Send (Post (baseURL @ ''/api/v1/reconcile'') None)
          else if cmd = ''reserve'' then Send (Get (baseURL @ ''/api/v1/ledger/reserve''))
          else if cmd = ''audit'' then Send (Get (baseURL @ ''/api/v1/audit/conservation''))
          else if cmd = ''create-account'' then cli_create_account f2i pf baseURL as
          else if cmd = ''reset-fraud'' then Send (Post (baseURL @ ''/api/v1/fraud/reset'') None)
          else ExitUnknown cmd)"

section \<open>Cents\<close>

lemma nearest_cents:
  fixes n :: int
  assumes "0 < n" and "n < 2 ^ 50"
  shows "\<bar>f64 (f64 (of_int n / 100) * 100) - of_int n\<bar> < (1 :: rat)"
proof -
  define x y where "x = f64 (of_int n / 100 :: rat)" and "y = f64 (x * 100)"
  have n: "1 \<le> (of_int n :: rat)" "of_int n < (2 ^ 50 :: rat)"
    using assms by (simp_all add: int_one_le_iff_zero_less flip: of_int_less_numeral_power_cancel_iff)
  have "\<bar>x - of_int n / 100\<bar> \<le> (of_int n / 100) / 2 ^ 53"
    unfolding x_def using n by (intro f64_error) (simp_all add: field_simps)
  then have "x - of_int n / 100 \<le> (of_int n / 100) / 2 ^ 53" "of_int n / 100 - x \<le> (of_int n / 100) / 2 ^ 53"
    by (simp_all only: abs_le_iff minus_diff_eq)
  then have x: "of_int n * (1 - 1 / 2 ^ 53) \<le> x * 100" "x * 100 \<le> of_int n * (1 + 1 / 2 ^ 53)"
    by (simp_all add: field_simps)
  then have "1 / 2 ^ 20 \<le> x * 100" "x * 100 < 2 ^ 51" using n by (simp_all add: field_simps)
  then have "\<bar>y - x * 100\<bar> \<le> x * 100 / 2 ^ 53" unfolding y_def by (intro f64_error) simp_all
  then have "y - x * 100 \<le> x * 100 / 2 ^ 53" "x * 100 - y \<le> x * 100 / 2 ^ 53"
    by (simp_all only: abs_le_iff minus_diff_eq)
  with x n have "y - of_int n < 1" "of_int n - y < 1" by (simp_all add: field_simps)
  then have "\<bar>y - of_int n\<bar> < 1" by (simp only: abs_less_iff minus_diff_eq)
  then show ?thesis by (simp add: x_def y_def)
qed

lemma to_cents_nearest:
  fixes n :: int
  assumes "0 < n" and "n < 2 ^ 50"
  shows "sint (to_cents f2i (Some (f64 (of_int n / 100)))) = n \<or> sint (to_cents f2i (Some (f64 (of_int n / 100)))) = n - 1"
proof -
  define y where "y = f64 (f64 (of_int n / 100) * 100)"
  have y: "of_int n - 1 < y" "y < of_int n + 1" using nearest_cents[OF assms] by (auto simp: y_def abs_less_iff)
  moreover have "(1 :: rat) \<le> of_int n" "of_int n < (2 ^ 50 :: rat)"
    using assms by (simp_all add: int_one_le_iff_zero_less flip: of_int_less_numeral_power_cancel_iff)
  ultimately have "0 \<le> y" "y < 2 ^ 62" by (simp_all add: field_simps)
  then have "sint (to_cents f2i (Some (f64 (of_int n / 100)))) = \<lfloor>y\<rfloor>"
    by (simp add: to_cents_def y_def int64_of_float_nonneg)
  moreover have "\<lfloor>y\<rfloor> = n \<or> \<lfloor>y\<rfloor> = n - 1" using y by linarith
  ultimately show ?thesis by simp
qed

section \<open>Properties\<close>

text \<open>
  C40. The payment command sends the amount in cents, or one cent less: for every amount below \<open>2 ^ 50\<close> cents
  that \<open>ParseFloat\<close> reads as the nearest \<open>float64\<close>, the two roundings and the truncation lose at most one cent and
  never add one.
\<close>

theorem cli_pay_cents:
  fixes n :: int
  assumes "pf amt = (Some (f64 (of_int n / 100)), None)" and "0 < n" and "n < 2 ^ 50"
  shows "\<exists>c. cli_main f2i pf url (''pay'' # acc # merch # amt # rest) =
      Send (Post (getBaseURL url @ ''/api/v1/auth/pay'') (Some (JObject
        [(''account_id'', JString acc), (''merchant_id'', JString merch), (''terminal_id'', JString ''TERM-001''), (''amount'', JInt c)])))
    \<and> (sint c = n \<or> sint c = n - 1)"
  using assms(1) to_cents_nearest[OF assms(2,3), of f2i] by (simp add: cli_main_def cli_pay_def Let_def)

theorem cli_pay_cents_witness:
  "\<exists>c. cli_main 0 (\<lambda>_. (Some (f64 (1999 / 100)), None)) '''' [''pay'', ''ACC'', ''SHOP'', ''19.99''] =
      Send (Post ''http://localhost:8080/api/v1/auth/pay'' (Some (JObject
        [(''account_id'', JString ''ACC''), (''merchant_id'', JString ''SHOP''), (''terminal_id'', JString ''TERM-001''), (''amount'', JInt c)])))
    \<and> (sint c = 1999 \<or> sint c = 1998)"
  using cli_pay_cents[of "\<lambda>_. (Some (f64 (1999 / 100)), None)" "''19.99''" 1999 0 "''''" "''ACC''" "''SHOP''" "[]"]
  by (simp add: getBaseURL_def)

text \<open>The cent is lost already for 19.99, which is sent as 1998.\<close>

lemma fl_1999: "fl (1999 / 100) = 5626684784446013 / 2 ^ 48"
  by (rule fl_eqI[where m = 5626684784446013, simplified of_int_numeral]) simp_all

lemma cli_pay_loses_a_cent:
  assumes "pf ''19.99'' = (Some (f64 (1999 / 100)), None)"
  shows "cli_main f2i pf url [''pay'', acc, merch, ''19.99''] =
    Send (Post (getBaseURL url @ ''/api/v1/auth/pay'') (Some (JObject
      [(''account_id'', JString acc), (''merchant_id'', JString merch), (''terminal_id'', JString ''TERM-001''), (''amount'', JInt 1998)])))"
proof -
  have "f64 (1999 / 100) = 5626684784446013 / 2 ^ 48" by (simp add: f64_def f64_nonneg_def fl_1999)
  moreover have "f64 (5626684784446013 / 2 ^ 48 * 100) = fl (5626684784446013 / 2 ^ 48 * 100)"
    by (simp add: f64_def f64_nonneg_def)
  moreover have "fl (5626684784446013 / 2 ^ 48 * 100) = 8791694975696895 / 2 ^ 42"
    by (rule fl_eqI[where m = 8791694975696895, simplified of_int_numeral]) simp_all
  ultimately have "f64 (f64 (1999 / 100) * 100) = 8791694975696895 / 2 ^ 42" by (simp only:)
  moreover have "\<lfloor>8791694975696895 / 2 ^ 42 :: rat\<rfloor> = 1998" by (rule floor_unique) simp_all
  ultimately have "to_cents f2i (Some (f64 (1999 / 100))) = 1998"
    by (simp only: to_cents_def int64_of_float_def Let_def option.case) simp
  then show ?thesis using assms by (simp add: cli_main_def cli_pay_def Let_def)
qed

end
