(* ===== verification/Cli_Run.thy ===== *)
theory Cli_Run
  imports Cli
begin

text \<open>
  A whole run of the client of \<open>cmd/cli/main.go\<close>: what it prints and its exit code. The exchange with the server is a
  parameter: \<open>http_do\<close> is \<open>http.Get\<close> or \<open>http.Post\<close> with the reading of the reply (an error of the transport, or the status and the
  body or the error of reading it), \<open>reindent\<close> is \<open>json.Unmarshal\<close> and \<open>json.MarshalIndent\<close> (\<open>None\<close> when the body is no JSON).
\<close>

record transport =
  http_do :: "http_request \<Rightarrow> string + (nat \<times> (string + string))"
  reindent :: "string \<Rightarrow> string option"

definition newline :: string where "newline = [CHR 0x0A]"

definition Println :: "string \<Rightarrow> string" where "Println s = s @ newline"

section \<open>Printing\<close>

definition printUsage :: string where
  "printUsage = concat (map Println
     [''FS-2601 Payment Authorization & Risk CLI Tool'',
      '''',
      ''Usage:'',
      ''  fs2601-cli <command> [arguments]'',
      '''',
      ''Commands:'',
      ''  health                     Check server health & network status'',
      ''  balance <account_id>       Query account balance snapshot'',
      ''  pay <account> <merchant> <amount_usd>'',
      ''                             Submit an online/offline payment authorization'',
      ''  network <status>           Toggle partition (ONLINE | DISCONNECTED | RECONNECTED)'',
      ''  token <account> [amount]   Issue an Ed25519 offline token (default $50 floor)'',
      ''  allowance <account> <amt>  Pre-allocate offline allowance (Feature 1)'',
      ''  revoke <account>           Insert account into Compact Cuckoo Filter (Feature 2)'',
      ''  cuckoo-stats               Inspect Compact Cuckoo Filter memory & FPR stats (Feature 2)'',
      ''  qr [tamper_mode]           Generate dynamic QR (NONE | EXPIRED | STICKER_MISMATCH | FORGED) (Feature 3)'',
      ''  reconcile                  Trigger deterministic WAL replay and reconciliation (Feature 4)'',
      ''  reserve                    Query deficit reserve balance (Feature 5)'',
      ''  audit                      Verify global double-entry conservation invariant'',
      ''  create-account <id> <bal> [allowance]'',
      ''                             Register and fund a customer account'',
      ''  reset-fraud                Reset graph fraud engine in-memory state''])"

definition prettyPrint :: "transport \<Rightarrow> nat \<Rightarrow> string + string \<Rightarrow> string" where
  "prettyPrint tr statusCode body =
     (case body of
        Inl err \<Rightarrow> Println (''Read error: '' @ err)
      | Inr data \<Rightarrow>
          Println (''[HTTP '' @ show_nat statusCode @ '']'') @
          Println (case reindent tr data of Some formatted \<Rightarrow> formatted | None \<Rightarrow> data))"

text \<open>\<open>doGet\<close> and \<open>doPost\<close>: the output and the exit code.\<close>

definition exchange :: "transport \<Rightarrow> http_request \<Rightarrow> string \<times> nat" where
  "exchange tr r =
     (case http_do tr r of
        Inl err \<Rightarrow> (Println (''Error: '' @ err), 1)
      | Inr (statusCode, body) \<Rightarrow> (prettyPrint tr statusCode body, 0))"

definition cli_run :: "transport \<Rightarrow> int64 \<Rightarrow> parse_float \<Rightarrow> string \<Rightarrow> string list \<Rightarrow> string \<times> nat" where
  "cli_run tr f2i pf env_url args =
     (case cli_main f2i pf env_url args of
        ExitUsage \<Rightarrow> (printUsage, 1)
      | ExitUnknown cmd \<Rightarrow> (Println (''Unknown command: '' @ cmd) @ newline @ printUsage, 1)
      | ExitMessage m \<Rightarrow> (Println m, 1)
      | Send r \<Rightarrow> exchange tr r)"

section \<open>Amounts that do not parse\<close>

text \<open>
  Only the payment command looks at the error of \<open>ParseFloat\<close>. An amount that is no number has the value 0, and the other
  commands send it: a ceiling or an allowance of 0, or an account that is opened without money.
\<close>

lemma cli_unparsable_amount:
  assumes "pf amt = (Some 0, Some err)"
  shows "cli_main f2i pf url [''token'', acc, amt] =
      Send (Post (getBaseURL url @ ''/api/v1/tokens/issue'') (Some (JObject
        [(''account_id'', JString acc), (''max_floor_amount'', JInt 0), (''duration_sec'', JInt 3600), (''terminal_id'', JString ''TERM-001'')])))"
    and "cli_main f2i pf url [''create-account'', acc, amt] =
      Send (Post (getBaseURL url @ ''/api/v1/account/create'') (Some (JObject
        [(''account_id'', JString acc), (''balance'', JInt 0), (''offline_allowance'', JInt 0)])))"
    and "cli_main f2i pf url [''pay'', acc, merch, amt] = ExitMessage (''Invalid amount: '' @ err)"
proof -
  have "fl 0 = 0" by (simp add: fl_def round_half_even_def Let_def)
  then have "to_cents f2i (Some 0) = 0" by (simp add: to_cents_def int64_of_float_def f64_def f64_nonneg_def)
  then show "cli_main f2i pf url [''token'', acc, amt] =
      Send (Post (getBaseURL url @ ''/api/v1/tokens/issue'') (Some (JObject
        [(''account_id'', JString acc), (''max_floor_amount'', JInt 0), (''duration_sec'', JInt 3600), (''terminal_id'', JString ''TERM-001'')])))"
    "cli_main f2i pf url [''create-account'', acc, amt] =
      Send (Post (getBaseURL url @ ''/api/v1/account/create'') (Some (JObject
        [(''account_id'', JString acc), (''balance'', JInt 0), (''offline_allowance'', JInt 0)])))"
    "cli_main f2i pf url [''pay'', acc, merch, amt] = ExitMessage (''Invalid amount: '' @ err)"
    using assms by (simp_all add: cli_main_def cli_token_def cli_create_account_def cli_pay_def Let_def)
qed

section \<open>Exit codes\<close>

text \<open>
  The exit code of the client tells whether a reply arrived, not whether the server did what was asked: it is 0 exactly when a request was
  sent and the transport had no error, for every status of the reply. A declined payment (402), a bad request and a failure of the server all exit with 0.
\<close>

lemma cli_exit_code:
  "snd (cli_run tr f2i pf url args) = (if \<exists>r statusCode body. cli_main f2i pf url args = Send r \<and> http_do tr r = Inr (statusCode, body) then 0 else 1)"
proof (cases "cli_main f2i pf url args")
  case (Send r)
  then show ?thesis by (cases "http_do tr r") (auto simp: cli_run_def exchange_def)
qed (simp_all add: cli_run_def)

end
