(* ===== verification/Client_Server.thy ===== *)
theory Client_Server
  imports Http_Mux Cli_Run
begin

text \<open>
  The client and the server together: a request of \<open>cmd/cli/main.go\<close> as \<open>cmd/server/main.go\<close> receives it. The path is routed
  by the server's table and the payload decoded into the struct of the handler, whose tags name the fields.

  \<^item> A payload arrives as the value that the client built, as \<open>encoding/json\<close> guarantees for valid UTF-8 strings. Only
    strings, \<open>int64\<close> values and objects occur.
  \<^item> Decoding matches a field by its tag up to (ASCII) case, the last of several wins, \<open>null\<close> and absence leave the zero value,
    a value of another type is an error. The nested structs of a payment, which the client never sends, are decoded by the parameter \<open>parts\<close>.
  \<^item> A URL is a scheme, a host and a path, up to a query or a fragment; \<open>net/http\<close> sends the path. It is sent to this server; a URL
    without the scheme \<open>http\<close> never gets there, and a redirect is not followed.
\<close>

section \<open>Decoding\<close>

definition json_field :: "string \<Rightarrow> json_object \<Rightarrow> json option" where
  "json_field name obj = map_option snd (find (\<lambda>(k, v). map upper_char k = map upper_char name \<and> v \<noteq> JNull) (rev obj))"

definition string_field :: "string \<Rightarrow> json_object \<Rightarrow> string option" where
  "string_field name obj = (case json_field name obj of None \<Rightarrow> Some '''' | Some (JString s) \<Rightarrow> Some s | _ \<Rightarrow> None)"

definition int_field :: "string \<Rightarrow> json_object \<Rightarrow> int64 option" where
  "int_field name obj = (case json_field name obj of None \<Rightarrow> Some 0 | Some (JInt x) \<Rightarrow> Some x | _ \<Rightarrow> None)"

definition uint_field :: "string \<Rightarrow> json_object \<Rightarrow> uint64 option" where
  "uint_field name obj =
     (case json_field name obj of None \<Rightarrow> Some 0 | Some (JInt x) \<Rightarrow> (if sint x < 0 then None else Some x) | _ \<Rightarrow> None)"

text \<open>The decoder gets the object of the body; an empty body or another value is an error.\<close>

definition body_object :: "json option \<Rightarrow> json_object option" where
  "body_object body = (case body of Some (JObject obj) \<Rightarrow> Some obj | _ \<Rightarrow> None)"

type_synonym nested = "QRPayload option \<times> DynamicQRPayload option \<times> OfflineAuthorizationToken option \<times> vclock"

definition nested_fields :: "(json_object \<Rightarrow> nested option) \<Rightarrow> json_object \<Rightarrow> nested option" where
  "nested_fields parts obj =
     (if list_all (\<lambda>name. json_field name obj = None) [''qr_payload'', ''dynamic_qr'', ''offline_token'', ''vector_clock'']
      then Some (None, None, None, []) else parts obj)"

definition decode_payment :: "(json_object \<Rightarrow> nested option) \<Rightarrow> json_object \<Rightarrow> PaymentRequest option" where
  "decode_payment parts obj =
     (case (string_field ''idempotency_key'' obj, string_field ''tx_id'' obj, string_field ''account_id'' obj,
            string_field ''merchant_id'' obj, string_field ''terminal_id'' obj, int_field ''amount'' obj) of
        (Some key, Some tx, Some acc, Some mer, Some term, Some amount) \<Rightarrow>
          (case (string_field ''device_id'' obj, string_field ''ip_address'' obj, int_field ''client_timestamp'' obj,
                 uint_field ''seq_no'' obj, nested_fields parts obj) of
             (Some dev, Some ip, Some ts, Some n, Some (qr, dqr, tok, vc)) \<Rightarrow>
               Some \<lparr>IdempotencyKey = key, req_TxID = tx, req_AccountID = acc, req_MerchantID = mer, req_TerminalID = term,
                 req_Amount = amount, req_DeviceID = dev, req_IPAddress = ip, req_ClientTimestamp = ts, req_QRPayload = qr,
                 DynamicQR = dqr, OfflineToken = tok, req_VectorClock = vc, req_SeqNo = n\<rparr>
           | _ \<Rightarrow> None)
      | _ \<Rightarrow> None)"

definition decode_token_request :: "json_object \<Rightarrow> token_request option" where
  "decode_token_request obj =
     (case (string_field ''account_id'' obj, int_field ''max_floor_amount'' obj, int_field ''duration_sec'' obj, string_field ''terminal_id'' obj) of
        (Some acc, Some floorAmount, Some d, Some term) \<Rightarrow>
          Some \<lparr>tr_AccountID = acc, tr_MaxFloorAmount = floorAmount, tr_DurationSec = d, tr_TerminalID = term\<rparr>
      | _ \<Rightarrow> None)"

definition decode_allowance :: "json_object \<Rightarrow> (string \<times> int64) option" where
  "decode_allowance obj =
     (case (string_field ''account_id'' obj, int_field ''amount'' obj) of (Some acc, Some x) \<Rightarrow> Some (acc, x) | _ \<Rightarrow> None)"

definition decode_account :: "json_object \<Rightarrow> (string \<times> int64 \<times> int64) option" where
  "decode_account obj =
     (case (string_field ''account_id'' obj, int_field ''balance'' obj, int_field ''offline_allowance'' obj) of
        (Some acc, Some b, Some x) \<Rightarrow> Some (acc, b, x) | _ \<Rightarrow> None)"

definition decode_enabled :: "json_object \<Rightarrow> bool option" where
  "decode_enabled obj = (case json_field ''enabled'' obj of None \<Rightarrow> Some False | Some (JBool b) \<Rightarrow> Some b | _ \<Rightarrow> None)"

text \<open>The QR handler ignores the error: fields that decode are kept.\<close>

definition decode_qr :: "json option \<Rightarrow> qr_request" where
  "decode_qr body =
     (let get = (\<lambda>name. case body_object body of None \<Rightarrow> '''' | Some obj \<Rightarrow> (case string_field name obj of None \<Rightarrow> '''' | Some s \<Rightarrow> s))
      in \<lparr>qreq_MerchantID = get ''merchant_id'', qreq_TerminalID = get ''terminal_id'', TamperMode = get ''tamper_mode''\<rparr>)"

section \<open>Requests as calls of the handlers\<close>

text \<open>What a handler reads besides the request.\<close>

record world =
  w_env :: env
  w_unicode :: "string \<Rightarrow> string"
  w_recon :: recon_clock
  w_ed :: ed25519
  w_clk :: clock
  w_draws :: draws
  w_qr :: qr_inputs
  w_order :: "string list"
  w_now :: time
  w_parts :: "json_object \<Rightarrow> nested option"

fun call_of :: "world \<Rightarrow> endpoint \<Rightarrow> string \<Rightarrow> json option \<Rightarrow> http_call option" where
  "call_of w handle_pay path body =
     Some (POST_pay (\<lambda>_. Option.bind (body_object body) (decode_payment (w_parts w))) (w_env w) (Some []))"
| "call_of w handle_network_toggle path body =
     Some (POST_network_toggle (w_unicode w) (w_recon w) (Option.bind (body_object body) (string_field ''status'')))"
| "call_of w handle_reconcile path body = Some (POST_reconcile (w_recon w))"
| "call_of w handle_toggle_reserve path body = Some (POST_toggle_reserve (Option.bind (body_object body) decode_enabled))"
| "call_of w handle_get_account path body = Some (GET_account path)"
| "call_of w handle_issue_token path body =
     Some (POST_tokens_issue (w_ed w) (w_clk w) (Option.bind (body_object body) decode_token_request))"
| "call_of w handle_allocate_allowance path body =
     Some (POST_allowance_allocate (w_clk w) (Option.bind (body_object body) decode_allowance))"
| "call_of w handle_get_reserve path body = Some GET_reserve"
| "call_of w handle_revocation_add path body =
     Some (POST_revocation_add (w_draws w) (Option.bind (body_object body) (string_field ''account_id'')))"
| "call_of w handle_revocation_stats path body = Some GET_revocation_stats"
| "call_of w handle_generate_qr path body = Some (POST_qr_generate (w_ed w) (w_qr w) (decode_qr body))"
| "call_of w handle_dashboard path body = None"
| "call_of w handle_audit_conservation path body = Some (GET_audit (w_order w))"
| "call_of w handle_reset_fraud path body = Some (POST_fraud_reset (w_now w))"
| "call_of w handle_create_account path body =
     Some (POST_account_create (w_now w) (w_clk w) (Option.bind (body_object body) decode_account))"
| "call_of w handle_health path body = Some (GET_health (w_now w))"

text \<open>The path of a URL (\<open>url.Parse\<close>); an empty one is sent as \<open>/\<close>.\<close>

definition url_path :: "string \<Rightarrow> string option" where
  "url_path url =
     (if \<not> has_prefix ''http://'' url then None
      else
        let rest = drop (length ''http://'') (takeWhile (\<lambda>c. c \<noteq> CHR ''?'' \<and> c \<noteq> CHR ''#'') url);
            path = dropWhile (\<lambda>c. c \<noteq> CHR ''/'') rest
        in Some (if path = '''' then ''/'' else path))"

definition routed :: "world \<Rightarrow> string \<Rightarrow> string \<Rightarrow> json option \<Rightarrow> http_call option" where
  "routed w meth url body =
     (case url_path url of
        None \<Rightarrow> None
      | Some path \<Rightarrow> (case mux server_routes meth path of Handler h \<Rightarrow> call_of w h path body | _ \<Rightarrow> None))"

fun received :: "world \<Rightarrow> http_request \<Rightarrow> http_call option" where
  "received w (Get url) = routed w ''GET'' url None"
| "received w (Post url body) = routed w ''POST'' url body"

section \<open>What a command means\<close>

definition payment_of :: "string \<Rightarrow> string \<Rightarrow> int64 \<Rightarrow> PaymentRequest" where
  "payment_of acc merch cents =
     \<lparr>IdempotencyKey = '''', req_TxID = '''', req_AccountID = acc, req_MerchantID = merch, req_TerminalID = ''TERM-001'',
      req_Amount = cents, req_DeviceID = '''', req_IPAddress = '''', req_ClientTimestamp = 0, req_QRPayload = None,
      DynamicQR = None, OfflineToken = None, req_VectorClock = [], req_SeqNo = 0\<rparr>"

text \<open>The call of a handler that a command line asks for; \<open>None\<close> when it is not a complete command.\<close>

definition intended :: "world \<Rightarrow> int64 \<Rightarrow> parse_float \<Rightarrow> string list \<Rightarrow> http_call option" where
  "intended w f2i pf args =
     (let cmd = hd args; as = tl args; n = length as; cents = (\<lambda>s. to_cents f2i (fst (pf s))) in
      if args = [] then None
      else if cmd = ''health'' then Some (GET_health (w_now w))
      else if cmd = ''balance'' \<and> 1 \<le> n then Some (GET_account (''/api/v1/account/'' @ as ! 0))
      else if cmd = ''pay'' \<and> 3 \<le> n \<and> snd (pf (as ! 2)) = None then
        Some (POST_pay (\<lambda>_. Some (payment_of (as ! 0) (as ! 1) (cents (as ! 2)))) (w_env w) (Some []))
      else if cmd = ''network'' \<and> 1 \<le> n then Some (POST_network_toggle (w_unicode w) (w_recon w) (Some (as ! 0)))
      else if cmd = ''token'' \<and> 1 \<le> n then
        Some (POST_tokens_issue (w_ed w) (w_clk w) (Some
          \<lparr>tr_AccountID = as ! 0, tr_MaxFloorAmount = (if 2 \<le> n then cents (as ! 1) else 5000), tr_DurationSec = 3600,
           tr_TerminalID = ''TERM-001''\<rparr>))
      else if cmd = ''allowance'' \<and> 2 \<le> n then Some (POST_allowance_allocate (w_clk w) (Some (as ! 0, cents (as ! 1))))
      else if cmd = ''revoke'' \<and> 1 \<le> n then Some (POST_revocation_add (w_draws w) (Some (as ! 0)))
      else if cmd = ''cuckoo-stats'' then Some GET_revocation_stats
      else if cmd = ''qr'' then
        Some (POST_qr_generate (w_ed w) (w_qr w)
          \<lparr>qreq_MerchantID = ''MERCHANT-POS-01'', qreq_TerminalID = ''TERM-001'', TamperMode = (if 1 \<le> n then as ! 0 else ''NONE'')\<rparr>)
      else if cmd = ''reconcile'' then Some (POST_reconcile (w_recon w))
      else if cmd = ''reserve'' then Some GET_reserve
      else if cmd = ''audit'' then Some (GET_audit (w_order w))
      else if cmd = ''create-account'' \<and> 2 \<le> n then
        Some (POST_account_create (w_now w) (w_clk w)
          (Some (as ! 0, cents (as ! 1), if 3 \<le> n then cents (as ! 2) else to_cents f2i (Some 0))))
      else if cmd = ''reset-fraud'' then Some (POST_fraud_reset (w_now w))
      else None)"

section \<open>Every command reaches its handler\<close>

definition url_safe :: "string \<Rightarrow> bool" where
  "url_safe s \<longleftrightarrow> list_all (\<lambda>c. c \<in> set ''ABCDEFGHIJKLMNOPQRSTUVWXYZabcdefghijklmnopqrstuvwxyz0123456789-_'') s"

lemma split_slash_plain: "CHR ''/'' \<notin> set s \<Longrightarrow> split_slash w s = [w @ s]"
  by (induction s arbitrary: w) auto

lemma split_slash_append: "split_slash w (u @ CHR ''/'' # s) = split_slash w u @ split_slash '''' s"
  by (induction u arbitrary: w) auto

lemma url_safe_plain:
  assumes "url_safe acc"
  shows "CHR ''/'' \<notin> set acc" "acc \<noteq> ''.''" "acc \<noteq> ''..''"
proof -
  have safe: "url_safe s \<Longrightarrow> c \<in> set s \<Longrightarrow> c \<noteq> CHR ''/'' \<and> c \<noteq> CHR ''.''" for s c
    unfolding url_safe_def list_all_iff by fastforce
  show "CHR ''/'' \<notin> set acc" "acc \<noteq> ''.''" "acc \<noteq> ''..''"
    using safe[OF assms, of "CHR ''/''"] safe[OF assms, of "CHR ''.''"] by auto
qed

lemma account_segments:
  "CHR ''/'' \<notin> set acc \<Longrightarrow> split_slash '''' (''api/v1/account/'' @ acc) = [''api'', ''v1'', ''account'', acc]"
  by (simp add: split_slash_plain)

lemma balance_path:
  assumes "url_safe acc"
  shows "mux server_routes ''GET'' (''/api/v1/account/'' @ acc) = Handler handle_get_account"
proof (rule mux_handler[OF server_routes_apart])
  have "clean_path (CHR ''/'' # ''api/v1/account/'' @ acc)"
    unfolding clean_path_def list.case Let_def account_segments[OF url_safe_plain(1)[OF assms]]
    using url_safe_plain(2,3)[OF assms] by simp
  then show "clean_path (''/api/v1/account/'' @ acc)" by simp
  show "(''GET'', ''/api/v1/account/'', handle_get_account) \<in> set server_routes" by (simp add: server_routes_def)
  show "method_matches ''GET'' ''GET''" by (simp add: method_matches_def)
  show "path_matches ''/api/v1/account/'' (''/api/v1/account/'' @ acc)"
    by (simp add: path_matches_def is_subtree_def has_prefix_def)
qed

lemma fixed_paths:
  assumes "(meth, path, h) \<in> set server_routes" and "\<not> is_subtree path" and "path \<noteq> ''/{$}''"
  shows "mux server_routes meth path = Handler h"
proof (rule mux_handler[OF server_routes_apart _ assms(1)])
  have "list_all (\<lambda>(m, pat, h). is_subtree pat \<or> pat = ''/{$}'' \<or> clean_path pat) server_routes"
    by (simp add: server_routes_def clean_path_def is_subtree_def Let_def)
  with assms show "clean_path path" by (auto simp: list_all_iff)
  show "method_matches meth meth" "path_matches path path"
    using assms(2,3) by (simp_all add: method_matches_def path_matches_def exact_path_def)
qed

lemmas command_simps = cli_main_def cli_pay_def cli_token_def cli_allowance_def cli_create_account_def intended_def

section \<open>The payloads decode\<close>

lemma decoded_payment:
  "decode_payment parts [(''account_id'', JString acc), (''merchant_id'', JString merch), (''terminal_id'', JString ''TERM-001''), (''amount'', JInt cents)] =
     Some (payment_of acc merch cents)"
  by (simp add: decode_payment_def string_field_def int_field_def uint_field_def nested_fields_def json_field_def upper_char_def payment_of_def)

lemma decoded_token:
  "decode_token_request
     [(''account_id'', JString acc), (''max_floor_amount'', JInt x), (''duration_sec'', JInt d), (''terminal_id'', JString term)] =
   Some \<lparr>tr_AccountID = acc, tr_MaxFloorAmount = x, tr_DurationSec = d, tr_TerminalID = term\<rparr>"
  by (simp add: decode_token_request_def string_field_def int_field_def json_field_def upper_char_def)

lemma decoded_allowance: "decode_allowance [(''account_id'', JString acc), (''amount'', JInt x)] = Some (acc, x)"
  by (simp add: decode_allowance_def string_field_def int_field_def json_field_def upper_char_def)

lemma decoded_account:
  "decode_account [(''account_id'', JString acc), (''balance'', JInt b), (''offline_allowance'', JInt x)] = Some (acc, b, x)"
  by (simp add: decode_account_def string_field_def int_field_def json_field_def upper_char_def)

lemma decoded_qr:
  "decode_qr (Some (JObject [(''merchant_id'', JString m), (''terminal_id'', JString t), (''tamper_mode'', JString x)])) =
     \<lparr>qreq_MerchantID = m, qreq_TerminalID = t, TamperMode = x\<rparr>"
  by (simp add: decode_qr_def body_object_def string_field_def json_field_def upper_char_def Let_def)

lemma decoded_string:
  "string_field ''status'' [(''status'', JString x)] = Some x" "string_field ''account_id'' [(''account_id'', JString x)] = Some x"
  by (simp_all add: string_field_def json_field_def)

lemmas decoded = body_object_def decoded_payment decoded_token decoded_allowance decoded_account decoded_qr decoded_string

section \<open>The requests of the client are routed\<close>

text \<open>A base URL that is an origin: a scheme and a host, and no path, query or fragment.\<close>

definition origin :: "string \<Rightarrow> bool" where
  "origin base \<longleftrightarrow> has_prefix ''http://'' base \<and>
     list_all (\<lambda>c. c \<noteq> CHR ''/'' \<and> c \<noteq> CHR ''?'' \<and> c \<noteq> CHR ''#'') (drop (length ''http://'') base)"

definition plain_path :: "string \<Rightarrow> bool" where
  "plain_path path \<longleftrightarrow> (\<exists>cs. path = CHR ''/'' # cs) \<and> list_all (\<lambda>c. c \<noteq> CHR ''?'' \<and> c \<noteq> CHR ''#'') path"

lemma url_path_at:
  assumes "origin base" and "plain_path path"
  shows "url_path (base @ path) = Some path"
proof -
  define host where "host = drop (length ''http://'') base"
  have base: "base = ''http://'' @ host"
    using assms(1) append_take_drop_id[of "length ''http://''" base] by (simp add: host_def origin_def has_prefix_def)
  have host: "list_all (\<lambda>c. c \<noteq> CHR ''/'' \<and> c \<noteq> CHR ''?'' \<and> c \<noteq> CHR ''#'') host"
    using assms(1) by (simp add: origin_def host_def)
  obtain cs where path: "path = CHR ''/'' # cs" "list_all (\<lambda>c. c \<noteq> CHR ''?'' \<and> c \<noteq> CHR ''#'') path"
    using assms(2) by (auto simp: plain_path_def)
  have "takeWhile (\<lambda>c. c \<noteq> CHR ''?'' \<and> c \<noteq> CHR ''#'') (''http://'' @ host @ path) = ''http://'' @ host @ path"
    using host path(2) by (subst takeWhile_eq_all_conv) (auto simp: list_all_iff)
  moreover have "dropWhile (\<lambda>c. c \<noteq> CHR ''/'') (host @ path) = path"
    using host path(1) by (subst dropWhile_append2) (auto simp: list_all_iff)
  ultimately show ?thesis
    unfolding url_path_def base append_assoc Let_def by (simp only:) (simp add: has_prefix_def path(1))
qed

lemma received_at:
  assumes "origin base" and "plain_path path"
  shows "received w (Get (base @ path)) = (case mux server_routes ''GET'' path of Handler h \<Rightarrow> call_of w h path None | _ \<Rightarrow> None)"
    and "received w (Post (base @ path) body) = (case mux server_routes ''POST'' path of Handler h \<Rightarrow> call_of w h path body | _ \<Rightarrow> None)"
  using url_path_at[OF assms] by (simp_all add: routed_def)

lemma route_plain: "(meth, path, h) \<in> set server_routes \<Longrightarrow> plain_path path"
  unfolding server_routes_def plain_path_def by auto

lemma received_fixed:
  assumes "(meth, path, h) \<in> set server_routes" and "\<not> is_subtree path" and "path \<noteq> ''/{$}''" and "origin base"
  shows "meth = ''GET'' \<Longrightarrow> received w (Get (base @ path)) = call_of w h path None"
    and "meth = ''POST'' \<Longrightarrow> received w (Post (base @ path) body) = call_of w h path body"
  unfolding received_at[OF assms(4) route_plain[OF assms(1)]] using fixed_paths[OF assms(1-3)] by simp_all

lemma received_balance:
  assumes "url_safe acc" and "origin base"
  shows "received w (Get (base @ ''/api/v1/account/'' @ acc)) = Some (GET_account (''/api/v1/account/'' @ acc))"
proof -
  have "c \<noteq> CHR ''?'' \<and> c \<noteq> CHR ''#''" if "c \<in> set acc" for c
    using assms(1) that unfolding url_safe_def list_all_iff by fastforce
  then have "plain_path (''/api/v1/account/'' @ acc)" by (auto simp: plain_path_def list_all_iff)
  from received_at(1)[OF assms(2) this] balance_path[OF assms(1)] show ?thesis
    by (simp only: mux_answer.case call_of.simps)
qed

lemmas route_set = server_routes_def is_subtree_def

lemma received_get:
  assumes "origin base"
  shows "received w (Get (base @ ''/api/v1/health'')) = Some (GET_health (w_now w))"
    "received w (Get (base @ ''/api/v1/revocation/stats'')) = Some GET_revocation_stats"
    "received w (Get (base @ ''/api/v1/ledger/reserve'')) = Some GET_reserve"
    "received w (Get (base @ ''/api/v1/audit/conservation'')) = Some (GET_audit (w_order w))"
  by (subst received_fixed(1)[where meth = "''GET''", OF _ _ _ assms], (simp add: route_set; fail), (simp add: route_set; fail), simp, simp, simp)+

lemma received_post:
  assumes "origin base"
  shows "received w (Post (base @ ''/api/v1/auth/pay'') body) = call_of w handle_pay ''/api/v1/auth/pay'' body"
    "received w (Post (base @ ''/api/v1/network/toggle'') body) = call_of w handle_network_toggle ''/api/v1/network/toggle'' body"
    "received w (Post (base @ ''/api/v1/tokens/issue'') body) = call_of w handle_issue_token ''/api/v1/tokens/issue'' body"
    "received w (Post (base @ ''/api/v1/ledger/allowance/allocate'') body) =
       call_of w handle_allocate_allowance ''/api/v1/ledger/allowance/allocate'' body"
    "received w (Post (base @ ''/api/v1/revocation/add'') body) = call_of w handle_revocation_add ''/api/v1/revocation/add'' body"
    "received w (Post (base @ ''/api/v1/qr/generate'') body) = call_of w handle_generate_qr ''/api/v1/qr/generate'' body"
    "received w (Post (base @ ''/api/v1/reconcile'') body) = call_of w handle_reconcile ''/api/v1/reconcile'' body"
    "received w (Post (base @ ''/api/v1/account/create'') body) = call_of w handle_create_account ''/api/v1/account/create'' body"
    "received w (Post (base @ ''/api/v1/fraud/reset'') body) = call_of w handle_reset_fraud ''/api/v1/fraud/reset'' body"
  by (subst received_fixed(2)[where meth = "''POST''", OF _ _ _ assms], (simp add: route_set; fail), (simp add: route_set; fail), simp, simp, simp)+

text \<open>
  A base URL with a final slash makes every path start with two. The server redirects these, so that no request gets to a
  handler as it was sent: \<open>net/http\<close> follows with \<open>GET\<close>, and the commands that post are lost.
\<close>

lemma final_slash_not_routed:
  assumes "origin base" and "plain_path (CHR ''/'' # path)" and "path \<noteq> ''''"
  shows "received w (Get ((base @ ''/'') @ CHR ''/'' # path)) = None" "received w (Post ((base @ ''/'') @ CHR ''/'' # path) body) = None"
proof -
  have plain: "plain_path (CHR ''/'' # CHR ''/'' # path)" using assms(2) by (simp add: plain_path_def)
  have "split_slash u path \<noteq> []" for u by (induction path arbitrary: u) auto
  then have "\<not> clean_path (CHR ''/'' # CHR ''/'' # path)" by (simp add: clean_path_def Let_def)
  then have "mux server_routes meth (CHR ''/'' # CHR ''/'' # path) = MovedPermanently" for meth by (simp add: mux_def)
  then show "received w (Get ((base @ ''/'') @ CHR ''/'' # path)) = None" "received w (Post ((base @ ''/'') @ CHR ''/'' # path) body) = None"
    using received_at[OF assms(1) plain] by (simp_all del: received.simps)
qed

text \<open>One command at a time; \<open>served\<close> is the conclusion about it.\<close>

definition served :: "world \<Rightarrow> int64 \<Rightarrow> parse_float \<Rightarrow> string \<Rightarrow> string list \<Rightarrow> bool" where
  "served w f2i pf url args \<longleftrightarrow>
     (\<forall>r. cli_main f2i pf url args = Send r \<longrightarrow>
        intended w f2i pf args \<noteq> None \<and> received w r = intended w f2i pf args)"

lemmas serve = served_def cli_main_def intended_def received_get received_post decoded

lemma served_plain:
  assumes "origin (getBaseURL url)"
  shows "served w f2i pf url (''health'' # as)" "served w f2i pf url (''cuckoo-stats'' # as)" "served w f2i pf url (''reconcile'' # as)"
    "served w f2i pf url (''reserve'' # as)" "served w f2i pf url (''audit'' # as)" "served w f2i pf url (''reset-fraud'' # as)"
  using assms by (simp_all add: serve del: received.simps)

lemma served_balance: "origin (getBaseURL url) \<Longrightarrow> url_safe (hd as) \<Longrightarrow> served w f2i pf url (''balance'' # as)"
  using received_balance[of "hd as" "getBaseURL url" w] by (cases as) (simp_all add: serve del: received.simps)

lemma served_one:
  assumes "origin (getBaseURL url)"
  shows "served w f2i pf url (''network'' # as)" "served w f2i pf url (''revoke'' # as)" "served w f2i pf url (''qr'' # as)"
  using assms by (cases as; simp add: serve del: received.simps)+

lemma served_pay: "origin (getBaseURL url) \<Longrightarrow> served w f2i pf url (''pay'' # as)"
  by (auto simp: serve cli_pay_def Let_def simp del: received.simps split: list.splits prod.splits option.splits)

lemma served_amounts:
  assumes "origin (getBaseURL url)"
  shows "served w f2i pf url (''token'' # as)" "served w f2i pf url (''allowance'' # as)" "served w f2i pf url (''create-account'' # as)"
  using assms
  by (auto simp: serve cli_token_def cli_allowance_def cli_create_account_def Let_def simp del: received.simps split: list.splits)

lemma cli_commands:
  assumes "cli_main f2i pf url (cmd # as) = Send r"
  shows "cmd \<in> {''health'', ''balance'', ''pay'', ''network'', ''token'', ''allowance'', ''revoke'', ''cuckoo-stats'', ''qr'', ''reconcile'',
    ''reserve'', ''audit'', ''create-account'', ''reset-fraud''}"
  using assms by (simp add: cli_main_def Let_def split: if_splits)

section \<open>Properties\<close>

text \<open>
  C39. The client and the server agree. When the base URL is an origin (a scheme and a host, without a path, a final slash or
  a query), a request that a command line sends arrives, through the server's
  table of patterns and the struct of the handler, as the call that the command means: every command reaches its own
  handler, and each field of the payload the field it is meant for, the optional arguments with their defaults. For \<open>balance\<close> the account must moreover consist of
  letters, digits, hyphens and underscores, because the client does not escape it.
\<close>

theorem cli_commands_served:
  assumes "origin (getBaseURL url)" and "cli_main f2i pf url args = Send r" and "hd args = ''balance'' \<Longrightarrow> url_safe (args ! 1)"
  shows "intended w f2i pf args \<noteq> None \<and> received w r = intended w f2i pf args"
proof -
  obtain cmd as where args: "args = cmd # as" using assms(2) by (cases args) (auto simp: cli_main_def)
  have "served w f2i pf url args"
  proof (cases "cmd = ''balance''")
    case True
    show ?thesis
    proof (cases as)
      case Nil
      then show ?thesis by (simp add: served_def args True cli_main_def)
    next
      case (Cons a as')
      with assms(3) True have "url_safe (hd as)" by (simp add: args)
      then show ?thesis unfolding args True by (rule served_balance[OF assms(1)])
    qed
  next
    case False
    with cli_commands[of f2i pf url cmd as r] assms(1,2) show ?thesis
      by (auto simp: args served_plain served_one served_pay served_amounts)
  qed
  with assms(2) show ?thesis by (simp add: served_def)
qed

theorem cli_commands_served_witness:
  "\<exists>r. cli_main 0 (\<lambda>_. (None, None)) '''' [''balance'', ''ACC-BENCH-1''] = Send r \<and>
     (\<forall>w. received w r = Some (GET_account ''/api/v1/account/ACC-BENCH-1''))"
proof (intro exI conjI allI)
  show run: "cli_main 0 (\<lambda>_. (None, None)) '''' [''balance'', ''ACC-BENCH-1''] = Send (Get ''http://localhost:8080/api/v1/account/ACC-BENCH-1'')"
    by (simp add: cli_main_def getBaseURL_def)
  have "origin (getBaseURL '''')" by (simp add: origin_def getBaseURL_def has_prefix_def)
  from cli_commands_served[OF this run] show "received w (Get ''http://localhost:8080/api/v1/account/ACC-BENCH-1'') =
      Some (GET_account ''/api/v1/account/ACC-BENCH-1'')" for w
    by (simp add: url_safe_def list_all_iff intended_def del: received.simps)
qed

end
