(* ===== verification/Spec2Isabelle.thy ===== *)
theory Spec2Isabelle
  imports Ledger_Props Ledger_Journal Ledger_Concurrent Gateway_Concurrent Reconcile_Rely Filter_Claims QR Offline_Auth_Props Reconcile_Claims Fraud_Props Server_Claims AIO_Claims AIO_Selftest Client_Server
begin

text \<open>
  A verification of the payment risk engine FS-2601 (a Go program under \<open>src/\<close>): authorization of card
  and QR payments with a double-entry ledger, inline fraud screening, cryptographically bounded offline
  payments during a network partition, and the reconciliation of those payments afterwards.

  \<^bold>\<open>The program and its parts.\<close> A request reaches the gateway (\<open>internal/gateway/m1_api.go\<close>, M1).
  Online it is screened by the fraud engine (\<open>internal/fraud/m3_graph_fraud.go\<close>, M3) and paid by
  reserving and committing funds in the ledger (\<open>internal/ledger/m2_conserving.go\<close>, M2). During a
  partition it must carry a signed token, which the edge authorizer checks
  (\<open>internal/edge/m4_offline_auth.go\<close>, M4, with the revocation filter of
  \<open>internal/fraud/compact_filter.go\<close>); the payment is then queued in a write-ahead log
  (\<open>internal/edge/m5_local_store.go\<close>, M5). After the partition the reconciler
  (\<open>internal/reconcile/m6_engine.go\<close>, M6) orders the queue and settles it on the ledger. Dynamic QR codes
  are signed and verified by \<open>internal/fraud/qr_verifier.go\<close>; responses and ISO-8583 codes are built by
  \<open>internal/telemetry/m7_alerts.go\<close> (M7). \<open>cmd/server/main.go\<close> wires the parts together and serves HTTP;
  \<open>cmd/cli/main.go\<close> is a client of it. \<open>fs2601_all_in_one.go\<close> is a second, self-contained program: a smaller ledger,
  filter, fraud screen, log, reconciler and gateway in one file, with differences of behaviour throughout.

  \<^bold>\<open>Which theory models which part.\<close>
  \<^item> \<open>Prelude\<close>: machine integers as words, strings as byte strings, time, printing, big-endian layout.
    \<open>Float64\<close>: rounding of the \<open>float64\<close> values that occur. \<open>Crypto\<close>: SHA-256 and HMAC as functions that
    compute; Ed25519 as a parameter (record \<open>ed25519\<close>) with its documented behaviour as the predicate
    \<open>ed25519_correct\<close>; the locale \<open>signed_document\<close> shared by tokens and QR codes. \<open>Stable_Sort\<close>: the algorithm
    of \<open>sort.SliceStable\<close>, with the locale \<open>strict_weak_order\<close>.
  \<^item> M2: \<open>Ledger\<close> (accounts with three buckets, reservations, journal; every operation), \<open>Book\<close> (the abstract
    contract: positions, transfers, the locales \<open>transfer_system\<close> and \<open>guarded_transfer_system\<close>),
    \<open>Ledger_Refine\<close> (each operation is its specified transfer; both locales interpreted on the ledger),
    \<open>Ledger_Props\<close> and \<open>Ledger_Journal\<close> (properties; the journal explains the balances). Concurrent calls:
    \<open>Ledger_Threads\<close> (goroutines, the mutexes of the accounts and a scheduler as a step relation; \<open>begin_call\<close> is the
    code of every call as the list of its atomic instructions), \<open>Ledger_Serial\<close> (that code against the atomic
    operation of \<open>Ledger\<close>), \<open>Ledger_Interleaving\<close> (the invariant \<open>tied\<close>, which relates a state of the scheduler to a serial
    history, and that every step keeps it), \<open>Ledger_Holds\<close> (the reservations that calls under way have made),
    \<open>Ledger_Concurrent\<close> (the properties).
  \<^item> Cuckoo filter: \<open>Compact_Filter\<close> (sizing, hashing, insertion with displacement, lookup, binary format; the
    locale \<open>membership_filter\<close>), \<open>Compact_Filter_Props\<close> (its interpretation), \<open>Filter_Claims\<close>.
  \<^item> QR codes: \<open>QR\<close>. M7: \<open>Telemetry\<close>. M4: \<open>Offline_Auth\<close>, \<open>Offline_Auth_Props\<close>.
  \<^item> M5: \<open>WAL_Store\<close> (the file as a list of bytes, every outcome of a write, recovery; the locale \<open>framing\<close>),
    \<open>WAL_Props\<close>. M6: \<open>Reconcile\<close>, \<open>Reconcile_Order\<close> (vector clocks and the replay order), \<open>Reconcile_Props\<close> (what one
    settlement moves, as the function \<open>settle_book\<close> on the book), \<open>Reconcile_Claims\<close> (settlements, one replay, many replays);
    \<open>Reconcile_Threads\<close> (one settlement, cut into its ledger calls, beside
    other calls of the ledger) and \<open>Reconcile_Rely\<close> (what it relies on: with nobody lowering the customer's balances it settles as if alone).
  \<^item> M3: \<open>Fraud_Graph\<close> (maps of recent transfers and devices, cycle search, pruning, rounded score),
    \<open>Fraud_Props\<close> (an engine that is one log of approved transfers; the locale \<open>timed_simulation\<close>).
  \<^item> M1: \<open>Gateway\<close>, \<open>Gateway_Props\<close> (the ways a payment ends; the locale \<open>transfer_system\<close> interpreted on the
    gateway), \<open>Gateway_Claims\<close>; \<open>Gateway_Threads\<close> (a payment cut into its accesses to shared state, payments side by
    side) and \<open>Gateway_Concurrent\<close>. Server: \<open>Server\<close>, \<open>Server_Props\<close>, \<open>Server_Claims\<close>; \<open>Http_Mux\<close> (the routes and \<open>main\<close> of
    both servers, with the matching rules of \<open>http.ServeMux\<close>).
  \<^item> The single-file program, with the prefix \<open>aio_\<close>: \<open>AIO_Ledger\<close>, \<open>AIO_System\<close> (filter, QR codes, fraud screen, log,
    reconciler), \<open>AIO_Gateway\<close> (payments, handlers, start-up), \<open>AIO_Props\<close> (\<open>transfer_system\<close> interpreted on its
    ledger), \<open>AIO_Filter\<close> (\<open>membership_filter\<close> interpreted on its filter), \<open>AIO_Claims\<close>; \<open>AIO_Selftest\<close> (the self tests and the
    choice that \<open>main\<close> makes).
  \<^item> Client: \<open>Cli\<close> (from the arguments to a request), \<open>Cli_Run\<close> (output and exit code); \<open>Client_Server\<close> (a request of the client
    as the server routes and decodes it). \<open>Json\<close> has the dynamic values that the last two programs use, \<open>Float_Ops\<close> their products of
    \<open>float64\<close> values, the conversion to \<open>int64\<close> and the error of a rounding.

  \<^bold>\<open>How the model corresponds to the code.\<close> A Go struct is a record with the names of its fields (prefixed
  where two structs share a name); a method is a definition that takes the receiver last and returns it
  updated, with its results. A map is a partial function, or an association list where it is iterated; an
  error is a value of a sum or option type. \<open>int64\<close> is a 64-bit word compared by \<open>sint\<close>, so overflow is the
  overflow of Go. Readings of the clock, random bytes, the outcomes of writes and the iteration order of
  maps are arguments, so the theorems hold for all of them. \<open>None\<close> as the result of a whole call is a panic or
  a call that blocks on a mutex its goroutine holds. Pointers shared between components are kept once, in
  the record of the component that uses them (the gateway's ledger is the reconciler's and the
  server's).

  \<^bold>\<open>What the theorems show.\<close>
  \<^item> Money: every ledger call refines a guarded transfer between positions; no call of the ledger, the
    gateway or the server changes the audited total except funding and account creation; balances of
    checked calls never become negative; accepted spends never exceed what was held; failed calls change
    nothing; the journal explains the online and offline balances one by one and the reserved ones in total; which calls block.
  \<^item> Concurrency: ledger calls that interleave at their locks, updates and postings are linearizable (one serial order for the whole run), keep a
    solvent ledger solvent, and all return when they lock in the order of the names, audits beside them included;
    payments that interleave at their calls into the components are accounted for to the cent and never rolled back.
    The schedules that go wrong are theorems too: the deficit calls can deadlock with a commit, an audit can count a payment twice, two
    requests with one idempotency key can both be paid, a settlement whose snapshot goes stale pays the merchant nothing.
  \<^item> Payments: the exact condition and effect of an online payment on any ledger, solvent or not (when the commit fails the
    rollback fails with it, and the amount stays reserved); idempotency over any later calls; what
    an offline payment checks, charges and queues; that behind any queue and before any later payments it is settled once, for
    exactly its amount, after the partition; that every response is consistent.
  \<^item> Offline: the exact approval condition; the ceiling of a token over any run; issued tokens are
    accepted; revocations block while no later insertion fails; the filter has no false negatives while insertions succeed; its binary
    format round-trips; its constructor terminates for capacities up to 2^32, with the exact number of buckets.
  \<^item> Log: after a crash at any byte the store is that of a maximal prefix of the appends; it behaves as a
    queue without duplicates on every outcome of the writes.
  \<^item> Reconciliation: vector clocks compare as the causal order; the order of a batch is independent of arrival exactly when
    clocks and tie-breakers have no cycle on it; a replay settles exactly the transactions that are new, and over any replays
    nothing is settled twice; what each settlement moves for any amounts, accounts and balances, alone and beside other calls; when a
    replay returns.
  \<^item> Fraud: the engine with its pruning gives the verdicts of a log that forgets nothing; the exact decision
    gate and score bounds; the rate limit of 25 approvals a minute.
  \<^item> QR codes and start-up: the exact acceptance condition; generated codes against the gateway's gate; the
    state that start-up leaves.
  \<^item> Single-file program: money is conserved from its start over any payments and network changes; the exact
    condition and effect of an online payment; revoked accounts are declined offline when the number of
    buckets is a power of two; each reconnection settles everything again; its self tests pass, in every order of their
    goroutines. Client: the amount sent is the amount typed or one cent less; with a base URL of scheme and host every
    command arrives at the server as the call it means (an account that is put into a path must be safe there).
  \<^item> Divergences that the model shows are stated as theorems too: a failed insertion drops a revoked key, a
    negative amount refills a token, a failed commit leaves its amount reserved, a base URL with a final slash
    reaches no handler, a token of another account pays, an append after a short write is lost, the replay order can
    depend on arrival.

  \<^bold>\<open>Bounds and fuel.\<close> No definition runs on artificial fuel: recursion is structural or has a measure, the
  displacement loops have the 500 kicks of the code, the sizing loop of the filter is a \<open>partial_function\<close> whose
  termination is proved, and \<open>scale_up\<close> in \<open>Float64\<close> has the 1074 doublings that reach the least subnormal.

  \<^bold>\<open>Not modelled.\<close> Interleavings inside the authorizer, the log, the fraud engine and the filter, whose calls hold one
  mutex from start to end, or between the settlements of a reconciliation, and those of the HTTP handlers and of the single-file program; the Go memory model (a
  field read without its lock); that a pending writer of an \<open>RWMutex\<close> holds back new readers (the scheduler of \<open>Ledger_Threads\<close>
  has more schedules); what a panic leaves behind when \<open>net/http\<close> recovers from it. In the theories not named above under concurrency each call runs to its end before the
  next, and locks matter only where one call takes the same lock twice. The text of JSON (a request of the client is
  decoded from the value it encodes, other bodies by a parameter; the layout of replies), HTTP transport and the listener, the
  dashboard pages, the benchmarks of the single-file program, which only print timings, and the Go tests. In the model of the single-file program the conversion of a number to text inside a QR object is a
  parameter.
\<close>

end
